theory Spec2Isabelle
  imports Complex_Main "HOL-Library.Word"
begin

section \<open>Platform services shared by the three GPU monitors\<close>

text \<open>
  The three files \<^verbatim>\<open>nvidia/gpu_usage.c\<close>, \<^verbatim>\<open>amd/gpu_usage.c\<close> and
  \<^verbatim>\<open>intel/gpu_usage.c\<close> keep their state in file-level globals and talk to the
  operating system and to a vendor library. The globals become a record that every
  operation takes and returns. What the operating system and the vendor library answer is
  not decided by the program: it is an argument (a record of answers, one field per
  external function), and every theorem quantifies over it.

  A non-null handle (\<^verbatim>\<open>HMODULE\<close>, \<^verbatim>\<open>PDH_HQUERY\<close>, \<^verbatim>\<open>PDH_HCOUNTER\<close>) is a number,
  \<^verbatim>\<open>NULL\<close> is \<open>None\<close>. A function pointer is \<^verbatim>\<open>NULL\<close> or an address inside the module
  it was resolved from.
\<close>

type_synonym handle = nat

datatype fptr = NullFn | Fn handle

text \<open>
  What C leaves undefined is a value of its own, so that a crash is a result of the model:
  a call through a \<^verbatim>\<open>NULL\<close> function pointer, a call into a module that has been
  unloaded, releasing a module or a counter query that is not held, reading \<^verbatim>\<open>devices[i]\<close>
  past the array, and a floating-point value converted to \<^verbatim>\<open>int\<close> that does not fit.
\<close>

datatype fault =
    NullCall string
  | DanglingCall string
  | BadFree handle
  | BadClose handle
  | OutOfBounds int
  | FloatToInt
  | SignedOverflow
  | BufferOverrun

text \<open>The calls that the properties below are about are recorded in order.\<close>

datatype event =
    EvLoadLibrary string
  | EvFreeLibrary handle
  | EvCall string
  | EvOpenQuery
  | EvCloseQuery handle
  | EvCollect handle

record os =
  modules :: "handle list"
  queries :: "handle list"
  trace :: "event list"

definition emit :: "event \<Rightarrow> os \<Rightarrow> os" where
  "emit e w = w\<lparr>trace := trace w @ [e]\<rparr>"

definition bindF :: "fault + 'a \<Rightarrow> ('a \<Rightarrow> fault + 'b) \<Rightarrow> fault + 'b" where
  "bindF m k = (case m of Inl f \<Rightarrow> Inl f | Inr x \<Rightarrow> k x)"

text \<open>
  A Windows path or counter path, written as its components: \<open>path\<close> joins them with
  the backslash (character 0x5C).
\<close>

fun path :: "string list \<Rightarrow> string" where
  "path [] = []"
| "path [c] = c"
| "path (c # cs) = c @ CHR 0x5C # path cs"

text \<open>
  \<^verbatim>\<open>for (i = 0; i < n; i++) { lib = LoadLibraryA(possible_paths[i]); if (lib) break; }\<close>
  The result is the value of \<^verbatim>\<open>lib\<close> after the loop. A module that is loaded twice is
  held twice.
\<close>

fun try_load :: "(string \<Rightarrow> handle option) \<Rightarrow> string list \<Rightarrow> os \<Rightarrow> handle option \<times> os" where
  "try_load L [] w = (None, w)"
| "try_load L (p # ps) w =
     (case L p of
        Some h \<Rightarrow> (Some h, (emit (EvLoadLibrary p) w)\<lparr>modules := h # modules w\<rparr>)
      | None \<Rightarrow> try_load L ps (emit (EvLoadLibrary p) w))"

definition FreeLibrary :: "handle \<Rightarrow> os \<Rightarrow> fault + os" where
  "FreeLibrary h w =
     (if h \<in> set (modules w)
      then Inr ((emit (EvFreeLibrary h) w)\<lparr>modules := remove1 h (modules w)\<rparr>)
      else Inl (BadFree h))"

definition GetProcAddress :: "(handle \<Rightarrow> string \<Rightarrow> bool) \<Rightarrow> handle \<Rightarrow> string \<Rightarrow> fptr" where
  "GetProcAddress G h nm = (if G h nm then Fn h else NullFn)"

definition call_fptr :: "string \<Rightarrow> fptr \<Rightarrow> os \<Rightarrow> fault + os" where
  "call_fptr nm p w =
     (case p of
        NullFn \<Rightarrow> Inl (NullCall nm)
      | Fn h \<Rightarrow> if h \<in> set (modules w) then Inr (emit (EvCall nm) w) else Inl (DanglingCall nm))"

subsection \<open>The JSON document\<close>

text \<open>
  \<^verbatim>\<open>gpu_get_info_json\<close> builds its text with \<^verbatim>\<open>strcpy\<close>, \<^verbatim>\<open>strcat\<close> and \<^verbatim>\<open>snprintf\<close>.
  The document is modelled as the sequence of pieces appended to the buffer; a record piece
  holds the values passed to \<^verbatim>\<open>snprintf\<close>, each read the way its conversion prints it
  (\<^verbatim>\<open>%u\<close> and \<^verbatim>\<open>%llu\<close> unsigned, \<^verbatim>\<open>%d\<close> signed). The two floating-point fields are
  rational numbers: rounding by the float type and by \<^verbatim>\<open>%.1f\<close>/\<^verbatim>\<open>%.2f\<close> is not
  modelled. \<^verbatim>\<open>malloc\<close> returning \<^verbatim>\<open>NULL\<close> is an answer of the platform.
\<close>

record gpu_record =
  index :: int
  name :: string
  gpu_utilization :: int
  memory_utilization :: int
  memory_total :: int
  memory_used :: int
  memory_free :: int
  temperature :: rat
  power_usage :: rat

datatype piece = Open | Comma | Rec gpu_record | Close

fun records :: "piece list \<Rightarrow> gpu_record list" where
  "records [] = []"
| "records (Rec r # ps) = r # records ps"
| "records (p # ps) = records ps"

text \<open>
  A document is well formed when it is the opening piece, the records separated by single
  commas, and the closing piece.
\<close>

fun separated :: "gpu_record list \<Rightarrow> piece list" where
  "separated [] = []"
| "separated [r] = [Rec r]"
| "separated (r # rs) = Rec r # Comma # separated rs"

definition well_formed :: "piece list \<Rightarrow> bool" where
  "well_formed d = (d = Open # separated (records d) @ [Close])"

text \<open>
  The heap buffer has \<^verbatim>\<open>buffer_size\<close> bytes. \<^verbatim>\<open>{"gpus":[\<close> has 9 characters, the comma
  1 and \<^verbatim>\<open>]}\<close> 2; the characters of a record are those that \<^verbatim>\<open>snprintf\<close> left in the
  local array, given by \<open>rl\<close>. \<^verbatim>\<open>snprintf(a, n, ...)\<close> leaves at most \<open>n - 1\<close> of the
  \<open>k\<close> characters that the format produces. \<^verbatim>\<open>strcpy\<close> and \<^verbatim>\<open>strcat\<close> write the
  characters of a piece and a terminating zero byte after the text that is in the buffer;
  writing beyond the allocated bytes has no meaning in C. \<^verbatim>\<open>strcpy\<close> is \<^verbatim>\<open>strcat\<close> to
  the empty text.
\<close>

definition snprintf :: "nat \<Rightarrow> nat \<Rightarrow> nat" where
  "snprintf n k = min k (n - 1)"

definition piece_length :: "(gpu_record \<Rightarrow> nat) \<Rightarrow> piece \<Rightarrow> nat" where
  "piece_length rl p = (case p of Open \<Rightarrow> 9 | Comma \<Rightarrow> 1 | Rec r \<Rightarrow> rl r | Close \<Rightarrow> 2)"

definition strlen :: "(gpu_record \<Rightarrow> nat) \<Rightarrow> piece list \<Rightarrow> nat" where
  "strlen rl buf = sum_list (map (piece_length rl) buf)"

definition strcat ::
    "nat \<Rightarrow> (gpu_record \<Rightarrow> nat) \<Rightarrow> piece list \<Rightarrow> piece \<Rightarrow> fault + piece list" where
  "strcat buffer_size rl buf p =
     (if strlen rl buf + piece_length rl p + 1 \<le> buffer_size then Inr (buf @ [p])
      else Inl BufferOverrun)"

text \<open>The pieces of one turn of a loop, appended one after the other.\<close>

fun strcat_each ::
    "nat \<Rightarrow> (gpu_record \<Rightarrow> nat) \<Rightarrow> piece list \<Rightarrow> piece list \<Rightarrow> fault + piece list" where
  "strcat_each buffer_size rl buf [] = Inr buf"
| "strcat_each buffer_size rl buf (p # ps) =
     bindF (strcat buffer_size rl buf p) (\<lambda>buf'. strcat_each buffer_size rl buf' ps)"

text \<open>
  The result of an arithmetic operation on \<^verbatim>\<open>int\<close>: a value outside the type has no
  meaning in C.
\<close>

definition int_result :: "int \<Rightarrow> fault + int" where
  "int_result v = (if - (2 ^ 31) \<le> v \<and> v < 2 ^ 31 then Inr v else Inl SignedOverflow)"

section \<open>NVIDIA: \<^verbatim>\<open>nvidia/gpu_usage.c\<close>\<close>

type_synonym nvmlReturn_t = nat

definition NVML_SUCCESS :: nvmlReturn_t where
  "NVML_SUCCESS = 0"

type_synonym nvmlDevice_t = nat

record nvmlUtilization_t =
  gpu :: "32 word"
  memory :: "32 word"

record nvmlMemory_t =
  mem_total :: "64 word"
  mem_free :: "64 word"
  mem_used :: "64 word"

text \<open>The file's globals, and the platform state they refer to.\<close>

record nv_state =
  nvml_lib :: "handle option"
  nvmlInit :: fptr
  nvmlShutdown :: fptr
  nvmlDeviceGetCount :: fptr
  nvmlDeviceGetHandleByIndex :: fptr
  nvmlDeviceGetName :: fptr
  nvmlDeviceGetUtilizationRates :: fptr
  nvmlDeviceGetMemoryInfo :: fptr
  nvmlDeviceGetTemperature :: fptr
  nvmlDeviceGetPowerUsage :: fptr
  nv_os :: os

text \<open>
  The answers of the platform and of NVML. A function with an out-parameter whose status
  the code checks answers a status and the value left in the out-parameter. The code
  ignores the status of \<^verbatim>\<open>nvmlDeviceGetTemperature\<close> and \<^verbatim>\<open>nvmlDeviceGetPowerUsage\<close>
  and reads the variable it initialised to 0: their answer is the value the library
  stored, if it stored one.
\<close>

record nv_env =
  nv_LoadLibraryA :: "string \<Rightarrow> handle option"
  nv_exports :: "handle \<Rightarrow> string \<Rightarrow> bool"
  nv_malloc_ok :: bool
  ans_nvmlInit :: nvmlReturn_t
  ans_nvmlDeviceGetCount :: "nvmlReturn_t \<times> 32 word"
  ans_nvmlDeviceGetHandleByIndex :: "nat \<Rightarrow> nvmlReturn_t \<times> nvmlDevice_t"
  ans_nvmlDeviceGetName :: "nvmlDevice_t \<Rightarrow> nvmlReturn_t \<times> string"
  ans_nvmlDeviceGetUtilizationRates :: "nvmlDevice_t \<Rightarrow> nvmlReturn_t \<times> nvmlUtilization_t"
  ans_nvmlDeviceGetMemoryInfo :: "nvmlDevice_t \<Rightarrow> nvmlReturn_t \<times> nvmlMemory_t"
  ans_nvmlDeviceGetTemperature :: "nvmlDevice_t \<Rightarrow> 32 word option"
  ans_nvmlDeviceGetPowerUsage :: "nvmlDevice_t \<Rightarrow> 32 word option"
  nv_snprintf :: "gpu_record \<Rightarrow> nat"

definition nv_initial :: "os \<Rightarrow> nv_state" where
  "nv_initial w = \<lparr>nvml_lib = None, nvmlInit = NullFn, nvmlShutdown = NullFn,
     nvmlDeviceGetCount = NullFn, nvmlDeviceGetHandleByIndex = NullFn,
     nvmlDeviceGetName = NullFn, nvmlDeviceGetUtilizationRates = NullFn,
     nvmlDeviceGetMemoryInfo = NullFn, nvmlDeviceGetTemperature = NullFn,
     nvmlDeviceGetPowerUsage = NullFn, nv_os = w\<rparr>"

definition nvml_paths :: "string list" where
  "nvml_paths =
     [path [''C:'', ''Program Files'', ''NVIDIA Corporation'', ''NVSMI'', ''nvml.dll''],
      path [''C:'', ''Windows'', ''System32'', ''nvml.dll''],
      ''nvml.dll'']"

text \<open>\<^verbatim>\<open>p = GetProcAddress(lib, a); if (!p) p = GetProcAddress(lib, b);\<close>\<close>

definition resolve2 :: "(handle \<Rightarrow> string \<Rightarrow> bool) \<Rightarrow> handle \<Rightarrow> string \<Rightarrow> string \<Rightarrow> fptr" where
  "resolve2 G h a b =
     (if GetProcAddress G h a = NullFn then GetProcAddress G h b else GetProcAddress G h a)"

definition load_nvml :: "nv_env \<Rightarrow> nv_state \<Rightarrow> fault + (int \<times> nv_state)" where
  "load_nvml E s =
     (case try_load (nv_LoadLibraryA E) nvml_paths (nv_os s) of
        (None, w) \<Rightarrow> Inr (- 1, s\<lparr>nvml_lib := None, nv_os := w\<rparr>)
      | (Some h, w) \<Rightarrow>
          (let G = nv_exports E;
               s1 = s\<lparr>nvml_lib := Some h, nv_os := w,
                 nvmlInit := resolve2 G h ''nvmlInit_v2'' ''nvmlInit'',
                 nvmlShutdown := GetProcAddress G h ''nvmlShutdown'',
                 nvmlDeviceGetCount :=
                   resolve2 G h ''nvmlDeviceGetCount_v2'' ''nvmlDeviceGetCount'',
                 nvmlDeviceGetHandleByIndex :=
                   resolve2 G h ''nvmlDeviceGetHandleByIndex_v2'' ''nvmlDeviceGetHandleByIndex'',
                 nvmlDeviceGetName := GetProcAddress G h ''nvmlDeviceGetName'',
                 nvmlDeviceGetUtilizationRates :=
                   GetProcAddress G h ''nvmlDeviceGetUtilizationRates'',
                 nvmlDeviceGetMemoryInfo := GetProcAddress G h ''nvmlDeviceGetMemoryInfo'',
                 nvmlDeviceGetTemperature := GetProcAddress G h ''nvmlDeviceGetTemperature'',
                 nvmlDeviceGetPowerUsage := GetProcAddress G h ''nvmlDeviceGetPowerUsage''\<rparr>
           in if nvmlInit s1 = NullFn \<or> nvmlShutdown s1 = NullFn
                 \<or> nvmlDeviceGetCount s1 = NullFn \<or> nvmlDeviceGetHandleByIndex s1 = NullFn
                 \<or> nvmlDeviceGetName s1 = NullFn \<or> nvmlDeviceGetUtilizationRates s1 = NullFn
                 \<or> nvmlDeviceGetMemoryInfo s1 = NullFn
              then bindF (FreeLibrary h w) (\<lambda>w'. Inr (- 2, s1\<lparr>nvml_lib := None, nv_os := w'\<rparr>))
              else Inr (0, s1)))"

definition unload_nvml :: "nv_state \<Rightarrow> fault + nv_state" where
  "unload_nvml s =
     (case nvml_lib s of
        None \<Rightarrow> Inr s
      | Some h \<Rightarrow> bindF (FreeLibrary h (nv_os s)) (\<lambda>w. Inr (s\<lparr>nvml_lib := None, nv_os := w\<rparr>)))"

definition nv_gpu_init :: "nv_env \<Rightarrow> nv_state \<Rightarrow> fault + (int \<times> nv_state)" where
  "nv_gpu_init E s =
     bindF (load_nvml E s) (\<lambda>(rc, s1).
       if rc \<noteq> 0 then Inr (- 1, s1)
       else bindF (call_fptr ''nvmlInit'' (nvmlInit s1) (nv_os s1)) (\<lambda>w.
         if ans_nvmlInit E \<noteq> NVML_SUCCESS
         then bindF (unload_nvml (s1\<lparr>nv_os := w\<rparr>)) (\<lambda>s2. Inr (- 2, s2))
         else Inr (0, s1\<lparr>nv_os := w\<rparr>)))"

definition nv_gpu_shutdown :: "nv_state \<Rightarrow> fault + nv_state" where
  "nv_gpu_shutdown s =
     bindF (if nvml_lib s \<noteq> None \<and> nvmlShutdown s \<noteq> NullFn
            then bindF (call_fptr ''nvmlShutdown'' (nvmlShutdown s) (nv_os s))
                   (\<lambda>w. Inr (s\<lparr>nv_os := w\<rparr>))
            else Inr s)
       unload_nvml"

text \<open>\<^verbatim>\<open>(int)device_count\<close> reads the 32 bits as two's complement.\<close>

definition nv_gpu_get_count :: "nv_env \<Rightarrow> nv_state \<Rightarrow> fault + (int \<times> nv_state)" where
  "nv_gpu_get_count E s =
     bindF (call_fptr ''nvmlDeviceGetCount'' (nvmlDeviceGetCount s) (nv_os s)) (\<lambda>w.
       (case ans_nvmlDeviceGetCount E of (result, device_count) \<Rightarrow>
          if result \<noteq> NVML_SUCCESS then Inr (- 1, s\<lparr>nv_os := w\<rparr>)
          else Inr (sint device_count, s\<lparr>nv_os := w\<rparr>)))"

text \<open>
  The values that one turn of the loop of \<^verbatim>\<open>gpu_get_info_json\<close> passes to \<^verbatim>\<open>snprintf\<close>
  for device \<open>i\<close>, from the answers of the five queries on its handle.
\<close>

definition nv_record :: "nv_env \<Rightarrow> nat \<Rightarrow> nvmlDevice_t \<Rightarrow> gpu_record" where
  "nv_record E i device =
     (let nm = (case ans_nvmlDeviceGetName E device of (r, n) \<Rightarrow>
                  if r \<noteq> NVML_SUCCESS then ''Unknown GPU'' else n);
          ur = ans_nvmlDeviceGetUtilizationRates E device;
          gpu_util = (if fst ur = NVML_SUCCESS then gpu (snd ur) else 0);
          mem_util = (if fst ur = NVML_SUCCESS then memory (snd ur) else 0);
          mr = ans_nvmlDeviceGetMemoryInfo E device;
          total_mem = (if fst mr = NVML_SUCCESS then mem_total (snd mr) else 0);
          used_mem = (if fst mr = NVML_SUCCESS then mem_used (snd mr) else 0);
          free_mem = (if fst mr = NVML_SUCCESS then mem_free (snd mr) else 0);
          temp = (case ans_nvmlDeviceGetTemperature E device of
                    None \<Rightarrow> (0 :: 32 word) | Some t \<Rightarrow> t);
          power = (case ans_nvmlDeviceGetPowerUsage E device of
                    None \<Rightarrow> (0 :: 32 word) | Some p \<Rightarrow> p)
      in \<lparr>index = int i, name = nm, gpu_utilization = uint gpu_util,
           memory_utilization = uint mem_util, memory_total = uint total_mem,
           memory_used = uint used_mem, memory_free = uint free_mem,
           temperature = of_int (uint temp),
           power_usage = of_int (uint power) / 1000\<rparr>)"

text \<open>
  \<^verbatim>\<open>char gpu_info[512]; snprintf(gpu_info, sizeof(gpu_info), ...)\<close>: the characters of a
  record in the local array, where \<open>nv_snprintf\<close> is the number of characters that the
  format produces for the values of the record.
\<close>

definition nv_chars :: "nv_env \<Rightarrow> gpu_record \<Rightarrow> nat" where
  "nv_chars E r = snprintf 512 (nv_snprintf E r)"

text \<open>
  One turn of the loop: the calls through the function pointers, in the order of the
  source, and the pieces then appended to the buffer. A failed handle lookup is the
  \<^verbatim>\<open>continue\<close>.
\<close>

definition nv_device :: "nv_env \<Rightarrow> nv_state \<Rightarrow> nat \<Rightarrow> os \<Rightarrow> fault + (piece list \<times> os)" where
  "nv_device E s i w0 =
     bindF (call_fptr ''nvmlDeviceGetHandleByIndex'' (nvmlDeviceGetHandleByIndex s) w0) (\<lambda>w1.
       (case ans_nvmlDeviceGetHandleByIndex E i of (result, device) \<Rightarrow>
          if result \<noteq> NVML_SUCCESS then Inr ([], w1)
          else
     bindF (call_fptr ''nvmlDeviceGetName'' (nvmlDeviceGetName s) w1) (\<lambda>w2.
     bindF (call_fptr ''nvmlDeviceGetUtilizationRates'' (nvmlDeviceGetUtilizationRates s) w2) (\<lambda>w3.
     bindF (call_fptr ''nvmlDeviceGetMemoryInfo'' (nvmlDeviceGetMemoryInfo s) w3) (\<lambda>w4.
     bindF (call_fptr ''nvmlDeviceGetTemperature'' (nvmlDeviceGetTemperature s) w4) (\<lambda>w5.
     bindF (call_fptr ''nvmlDeviceGetPowerUsage'' (nvmlDeviceGetPowerUsage s) w5) (\<lambda>w6.
       Inr ((if i > 0 then [Comma] else []) @ [Rec (nv_record E i device)], w6))))))))"

function nv_loop :: "nv_env \<Rightarrow> nv_state \<Rightarrow> nat \<Rightarrow> nat \<Rightarrow> nat \<Rightarrow> piece list \<Rightarrow> os
    \<Rightarrow> fault + (piece list \<times> os)" where
  "nv_loop E s buffer_size i n buf w =
     (if i < n
      then bindF (nv_device E s i w) (\<lambda>(ps, w').
           bindF (strcat_each buffer_size (nv_chars E) buf ps) (\<lambda>buf'.
             nv_loop E s buffer_size (Suc i) n buf' w'))
      else Inr (buf, w))"
  by pat_completeness auto
termination
  by (relation "measure (\<lambda>(E, s, buffer_size, i, n, buf, w). n - i)") auto

declare nv_loop.simps [simp del]

text \<open>
  \<^verbatim>\<open>size_t buffer_size = 1024 + (device_count * 512)\<close>: \<^verbatim>\<open>device_count\<close> is an
  \<^verbatim>\<open>unsigned int\<close>, so the product and the sum are taken in 32 bits and wrap around before
  the conversion to \<^verbatim>\<open>size_t\<close>.
\<close>

definition nv_gpu_get_info_json :: "nv_env \<Rightarrow> nv_state \<Rightarrow> fault + (piece list option \<times> nv_state)" where
  "nv_gpu_get_info_json E s =
     bindF (call_fptr ''nvmlDeviceGetCount'' (nvmlDeviceGetCount s) (nv_os s)) (\<lambda>w.
       (case ans_nvmlDeviceGetCount E of (result, device_count) \<Rightarrow>
          if result \<noteq> NVML_SUCCESS then Inr (None, s\<lparr>nv_os := w\<rparr>)
          else
            (let buffer_size = unat (1024 + device_count * 512)
             in if \<not> nv_malloc_ok E then Inr (None, s\<lparr>nv_os := w\<rparr>)
                else
     bindF (strcat buffer_size (nv_chars E) [] Open) (\<lambda>buf0.
     bindF (nv_loop E s buffer_size 0 (unat device_count) buf0 w) (\<lambda>(buf, w').
     bindF (strcat buffer_size (nv_chars E) buf Close) (\<lambda>json_buffer.
       Inr (Some json_buffer, s\<lparr>nv_os := w'\<rparr>)))))))"

definition nv_gpu_get_usage :: "nv_env \<Rightarrow> nv_state \<Rightarrow> fault + (int \<times> nv_state)" where
  "nv_gpu_get_usage E s =
     bindF (call_fptr ''nvmlDeviceGetHandleByIndex'' (nvmlDeviceGetHandleByIndex s) (nv_os s)) (\<lambda>w1.
       (case ans_nvmlDeviceGetHandleByIndex E 0 of (result, device) \<Rightarrow>
          if result \<noteq> NVML_SUCCESS then Inr (- 1, s\<lparr>nv_os := w1\<rparr>)
          else
            bindF (call_fptr ''nvmlDeviceGetUtilizationRates'' (nvmlDeviceGetUtilizationRates s) w1)
              (\<lambda>w2.
                (case ans_nvmlDeviceGetUtilizationRates E device of (result2, utilization) \<Rightarrow>
                   if result2 \<noteq> NVML_SUCCESS then Inr (- 1, s\<lparr>nv_os := w2\<rparr>)
                   else Inr (sint (gpu utilization), s\<lparr>nv_os := w2\<rparr>)))))"

section \<open>Performance counters: the fallback of the AMD and the Intel monitor\<close>

text \<open>
  \<^verbatim>\<open>amd/gpu_usage.c\<close> and \<^verbatim>\<open>intel/gpu_usage.c\<close> declare the same four counter globals
  and the same functions \<^verbatim>\<open>init_performance_counters\<close>, \<^verbatim>\<open>cleanup_performance_counters\<close>,
  \<^verbatim>\<open>get_gpu_utilization_perf_counter\<close> and \<^verbatim>\<open>get_gpu_memory_perf_counter\<close>; the two copies
  differ in the tables of counter paths only. They are modelled once, over any state record
  that extends \<open>perf_state\<close>, with the two tables as arguments.
\<close>

record perf_state =
  query_handle :: "handle option"
  gpu_util_counter :: "handle option"
  gpu_memory_counter :: "handle option"
  perf_counters_initialized :: bool
  sys :: os

text \<open>
  One reading of the counters: whether \<^verbatim>\<open>PdhCollectQueryData\<close> returned \<^verbatim>\<open>ERROR_SUCCESS\<close>,
  and for each of the two \<^verbatim>\<open>PdhGetFormattedCounterValue\<close> calls whether the status was
  \<^verbatim>\<open>ERROR_SUCCESS\<close>, whether \<^verbatim>\<open>CStatus\<close> was \<^verbatim>\<open>PDH_CSTATUS_VALID_DATA\<close>, and the value.
\<close>

record pdh_sample =
  collect_ok :: bool
  util_status_ok :: bool
  util_cstatus_valid :: bool
  doubleValue :: rat
  mem_status_ok :: bool
  mem_cstatus_valid :: bool
  largeValue :: "64 word"

text \<open>
  The answers of the platform. \<^verbatim>\<open>PdhOpenQueryA\<close> and \<^verbatim>\<open>PdhAddCounterA\<close> store a handle
  when they succeed and leave the variable alone when they fail. The code reads the
  counters once per device and call, so a reading is asked for by device index.
  \<open>ans_DriverDesc\<close> is the string the two registry calls leave in \<^verbatim>\<open>gpu_name\<close>, if
  they store one.
\<close>

record platform =
  ans_LoadLibraryA :: "string \<Rightarrow> handle option"
  ans_GetProcAddress :: "handle \<Rightarrow> string \<Rightarrow> bool"
  ans_malloc :: bool
  ans_PdhOpenQueryA :: "handle option"
  ans_PdhAddCounterA_util :: "string \<Rightarrow> handle option"
  ans_PdhAddCounterA_memory :: "string \<Rightarrow> handle option"
  ans_sample :: "int \<Rightarrow> pdh_sample"
  ans_DriverDesc :: "string option"

text \<open>
  \<^verbatim>\<open>for (...) { status = PdhAddCounterA(query, paths[i], 0, &counter);
  if (status == ERROR_SUCCESS) { ...; break; } }\<close>: the handle stored, if any path registered.
\<close>

fun first_counter :: "(string \<Rightarrow> handle option) \<Rightarrow> string list \<Rightarrow> handle option" where
  "first_counter A [] = None"
| "first_counter A (p # ps) = (case A p of Some c \<Rightarrow> Some c | None \<Rightarrow> first_counter A ps)"

definition PdhCloseQuery :: "handle \<Rightarrow> os \<Rightarrow> fault + os" where
  "PdhCloseQuery q w =
     (if q \<in> set (queries w)
      then Inr ((emit (EvCloseQuery q) w)\<lparr>queries := remove1 q (queries w)\<rparr>)
      else Inl (BadClose q))"

definition init_performance_counters ::
    "string list \<Rightarrow> string list \<Rightarrow> ('e) platform_scheme \<Rightarrow> ('a) perf_state_scheme
      \<Rightarrow> fault + (int \<times> ('a) perf_state_scheme)" where
  "init_performance_counters gpu_counter_paths memory_counter_paths E s =
     (case ans_PdhOpenQueryA E of
        None \<Rightarrow> Inr (- 1, s\<lparr>sys := emit EvOpenQuery (sys s)\<rparr>)
      | Some q \<Rightarrow>
          (let w1 = (emit EvOpenQuery (sys s))\<lparr>queries := q # queries (sys s)\<rparr>;
               s1 = s\<lparr>query_handle := Some q, sys := w1\<rparr>;
               u = first_counter (ans_PdhAddCounterA_util E) gpu_counter_paths;
               found_counter = (u \<noteq> None);
               s2 = (case u of None \<Rightarrow> s1 | Some c \<Rightarrow> s1\<lparr>gpu_util_counter := Some c\<rparr>);
               m = first_counter (ans_PdhAddCounterA_memory E) memory_counter_paths;
               s3 = (case m of None \<Rightarrow> s2 | Some c \<Rightarrow> s2\<lparr>gpu_memory_counter := Some c\<rparr>)
           in if \<not> found_counter
              then bindF (PdhCloseQuery q (sys s3))
                     (\<lambda>w. Inr (- 2, s3\<lparr>query_handle := None, sys := w\<rparr>))
              else Inr (0, s3\<lparr>perf_counters_initialized := True,
                               sys := emit (EvCollect q) (sys s3)\<rparr>)))"

definition cleanup_performance_counters ::
    "('a) perf_state_scheme \<Rightarrow> fault + ('a) perf_state_scheme" where
  "cleanup_performance_counters s =
     bindF (case query_handle s of
              None \<Rightarrow> Inr s
            | Some q \<Rightarrow> bindF (PdhCloseQuery q (sys s))
                         (\<lambda>w. Inr (s\<lparr>query_handle := None, sys := w\<rparr>)))
       (\<lambda>s1. Inr (s1\<lparr>perf_counters_initialized := False\<rparr>))"

text \<open>
  \<^verbatim>\<open>(int)counter_value.doubleValue\<close> and \<^verbatim>\<open>(int)usage.gpuUsagePercent\<close>: the fraction is
  discarded; the behaviour is undefined when the result does not fit an \<^verbatim>\<open>int\<close>.
\<close>

definition float_to_int :: "rat \<Rightarrow> fault + int" where
  "float_to_int x =
     (let t = (if 0 \<le> x then \<lfloor>x\<rfloor> else \<lceil>x\<rceil>)
      in if - (2 ^ 31) \<le> t \<and> t < 2 ^ 31 then Inr t else Inl FloatToInt)"

definition get_gpu_utilization_perf_counter ::
    "pdh_sample \<Rightarrow> ('a) perf_state_scheme \<Rightarrow> fault + (int \<times> ('a) perf_state_scheme)" where
  "get_gpu_utilization_perf_counter smp s =
     (case query_handle s of
        None \<Rightarrow> Inr (- 1, s)
      | Some q \<Rightarrow>
          if \<not> perf_counters_initialized s then Inr (- 1, s)
          else
            (let s1 = s\<lparr>sys := emit (EvCollect q) (sys s)\<rparr>
             in if \<not> collect_ok smp then Inr (- 1, s1)
                else if gpu_util_counter s \<noteq> None \<and> util_status_ok smp \<and> util_cstatus_valid smp
                then bindF (float_to_int (doubleValue smp)) (\<lambda>v. Inr (v, s1))
                else Inr (0, s1)))"

definition get_gpu_memory_perf_counter :: "pdh_sample \<Rightarrow> ('a) perf_state_scheme \<Rightarrow> 64 word" where
  "get_gpu_memory_perf_counter smp s =
     (if \<not> perf_counters_initialized s \<or> query_handle s = None then 0
      else if gpu_memory_counter s \<noteq> None \<and> mem_status_ok smp \<and> mem_cstatus_valid smp
      then largeValue smp
      else 0)"

text \<open>
  \<^verbatim>\<open>(int)((used_mem * 100) / total_mem)\<close>: the product and the quotient are taken in 64
  bits without sign; the conversion to \<^verbatim>\<open>int\<close> keeps the low 32 bits and reads them as
  two's complement, as the Windows compilers define it.
\<close>

definition memory_percent :: "64 word \<Rightarrow> 64 word \<Rightarrow> int" where
  "memory_percent used_mem total_mem =
     (if total_mem > 0 then sint (ucast ((used_mem * 100) div total_mem) :: 32 word) else 0)"

text \<open>The place of a call to a vendor function within one operation.\<close>

datatype site = AtMemoryUsage | AtUtilization | AtTotalMemory | AtInfoJson

section \<open>AMD: \<^verbatim>\<open>amd/gpu_usage.c\<close>\<close>

type_synonym AGSReturnCode = int

definition AGS_SUCCESS :: AGSReturnCode where
  "AGS_SUCCESS = 0"

text \<open>Of \<^verbatim>\<open>AGSDeviceInfo\<close> and \<^verbatim>\<open>AGSGPUUsage\<close>, the fields the code reads.\<close>

record AGSDeviceInfo =
  adapterString :: string
  localMemoryInBytes :: "64 word"

record AGSGPUUsage =
  gpuUsagePercent :: rat
  memoryUsedInBytes :: "64 word"
  temperatureInC :: rat
  powerUsageInWatts :: rat

record AGSGPUInfo =
  numDevices :: int
  devices :: "AGSDeviceInfo list"

record amd_state = perf_state +
  ags_lib :: "handle option"
  agsInitialize :: fptr
  agsDeInitialize :: fptr
  agsGetGPUMemoryUsage :: fptr
  agsGetVersionNumber :: fptr
  ags_context :: "nat option"
  gpu_info :: AGSGPUInfo
  ags_initialized :: bool

text \<open>
  \<open>ans_agsInitialize\<close> is the return code with the values left in \<^verbatim>\<open>ags_context\<close> and
  \<^verbatim>\<open>gpu_info\<close>; \<open>ans_agsGetGPUMemoryUsage\<close> answers each of the three calls that
  \<^verbatim>\<open>gpu_get_info_json\<close> makes per device.
\<close>

record amd_env = platform +
  ans_agsInitialize :: "AGSReturnCode \<times> nat option \<times> AGSGPUInfo"
  ans_agsGetGPUMemoryUsage :: "site \<Rightarrow> int \<Rightarrow> AGSReturnCode \<times> AGSGPUUsage"
  ans_snprintf :: "gpu_record \<Rightarrow> nat"

definition amd_initial :: "os \<Rightarrow> amd_state" where
  "amd_initial w = \<lparr>query_handle = None, gpu_util_counter = None, gpu_memory_counter = None,
     perf_counters_initialized = False, sys = w,
     ags_lib = None, agsInitialize = NullFn, agsDeInitialize = NullFn,
     agsGetGPUMemoryUsage = NullFn, agsGetVersionNumber = NullFn, ags_context = None,
     gpu_info = \<lparr>numDevices = 0, devices = []\<rparr>, ags_initialized = False\<rparr>"

definition ags_paths :: "string list" where
  "ags_paths =
     [path [''C:'', ''Program Files'', ''AMD'', ''ags_lib'', ''lib'', ''amd_ags_x64.dll''],
      path [''C:'', ''Program Files (x86)'', ''AMD'', ''ags_lib'', ''lib'', ''amd_ags_x86.dll''],
      path [''C:'', ''Windows'', ''System32'', ''amd_ags_x64.dll''],
      path [''C:'', ''Windows'', ''SysWOW64'', ''amd_ags_x86.dll''],
      ''amd_ags_x64.dll'',
      ''amd_ags_x86.dll'']"

definition amd_gpu_counter_paths :: "string list" where
  "amd_gpu_counter_paths =
     [path ['''', ''GPU Engine(*)'', ''Utilization Percentage''],
      path ['''', ''AMD Graphics'', ''GPU Utilization''],
      path ['''', ''GPU Process Memory(*)'', ''Dedicated Usage''],
      path ['''', ''GPU Engine(engtype_3D)'', ''Utilization Percentage'']]"

definition amd_memory_counter_paths :: "string list" where
  "amd_memory_counter_paths =
     [path ['''', ''GPU Process Memory(*)'', ''Dedicated Usage''],
      path ['''', ''GPU Process Memory(*)'', ''Shared Usage''],
      path ['''', ''AMD Graphics'', ''Memory Usage'']]"

definition load_ags :: "amd_env \<Rightarrow> amd_state \<Rightarrow> fault + (int \<times> amd_state)" where
  "load_ags E s =
     (case try_load (ans_LoadLibraryA E) ags_paths (sys s) of
        (None, w) \<Rightarrow> Inr (- 1, s\<lparr>sys := w, ags_lib := None\<rparr>)
      | (Some h, w) \<Rightarrow>
          (let G = ans_GetProcAddress E;
               s1 = s\<lparr>sys := w, ags_lib := Some h,
                 agsInitialize := GetProcAddress G h ''agsInitialize'',
                 agsDeInitialize := GetProcAddress G h ''agsDeInitialize'',
                 agsGetGPUMemoryUsage := GetProcAddress G h ''agsGetGPUMemoryUsage'',
                 agsGetVersionNumber := GetProcAddress G h ''agsGetVersionNumber''\<rparr>
           in if agsInitialize s1 = NullFn \<or> agsDeInitialize s1 = NullFn
              then bindF (FreeLibrary h w) (\<lambda>w'. Inr (- 2, s1\<lparr>sys := w', ags_lib := None\<rparr>))
              else Inr (0, s1)))"

definition unload_ags :: "amd_state \<Rightarrow> fault + amd_state" where
  "unload_ags s =
     bindF (if ags_initialized s \<and> ags_context s \<noteq> None \<and> agsDeInitialize s \<noteq> NullFn
            then bindF (call_fptr ''agsDeInitialize'' (agsDeInitialize s) (sys s))
                   (\<lambda>w. Inr (s\<lparr>sys := w, ags_context := None, ags_initialized := False\<rparr>))
            else Inr s)
       (\<lambda>s1. case ags_lib s1 of
                None \<Rightarrow> Inr s1
              | Some h \<Rightarrow> bindF (FreeLibrary h (sys s1))
                           (\<lambda>w. Inr (s1\<lparr>sys := w, ags_lib := None\<rparr>)))"

definition amd_gpu_init :: "amd_env \<Rightarrow> amd_state \<Rightarrow> fault + (int \<times> amd_state)" where
  "amd_gpu_init E s =
     bindF (load_ags E s) (\<lambda>(rc, s1).
       bindF (if rc = 0 \<and> agsInitialize s1 \<noteq> NullFn
              then bindF (call_fptr ''agsInitialize'' (agsInitialize s1) (sys s1)) (\<lambda>w.
                     (case ans_agsInitialize E of (code, ctx, info) \<Rightarrow>
                        Inr (code = AGS_SUCCESS,
                             s1\<lparr>sys := w, ags_context := ctx, gpu_info := info\<rparr>)))
              else Inr (False, s1))
         (\<lambda>(ok, s2).
            if ok then Inr (0, s2\<lparr>ags_initialized := True\<rparr>)
            else bindF (init_performance_counters amd_gpu_counter_paths
                          amd_memory_counter_paths E s2)
                   (\<lambda>(rc2, s3). if rc2 = 0 then Inr (0, s3) else Inr (- 1, s3))))"

definition amd_gpu_shutdown :: "amd_state \<Rightarrow> fault + amd_state" where
  "amd_gpu_shutdown s = bindF (unload_ags s) cleanup_performance_counters"

definition amd_gpu_get_count :: "amd_state \<Rightarrow> int" where
  "amd_gpu_get_count s = (if ags_initialized s then numDevices (gpu_info s) else 1)"

definition amd_get_gpu_utilization ::
    "amd_env \<Rightarrow> int \<Rightarrow> amd_state \<Rightarrow> fault + (int \<times> amd_state)" where
  "amd_get_gpu_utilization E device_index s =
     (if ags_initialized s \<and> agsGetGPUMemoryUsage s \<noteq> NullFn
      then bindF (call_fptr ''agsGetGPUMemoryUsage'' (agsGetGPUMemoryUsage s) (sys s)) (\<lambda>w.
             (case ans_agsGetGPUMemoryUsage E AtUtilization device_index of (code, usage) \<Rightarrow>
                if code = AGS_SUCCESS
                then bindF (float_to_int (gpuUsagePercent usage)) (\<lambda>v. Inr (v, s\<lparr>sys := w\<rparr>))
                else get_gpu_utilization_perf_counter (ans_sample E device_index)
                       (s\<lparr>sys := w\<rparr>)))
      else get_gpu_utilization_perf_counter (ans_sample E device_index) s)"

definition amd_get_gpu_memory_usage ::
    "amd_env \<Rightarrow> int \<Rightarrow> amd_state \<Rightarrow> fault + (64 word \<times> amd_state)" where
  "amd_get_gpu_memory_usage E device_index s =
     (if ags_initialized s \<and> agsGetGPUMemoryUsage s \<noteq> NullFn
      then bindF (call_fptr ''agsGetGPUMemoryUsage'' (agsGetGPUMemoryUsage s) (sys s)) (\<lambda>w.
             (case ans_agsGetGPUMemoryUsage E AtMemoryUsage device_index of (code, usage) \<Rightarrow>
                if code = AGS_SUCCESS then Inr (memoryUsedInBytes usage, s\<lparr>sys := w\<rparr>)
                else Inr (get_gpu_memory_perf_counter (ans_sample E device_index) s,
                          s\<lparr>sys := w\<rparr>)))
      else Inr (get_gpu_memory_perf_counter (ans_sample E device_index) s, s))"

text \<open>
  The details of device \<open>i\<close> in the loop of \<^verbatim>\<open>gpu_get_info_json\<close>: name, total memory,
  temperature and power. \<^verbatim>\<open>strncpy(gpu_name, ..., sizeof(gpu_name) - 1)\<close> keeps 255
  characters.
\<close>

definition amd_details ::
    "amd_env \<Rightarrow> int \<Rightarrow> amd_state \<Rightarrow> fault + ((string \<times> 64 word \<times> rat \<times> rat) \<times> amd_state)" where
  "amd_details E i s =
     (if ags_initialized s \<and> i < numDevices (gpu_info s)
      then if i < 0 \<or> int (length (devices (gpu_info s))) \<le> i then Inl (OutOfBounds i)
           else
             (let d = devices (gpu_info s) ! nat i;
                  gpu_name = take 255 (adapterString d);
                  total_mem = localMemoryInBytes d
              in if agsGetGPUMemoryUsage s \<noteq> NullFn
                 then bindF (call_fptr ''agsGetGPUMemoryUsage'' (agsGetGPUMemoryUsage s) (sys s))
                        (\<lambda>w. (case ans_agsGetGPUMemoryUsage E AtInfoJson i of (code, usage) \<Rightarrow>
                           if code = AGS_SUCCESS
                           then Inr ((gpu_name, total_mem, temperatureInC usage,
                                      powerUsageInWatts usage), s\<lparr>sys := w\<rparr>)
                           else Inr ((gpu_name, total_mem, 0, 0), s\<lparr>sys := w\<rparr>)))
                 else Inr ((gpu_name, total_mem, 0, 0), s))
      else Inr (((case ans_DriverDesc E of None \<Rightarrow> ''AMD Graphics Card'' | Some n \<Rightarrow> n),
                 8 * 1024 * 1024 * 1024, 0, 0), s))"

text \<open>The values passed to \<^verbatim>\<open>snprintf\<close> for device \<open>i\<close>.\<close>

definition amd_record :: "int \<Rightarrow> string \<Rightarrow> int \<Rightarrow> 64 word \<Rightarrow> 64 word \<Rightarrow> rat \<Rightarrow> rat \<Rightarrow> gpu_record" where
  "amd_record i gpu_name gpu_util used_mem total_mem temp watts =
     (let free_mem = (if total_mem > used_mem then total_mem - used_mem else 0)
      in \<lparr>index = i, name = gpu_name,
           gpu_utilization = (if gpu_util \<ge> 0 then gpu_util else 0),
           memory_utilization = memory_percent used_mem total_mem,
           memory_total = uint total_mem, memory_used = uint used_mem,
           memory_free = uint free_mem, temperature = temp, power_usage = watts\<rparr>)"

text \<open>
  \<^verbatim>\<open>char gpu_info_str[1024]; snprintf(gpu_info_str, sizeof(gpu_info_str), ...)\<close>: the
  characters of a record in the local array, where \<open>ans_snprintf\<close> is the number of
  characters that the format produces for the values of the record.
\<close>

definition amd_chars :: "amd_env \<Rightarrow> gpu_record \<Rightarrow> nat" where
  "amd_chars E r = snprintf 1024 (ans_snprintf E r)"

text \<open>
  One turn of the loop: the three queries in the order of the source, and the pieces then
  appended to the buffer.
\<close>

definition amd_device :: "amd_env \<Rightarrow> int \<Rightarrow> amd_state \<Rightarrow> fault + (piece list \<times> amd_state)" where
  "amd_device E i s =
     bindF (amd_get_gpu_memory_usage E i s) (\<lambda>(used_mem, s1).
     bindF (amd_get_gpu_utilization E i s1) (\<lambda>(gpu_util, s2).
     bindF (amd_details E i s2) (\<lambda>((gpu_name, total_mem, temp, watts), s3).
       Inr ((if i > 0 then [Comma] else [])
              @ [Rec (amd_record i gpu_name gpu_util used_mem total_mem temp watts)], s3))))"

function amd_loop :: "amd_env \<Rightarrow> nat \<Rightarrow> int \<Rightarrow> int \<Rightarrow> piece list \<Rightarrow> amd_state
    \<Rightarrow> fault + (piece list \<times> amd_state)" where
  "amd_loop E buffer_size i n buf s =
     (if i < n
      then bindF (amd_device E i s) (\<lambda>(ps, s').
           bindF (strcat_each buffer_size (amd_chars E) buf ps) (\<lambda>buf'.
             amd_loop E buffer_size (i + 1) n buf' s'))
      else Inr (buf, s))"
  by pat_completeness auto
termination
  by (relation "measure (\<lambda>(E, buffer_size, i, n, buf, s). nat (n - i))") auto

declare amd_loop.simps [simp del]

text \<open>
  \<^verbatim>\<open>size_t buffer_size = 1024 + (device_count * 1024)\<close>: \<^verbatim>\<open>device_count\<close> is an
  \<^verbatim>\<open>int\<close>, so the product and the sum are taken in \<^verbatim>\<open>int\<close> before the conversion to
  \<^verbatim>\<open>size_t\<close>.
\<close>

definition amd_gpu_get_info_json ::
    "amd_env \<Rightarrow> amd_state \<Rightarrow> fault + (piece list option \<times> amd_state)" where
  "amd_gpu_get_info_json E s =
     (let device_count = amd_gpu_get_count s
      in if device_count \<le> 0 then Inr (None, s)
         else
     bindF (int_result (device_count * 1024)) (\<lambda>product.
     bindF (int_result (1024 + product)) (\<lambda>buffer_size.
       if \<not> ans_malloc E then Inr (None, s)
       else
     bindF (strcat (nat buffer_size) (amd_chars E) [] Open) (\<lambda>buf0.
     bindF (amd_loop E (nat buffer_size) 0 device_count buf0 s) (\<lambda>(buf, s').
     bindF (strcat (nat buffer_size) (amd_chars E) buf Close) (\<lambda>json_buffer.
       Inr (Some json_buffer, s')))))))"

definition amd_gpu_get_usage :: "amd_env \<Rightarrow> amd_state \<Rightarrow> fault + (int \<times> amd_state)" where
  "amd_gpu_get_usage E s = amd_get_gpu_utilization E 0 s"


section \<open>Intel: \<^verbatim>\<open>intel/gpu_usage.c\<close>\<close>

type_synonym igcl_result_t = nat

definition IGCL_SUCCESS :: igcl_result_t where
  "IGCL_SUCCESS = 0"

text \<open>
  Of \<^verbatim>\<open>igcl_device_info_t\<close> and \<^verbatim>\<open>igcl_device_stats_t\<close>, the fields the code reads; the
  fields of the statistics carry the prefix \<open>stats_\<close> because the record of the document
  has fields of the same names.
\<close>

record igcl_device_info_t =
  device_name :: string
  total_memory :: "64 word"

record igcl_device_stats_t =
  stats_gpu_utilization :: "32 word"
  stats_memory_used :: "64 word"
  stats_temperature :: "32 word"
  stats_power_usage :: "32 word"

record intel_state = perf_state +
  igcl_lib :: "handle option"
  igcl_init :: fptr
  igcl_shutdown :: fptr
  igcl_get_device_count :: fptr
  igcl_get_device_info :: fptr
  igcl_get_device_stats :: fptr
  igcl_initialized :: bool

text \<open>
  \<open>ans_ullTotalPhys\<close> is the physical memory that \<^verbatim>\<open>GlobalMemoryStatusEx\<close> reports.
\<close>

record intel_env = platform +
  ans_igcl_init :: igcl_result_t
  ans_igcl_get_device_count :: "igcl_result_t \<times> 32 word"
  ans_igcl_get_device_info :: "site \<Rightarrow> igcl_result_t \<times> igcl_device_info_t"
  ans_igcl_get_device_stats :: "site \<Rightarrow> igcl_result_t \<times> igcl_device_stats_t"
  ans_ullTotalPhys :: "64 word"

definition intel_initial :: "os \<Rightarrow> intel_state" where
  "intel_initial w = \<lparr>query_handle = None, gpu_util_counter = None, gpu_memory_counter = None,
     perf_counters_initialized = False, sys = w,
     igcl_lib = None, igcl_init = NullFn, igcl_shutdown = NullFn,
     igcl_get_device_count = NullFn, igcl_get_device_info = NullFn,
     igcl_get_device_stats = NullFn, igcl_initialized = False\<rparr>"

definition igcl_paths :: "string list" where
  "igcl_paths =
     [path [''C:'', ''Windows'', ''System32'', ''igcl64.dll''],
      path [''C:'', ''Windows'', ''SysWOW64'', ''igcl32.dll''],
      path [''C:'', ''Program Files'', ''Intel'', ''Intel(R) Graphics'', ''igcl64.dll''],
      path [''C:'', ''Program Files (x86)'', ''Intel'', ''Intel(R) Graphics'', ''igcl32.dll''],
      ''igcl64.dll'',
      ''igcl32.dll'']"

definition intel_gpu_counter_paths :: "string list" where
  "intel_gpu_counter_paths =
     [path ['''', ''GPU Engine(*)'', ''Utilization Percentage''],
      path ['''', ''Intel(R) Graphics'', ''GPU Utilization''],
      path ['''', ''GPU Process Memory(*)'', ''Shared Usage''],
      path ['''', ''GPU Engine(engtype_3D)'', ''Utilization Percentage'']]"

definition intel_memory_counter_paths :: "string list" where
  "intel_memory_counter_paths =
     [path ['''', ''GPU Process Memory(*)'', ''Dedicated Usage''],
      path ['''', ''GPU Process Memory(*)'', ''Shared Usage''],
      path ['''', ''Intel(R) Graphics'', ''Memory Usage'']]"

definition load_igcl :: "intel_env \<Rightarrow> intel_state \<Rightarrow> fault + (int \<times> intel_state)" where
  "load_igcl E s =
     (case try_load (ans_LoadLibraryA E) igcl_paths (sys s) of
        (None, w) \<Rightarrow> Inr (- 1, s\<lparr>sys := w, igcl_lib := None\<rparr>)
      | (Some h, w) \<Rightarrow>
          (let G = ans_GetProcAddress E;
               s1 = s\<lparr>sys := w, igcl_lib := Some h,
                 igcl_init := GetProcAddress G h ''igcl_init'',
                 igcl_shutdown := GetProcAddress G h ''igcl_shutdown'',
                 igcl_get_device_count := GetProcAddress G h ''igcl_get_device_count'',
                 igcl_get_device_info := GetProcAddress G h ''igcl_get_device_info'',
                 igcl_get_device_stats := GetProcAddress G h ''igcl_get_device_stats''\<rparr>
           in if igcl_init s1 = NullFn \<or> igcl_shutdown s1 = NullFn
                 \<or> igcl_get_device_count s1 = NullFn \<or> igcl_get_device_info s1 = NullFn
                 \<or> igcl_get_device_stats s1 = NullFn
              then bindF (FreeLibrary h w) (\<lambda>w'. Inr (- 2, s1\<lparr>sys := w', igcl_lib := None\<rparr>))
              else Inr (0, s1)))"

definition unload_igcl :: "intel_state \<Rightarrow> fault + intel_state" where
  "unload_igcl s =
     bindF (if igcl_initialized s \<and> igcl_shutdown s \<noteq> NullFn
            then bindF (call_fptr ''igcl_shutdown'' (igcl_shutdown s) (sys s))
                   (\<lambda>w. Inr (s\<lparr>sys := w, igcl_initialized := False\<rparr>))
            else Inr s)
       (\<lambda>s1. case igcl_lib s1 of
                None \<Rightarrow> Inr s1
              | Some h \<Rightarrow> bindF (FreeLibrary h (sys s1))
                           (\<lambda>w. Inr (s1\<lparr>sys := w, igcl_lib := None\<rparr>)))"

definition intel_gpu_init :: "intel_env \<Rightarrow> intel_state \<Rightarrow> fault + (int \<times> intel_state)" where
  "intel_gpu_init E s =
     bindF (load_igcl E s) (\<lambda>(rc, s1).
       bindF (if rc = 0 \<and> igcl_init s1 \<noteq> NullFn
              then bindF (call_fptr ''igcl_init'' (igcl_init s1) (sys s1)) (\<lambda>w.
                     Inr (ans_igcl_init E = IGCL_SUCCESS, s1\<lparr>sys := w\<rparr>))
              else Inr (False, s1))
         (\<lambda>(ok, s2).
            if ok then Inr (0, s2\<lparr>igcl_initialized := True\<rparr>)
            else bindF (init_performance_counters intel_gpu_counter_paths
                          intel_memory_counter_paths E s2)
                   (\<lambda>(rc2, s3). if rc2 = 0 then Inr (0, s3) else Inr (- 1, s3))))"

definition intel_gpu_shutdown :: "intel_state \<Rightarrow> fault + intel_state" where
  "intel_gpu_shutdown s = bindF (unload_igcl s) cleanup_performance_counters"

definition intel_gpu_get_count :: "intel_env \<Rightarrow> intel_state \<Rightarrow> fault + (int \<times> intel_state)" where
  "intel_gpu_get_count E s =
     (if igcl_initialized s \<and> igcl_get_device_count s \<noteq> NullFn
      then bindF (call_fptr ''igcl_get_device_count'' (igcl_get_device_count s) (sys s)) (\<lambda>w.
             (case ans_igcl_get_device_count E of (code, count) \<Rightarrow>
                if code = IGCL_SUCCESS then Inr (sint count, s\<lparr>sys := w\<rparr>)
                else Inr (1, s\<lparr>sys := w\<rparr>)))
      else Inr (1, s))"

definition intel_get_gpu_utilization ::
    "intel_env \<Rightarrow> intel_state \<Rightarrow> fault + (int \<times> intel_state)" where
  "intel_get_gpu_utilization E s =
     (if igcl_initialized s \<and> igcl_get_device_stats s \<noteq> NullFn
      then bindF (call_fptr ''igcl_get_device_stats'' (igcl_get_device_stats s) (sys s)) (\<lambda>w.
             (case ans_igcl_get_device_stats E AtUtilization of (code, stats) \<Rightarrow>
                if code = IGCL_SUCCESS
                then Inr (sint (stats_gpu_utilization stats), s\<lparr>sys := w\<rparr>)
                else get_gpu_utilization_perf_counter (ans_sample E 0) (s\<lparr>sys := w\<rparr>)))
      else get_gpu_utilization_perf_counter (ans_sample E 0) s)"

definition intel_get_gpu_memory_usage ::
    "intel_env \<Rightarrow> intel_state \<Rightarrow> fault + (64 word \<times> intel_state)" where
  "intel_get_gpu_memory_usage E s =
     (if igcl_initialized s \<and> igcl_get_device_stats s \<noteq> NullFn
      then bindF (call_fptr ''igcl_get_device_stats'' (igcl_get_device_stats s) (sys s)) (\<lambda>w.
             (case ans_igcl_get_device_stats E AtMemoryUsage of (code, stats) \<Rightarrow>
                if code = IGCL_SUCCESS then Inr (stats_memory_used stats, s\<lparr>sys := w\<rparr>)
                else Inr (get_gpu_memory_perf_counter (ans_sample E 0) s, s\<lparr>sys := w\<rparr>)))
      else Inr (get_gpu_memory_perf_counter (ans_sample E 0) s, s))"

definition intel_get_gpu_total_memory ::
    "intel_env \<Rightarrow> intel_state \<Rightarrow> fault + (64 word \<times> intel_state)" where
  "intel_get_gpu_total_memory E s =
     (if igcl_initialized s \<and> igcl_get_device_info s \<noteq> NullFn
      then bindF (call_fptr ''igcl_get_device_info'' (igcl_get_device_info s) (sys s)) (\<lambda>w.
             (case ans_igcl_get_device_info E AtTotalMemory of (code, info) \<Rightarrow>
                if code = IGCL_SUCCESS then Inr (total_memory info, s\<lparr>sys := w\<rparr>)
                else Inr (ans_ullTotalPhys E div 8, s\<lparr>sys := w\<rparr>)))
      else Inr (ans_ullTotalPhys E div 8, s))"

text \<open>The name written into \<^verbatim>\<open>gpu_name\<close> by \<^verbatim>\<open>gpu_get_info_json\<close>.\<close>

definition intel_name :: "intel_env \<Rightarrow> intel_state \<Rightarrow> fault + (string \<times> intel_state)" where
  "intel_name E s =
     (if igcl_initialized s \<and> igcl_get_device_info s \<noteq> NullFn
      then bindF (call_fptr ''igcl_get_device_info'' (igcl_get_device_info s) (sys s)) (\<lambda>w.
             (case ans_igcl_get_device_info E AtInfoJson of (code, info) \<Rightarrow>
                if code = IGCL_SUCCESS then Inr (take 255 (device_name info), s\<lparr>sys := w\<rparr>)
                else Inr (''Intel Integrated Graphics'', s\<lparr>sys := w\<rparr>)))
      else Inr ((case ans_DriverDesc E of None \<Rightarrow> ''Intel Integrated Graphics'' | Some n \<Rightarrow> n),
                s))"

text \<open>Temperature and power (\<^verbatim>\<open>stats.power_usage / 1000.0f\<close>) in \<^verbatim>\<open>gpu_get_info_json\<close>.\<close>

definition intel_extra ::
    "intel_env \<Rightarrow> intel_state \<Rightarrow> fault + ((32 word \<times> rat) \<times> intel_state)" where
  "intel_extra E s =
     (if igcl_initialized s \<and> igcl_get_device_stats s \<noteq> NullFn
      then bindF (call_fptr ''igcl_get_device_stats'' (igcl_get_device_stats s) (sys s)) (\<lambda>w.
             (case ans_igcl_get_device_stats E AtInfoJson of (code, stats) \<Rightarrow>
                if code = IGCL_SUCCESS
                then Inr ((stats_temperature stats,
                           of_int (uint (stats_power_usage stats)) / 1000), s\<lparr>sys := w\<rparr>)
                else Inr ((0, 0), s\<lparr>sys := w\<rparr>)))
      else Inr ((0, 0), s))"

definition intel_record :: "string \<Rightarrow> int \<Rightarrow> 64 word \<Rightarrow> 64 word \<Rightarrow> 32 word \<Rightarrow> rat \<Rightarrow> gpu_record" where
  "intel_record gpu_name gpu_util used_mem total_mem temp watts =
     (let free_mem = total_mem - used_mem
      in \<lparr>index = 0, name = gpu_name,
           gpu_utilization = (if gpu_util \<ge> 0 then gpu_util else 0),
           memory_utilization = memory_percent used_mem total_mem,
           memory_total = uint total_mem, memory_used = uint used_mem,
           memory_free = uint free_mem, temperature = of_int (uint temp),
           power_usage = watts\<rparr>)"

definition intel_gpu_get_info_json ::
    "intel_env \<Rightarrow> intel_state \<Rightarrow> fault + (piece list option \<times> intel_state)" where
  "intel_gpu_get_info_json E s =
     (if \<not> ans_malloc E then Inr (None, s)
      else
        bindF (intel_get_gpu_utilization E s) (\<lambda>(gpu_util, s1).
        bindF (intel_get_gpu_memory_usage E s1) (\<lambda>(used_mem, s2).
        bindF (intel_get_gpu_total_memory E s2) (\<lambda>(total_mem, s3).
        bindF (intel_name E s3) (\<lambda>(gpu_name, s4).
        bindF (intel_extra E s4) (\<lambda>((temp, watts), s5).
          Inr (Some [Open, Rec (intel_record gpu_name gpu_util used_mem total_mem temp watts),
                     Close], s5)))))))"

definition intel_gpu_get_usage :: "intel_env \<Rightarrow> intel_state \<Rightarrow> fault + (int \<times> intel_state)" where
  "intel_gpu_get_usage E s = intel_get_gpu_utilization E s"


section \<open>Vocabulary of the properties\<close>

text \<open>An operation faults when C gives its execution no meaning.\<close>

definition faults :: "fault + 'a \<Rightarrow> bool" where
  "faults x = (case x of Inl f \<Rightarrow> True | Inr y \<Rightarrow> False)"

text \<open>The value an operation returned, and the state it left (\<open>d\<close> if it faulted).\<close>

definition returned :: "fault + ('a \<times> 's) \<Rightarrow> 'a option" where
  "returned x = (case x of Inl f \<Rightarrow> None | Inr (v, s) \<Rightarrow> Some v)"

definition state_after :: "'s \<Rightarrow> fault + ('a \<times> 's) \<Rightarrow> 's" where
  "state_after d x = (case x of Inl f \<Rightarrow> d | Inr (v, s) \<Rightarrow> s)"

text \<open>The records of the document an operation returned (none if it returned no document).\<close>

definition document :: "fault + (piece list option \<times> 's) \<Rightarrow> piece list option" where
  "document x = (case x of Inl f \<Rightarrow> None | Inr (d, s) \<Rightarrow> d)"

definition records_of :: "fault + (piece list option \<times> 's) \<Rightarrow> gpu_record list" where
  "records_of x = (case document x of None \<Rightarrow> [] | Some d \<Rightarrow> records d)"

text \<open>A process in which no module is loaded and no counter query is open.\<close>

definition fresh_os :: os where
  "fresh_os = \<lparr>modules = [], queries = [], trace = []\<rparr>"

text \<open>A state that differs from \<open>s\<close> in the recorded calls only.\<close>

definition with_trace :: "event list \<Rightarrow> ('a) perf_state_scheme \<Rightarrow> ('a) perf_state_scheme" where
  "with_trace evs s = s\<lparr>sys := (sys s)\<lparr>trace := trace (sys s) @ evs\<rparr>\<rparr>"

subsection \<open>The symbols each prober requires\<close>

definition nv_required :: "(handle \<Rightarrow> string \<Rightarrow> bool) \<Rightarrow> handle \<Rightarrow> bool" where
  "nv_required G h =
     ((G h ''nvmlInit_v2'' \<or> G h ''nvmlInit'') \<and> G h ''nvmlShutdown''
      \<and> (G h ''nvmlDeviceGetCount_v2'' \<or> G h ''nvmlDeviceGetCount'')
      \<and> (G h ''nvmlDeviceGetHandleByIndex_v2'' \<or> G h ''nvmlDeviceGetHandleByIndex'')
      \<and> G h ''nvmlDeviceGetName'' \<and> G h ''nvmlDeviceGetUtilizationRates''
      \<and> G h ''nvmlDeviceGetMemoryInfo'')"

definition ags_required :: "(handle \<Rightarrow> string \<Rightarrow> bool) \<Rightarrow> handle \<Rightarrow> bool" where
  "ags_required G h = (G h ''agsInitialize'' \<and> G h ''agsDeInitialize'')"

definition igcl_required :: "(handle \<Rightarrow> string \<Rightarrow> bool) \<Rightarrow> handle \<Rightarrow> bool" where
  "igcl_required G h =
     (G h ''igcl_init'' \<and> G h ''igcl_shutdown'' \<and> G h ''igcl_get_device_count''
      \<and> G h ''igcl_get_device_info'' \<and> G h ''igcl_get_device_stats'')"

subsection \<open>Held and released resources\<close>

text \<open>
  A state is live when the handles it holds are held by the process and the function that
  shutdown would call lies in a loaded module; it is released when it holds nothing.
\<close>

definition callable :: "fptr \<Rightarrow> os \<Rightarrow> bool" where
  "callable p w = (case p of NullFn \<Rightarrow> False | Fn h \<Rightarrow> h \<in> set (modules w))"

definition held :: "handle option \<Rightarrow> handle list \<Rightarrow> bool" where
  "held x hs = (case x of None \<Rightarrow> True | Some h \<Rightarrow> h \<in> set hs)"

definition release :: "handle option \<Rightarrow> handle list \<Rightarrow> handle list" where
  "release x hs = (case x of None \<Rightarrow> hs | Some h \<Rightarrow> remove1 h hs)"

definition nv_live :: "nv_state \<Rightarrow> bool" where
  "nv_live s =
     (held (nvml_lib s) (modules (nv_os s))
      \<and> (nvml_lib s = None \<or> nvmlShutdown s = NullFn \<or> callable (nvmlShutdown s) (nv_os s)))"

definition nv_released :: "nv_state \<Rightarrow> bool" where
  "nv_released s = (nvml_lib s = None)"

definition amd_live :: "amd_state \<Rightarrow> bool" where
  "amd_live s =
     (held (ags_lib s) (modules (sys s)) \<and> held (query_handle s) (queries (sys s))
      \<and> (\<not> ags_initialized s \<or> ags_context s = None \<or> callable (agsDeInitialize s) (sys s)))"

definition amd_released :: "amd_state \<Rightarrow> bool" where
  "amd_released s =
     (ags_lib s = None \<and> query_handle s = None \<and> \<not> perf_counters_initialized s
      \<and> (\<not> ags_initialized s \<or> ags_context s = None))"

definition intel_live :: "intel_state \<Rightarrow> bool" where
  "intel_live s =
     (held (igcl_lib s) (modules (sys s)) \<and> held (query_handle s) (queries (sys s))
      \<and> (\<not> igcl_initialized s \<or> callable (igcl_shutdown s) (sys s)))"

definition intel_released :: "intel_state \<Rightarrow> bool" where
  "intel_released s =
     (igcl_lib s = None \<and> query_handle s = None \<and> \<not> perf_counters_initialized s
      \<and> \<not> igcl_initialized s)"

subsection \<open>Sessions of queries\<close>

text \<open>
  The backend a state has selected, and a session: any sequence of the three query
  operations, each with the answers the platform gives during it.
\<close>

datatype backend = NoneSelected | VendorBackend | FallbackCounters

datatype query = GetCount | GetInfoJson | GetUsage

definition amd_backend :: "amd_state \<Rightarrow> backend" where
  "amd_backend s =
     (if ags_initialized s then VendorBackend
      else if perf_counters_initialized s then FallbackCounters else NoneSelected)"

definition intel_backend :: "intel_state \<Rightarrow> backend" where
  "intel_backend s =
     (if igcl_initialized s then VendorBackend
      else if perf_counters_initialized s then FallbackCounters else NoneSelected)"

definition amd_query :: "amd_env \<Rightarrow> query \<Rightarrow> amd_state \<Rightarrow> fault + amd_state" where
  "amd_query E q s =
     (case q of
        GetCount \<Rightarrow> Inr s
      | GetInfoJson \<Rightarrow> bindF (amd_gpu_get_info_json E s) (\<lambda>(d, s'). Inr s')
      | GetUsage \<Rightarrow> bindF (amd_gpu_get_usage E s) (\<lambda>(v, s'). Inr s'))"

fun amd_session :: "(amd_env \<times> query) list \<Rightarrow> amd_state \<Rightarrow> fault + amd_state" where
  "amd_session [] s = Inr s"
| "amd_session ((E, q) # qs) s = bindF (amd_query E q s) (amd_session qs)"

definition intel_query :: "intel_env \<Rightarrow> query \<Rightarrow> intel_state \<Rightarrow> fault + intel_state" where
  "intel_query E q s =
     (case q of
        GetCount \<Rightarrow> bindF (intel_gpu_get_count E s) (\<lambda>(v, s'). Inr s')
      | GetInfoJson \<Rightarrow> bindF (intel_gpu_get_info_json E s) (\<lambda>(d, s'). Inr s')
      | GetUsage \<Rightarrow> bindF (intel_gpu_get_usage E s) (\<lambda>(v, s'). Inr s'))"

fun intel_session :: "(intel_env \<times> query) list \<Rightarrow> intel_state \<Rightarrow> fault + intel_state" where
  "intel_session [] s = Inr s"
| "intel_session ((E, q) # qs) s = bindF (intel_query E q s) (intel_session qs)"

text \<open>The calls a query makes on the counter fallback: readings of the counters.\<close>

fun is_collect :: "event \<Rightarrow> bool" where
  "is_collect (EvCollect q) = True"
| "is_collect e = False"

text \<open>The calls a query may make: calls into the vendor library and counter readings.\<close>

fun is_query_event :: "event \<Rightarrow> bool" where
  "is_query_event (EvCall nm) = True"
| "is_query_event (EvCollect q) = True"
| "is_query_event e = False"

text \<open>
  State \<open>s'\<close> is \<open>s\<close> after some calls of queries: nothing changed but the record of
  calls, which grew by calls into the vendor library and counter readings, and by counter
  readings only when the vendor backend is not in use.
\<close>

definition only_calls ::
    "bool \<Rightarrow> ('a) perf_state_scheme \<Rightarrow> ('a) perf_state_scheme \<Rightarrow> bool" where
  "only_calls vendor s s' =
     (\<exists>evs. s' = with_trace evs s \<and> list_all is_query_event evs
        \<and> (\<not> vendor \<longrightarrow> list_all is_collect evs))"

subsection \<open>What the specification says of a record\<close>

text \<open>
  \<open>memory_free\<close> is \<open>max(memory_total - memory_used, 0)\<close>; \<open>memory_utilization\<close>
  is 0 when \<open>memory_total\<close> is 0 and \<open>floor(memory_used * 100 / memory_total)\<close>
  otherwise; \<open>gpu_utilization\<close> lies in 0..100.
\<close>

definition free_is_clamped_difference :: "gpu_record \<Rightarrow> bool" where
  "free_is_clamped_difference r = (memory_free r = max (memory_total r - memory_used r) 0)"

definition utilization_is_derived :: "gpu_record \<Rightarrow> bool" where
  "utilization_is_derived r =
     (memory_utilization r =
        (if memory_total r = 0 then 0 else (memory_used r * 100) div memory_total r))"

definition utilization_in_range :: "gpu_record \<Rightarrow> bool" where
  "utilization_in_range r = (0 \<le> gpu_utilization r \<and> gpu_utilization r \<le> 100)"


subsection \<open>Where the values of a record come from\<close>

text \<open>
  The pieces that the NVIDIA loop appends for device \<open>i\<close>, and the device handle behind
  a record of the document.
\<close>

definition nv_pieces :: "nv_env \<Rightarrow> nat \<Rightarrow> piece list" where
  "nv_pieces E i =
     (case ans_nvmlDeviceGetHandleByIndex E i of (result, device) \<Rightarrow>
        if result \<noteq> NVML_SUCCESS then []
        else (if i > 0 then [Comma] else []) @ [Rec (nv_record E i device)])"

definition nv_device_of :: "nv_env \<Rightarrow> gpu_record \<Rightarrow> nvmlDevice_t" where
  "nv_device_of E r = snd (ans_nvmlDeviceGetHandleByIndex E (nat (index r)))"

text \<open>
  The raw utilization behind the \<^verbatim>\<open>gpu_util\<close> of an AMD or Intel record: -1 or 0 when
  nothing could be read, else the vendor's percentage or the counter value, converted to
  \<^verbatim>\<open>int\<close>.
\<close>

definition amd_util_source :: "amd_env \<Rightarrow> int \<Rightarrow> int \<Rightarrow> bool" where
  "amd_util_source E i g =
     (g = - 1 \<or> g = 0
      \<or> float_to_int (gpuUsagePercent (snd (ans_agsGetGPUMemoryUsage E AtUtilization i))) = Inr g
      \<or> float_to_int (doubleValue (ans_sample E i)) = Inr g)"

definition intel_util_source :: "intel_env \<Rightarrow> int \<Rightarrow> bool" where
  "intel_util_source E g =
     (g = - 1 \<or> g = 0
      \<or> g = sint (stats_gpu_utilization (snd (ans_igcl_get_device_stats E AtUtilization)))
      \<or> float_to_int (doubleValue (ans_sample E 0)) = Inr g)"

subsection \<open>Concrete platforms\<close>

text \<open>
  A machine with NVML: every candidate path loads module 1, which exports every symbol;
  two devices, whose handles are their indices. The library reports 8 GiB in total, 2 GiB
  used and 5 GiB free, a memory-controller utilization of 60 and a GPU utilization of 150.
  The text of a record is taken to have 187 characters.
\<close>

definition nv_machine :: nv_env where
  "nv_machine = \<lparr>nv_LoadLibraryA = (\<lambda>p. Some 1), nv_exports = (\<lambda>h nm. True),
     nv_malloc_ok = True, ans_nvmlInit = 0, ans_nvmlDeviceGetCount = (0, 2),
     ans_nvmlDeviceGetHandleByIndex = (\<lambda>i. (0, i)),
     ans_nvmlDeviceGetName = (\<lambda>d. (0, ''GeForce'')),
     ans_nvmlDeviceGetUtilizationRates = (\<lambda>d. (0, \<lparr>gpu = 150, memory = 60\<rparr>)),
     ans_nvmlDeviceGetMemoryInfo =
       (\<lambda>d. (0, \<lparr>mem_total = 8589934592, mem_free = 5368709120, mem_used = 2147483648\<rparr>)),
     ans_nvmlDeviceGetTemperature = (\<lambda>d. Some 60),
     ans_nvmlDeviceGetPowerUsage = (\<lambda>d. Some 5000), nv_snprintf = (\<lambda>r. 187)\<rparr>"

text \<open>The state of a fresh process after \<^verbatim>\<open>gpu_init\<close> on platform \<open>E\<close>.\<close>

definition nv_after_init :: "nv_env \<Rightarrow> nv_state" where
  "nv_after_init E = state_after (nv_initial fresh_os) (nv_gpu_init E (nv_initial fresh_os))"

text \<open>
  A machine with AGS: every candidate path loads module 1, which exports every symbol; two
  adapters of 8 GiB; the counters register and read 42 percent and 2 GiB. The text of a
  record is taken to have 190 characters.
\<close>

definition amd_machine :: amd_env where
  "amd_machine = \<lparr>ans_LoadLibraryA = (\<lambda>p. Some 1), ans_GetProcAddress = (\<lambda>h nm. True),
     ans_malloc = True, ans_PdhOpenQueryA = Some 10,
     ans_PdhAddCounterA_util = (\<lambda>p. Some 11), ans_PdhAddCounterA_memory = (\<lambda>p. Some 12),
     ans_sample = (\<lambda>i. \<lparr>collect_ok = True, util_status_ok = True, util_cstatus_valid = True,
       doubleValue = 42, mem_status_ok = True, mem_cstatus_valid = True,
       largeValue = 2147483648\<rparr>),
     ans_DriverDesc = Some ''Radeon'',
     ans_agsInitialize = (0, Some 1, \<lparr>numDevices = 2,
       devices = [\<lparr>adapterString = ''Radeon A'', localMemoryInBytes = 8589934592\<rparr>,
                  \<lparr>adapterString = ''Radeon B'', localMemoryInBytes = 8589934592\<rparr>]\<rparr>),
     ans_agsGetGPUMemoryUsage = (\<lambda>st i. (0, \<lparr>gpuUsagePercent = 85,
       memoryUsedInBytes = 2147483648, temperatureInC = 72, powerUsageInWatts = 350\<rparr>)),
     ans_snprintf = (\<lambda>r. 190)\<rparr>"

definition amd_after_init :: "amd_env \<Rightarrow> amd_state" where
  "amd_after_init E = state_after (amd_initial fresh_os) (amd_gpu_init E (amd_initial fresh_os))"

text \<open>
  A machine with IGCL: every candidate path loads module 1, which exports every symbol; 32
  GiB of physical memory; the counters register and read 42 percent and 5 GiB.
\<close>

definition intel_machine :: intel_env where
  "intel_machine = \<lparr>ans_LoadLibraryA = (\<lambda>p. Some 1), ans_GetProcAddress = (\<lambda>h nm. True),
     ans_malloc = True, ans_PdhOpenQueryA = Some 10,
     ans_PdhAddCounterA_util = (\<lambda>p. Some 11), ans_PdhAddCounterA_memory = (\<lambda>p. Some 12),
     ans_sample = (\<lambda>i. \<lparr>collect_ok = True, util_status_ok = True, util_cstatus_valid = True,
       doubleValue = 42, mem_status_ok = True, mem_cstatus_valid = True,
       largeValue = 5368709120\<rparr>),
     ans_DriverDesc = Some ''Intel(R) UHD Graphics'',
     ans_igcl_init = 0, ans_igcl_get_device_count = (0, 1),
     ans_igcl_get_device_info =
       (\<lambda>st. (0, \<lparr>device_name = ''Intel(R) Arc'', total_memory = 8589934592\<rparr>)),
     ans_igcl_get_device_stats = (\<lambda>st. (0, \<lparr>stats_gpu_utilization = 35,
       stats_memory_used = 2147483648, stats_temperature = 55, stats_power_usage = 15000\<rparr>)),
     ans_ullTotalPhys = 34359738368\<rparr>"

definition intel_after_init :: "intel_env \<Rightarrow> intel_state" where
  "intel_after_init E =
     state_after (intel_initial fresh_os) (intel_gpu_init E (intel_initial fresh_os))"


text \<open>The same machines without the vendor library: no candidate path loads.\<close>

definition nv_no_library :: nv_env where
  "nv_no_library = nv_machine\<lparr>nv_LoadLibraryA := (\<lambda>p. None)\<rparr>"

definition amd_no_library :: amd_env where
  "amd_no_library = amd_machine\<lparr>ans_LoadLibraryA := (\<lambda>p. None)\<rparr>"

definition intel_no_library :: intel_env where
  "intel_no_library = intel_machine\<lparr>ans_LoadLibraryA := (\<lambda>p. None)\<rparr>"

text \<open>Without the vendor library and without counters: \<^verbatim>\<open>PdhOpenQueryA\<close> fails too.\<close>

definition amd_nothing :: amd_env where
  "amd_nothing = amd_no_library\<lparr>ans_PdhOpenQueryA := None\<rparr>"

definition intel_nothing :: intel_env where
  "intel_nothing = intel_no_library\<lparr>ans_PdhOpenQueryA := None\<rparr>"

subsection \<open>The globals after symbol resolution\<close>

text \<open>The function pointers as \<^verbatim>\<open>load_ags\<close> and \<^verbatim>\<open>load_igcl\<close> leave them for module \<open>h\<close>.\<close>

definition ags_resolved :: "(handle \<Rightarrow> string \<Rightarrow> bool) \<Rightarrow> handle \<Rightarrow> amd_state \<Rightarrow> amd_state" where
  "ags_resolved G h s =
     s\<lparr>agsInitialize := GetProcAddress G h ''agsInitialize'',
       agsDeInitialize := GetProcAddress G h ''agsDeInitialize'',
       agsGetGPUMemoryUsage := GetProcAddress G h ''agsGetGPUMemoryUsage'',
       agsGetVersionNumber := GetProcAddress G h ''agsGetVersionNumber''\<rparr>"

definition igcl_resolved :: "(handle \<Rightarrow> string \<Rightarrow> bool) \<Rightarrow> handle \<Rightarrow> intel_state \<Rightarrow> intel_state" where
  "igcl_resolved G h s =
     s\<lparr>igcl_init := GetProcAddress G h ''igcl_init'',
       igcl_shutdown := GetProcAddress G h ''igcl_shutdown'',
       igcl_get_device_count := GetProcAddress G h ''igcl_get_device_count'',
       igcl_get_device_info := GetProcAddress G h ''igcl_get_device_info'',
       igcl_get_device_stats := GetProcAddress G h ''igcl_get_device_stats''\<rparr>"

text \<open>
  Platforms for the probe of the second candidate: the first candidate path loads module
  1, every other path module 2; module 1 lacks one required symbol, module 2 exports
  every symbol.
\<close>

definition nv_partial_first :: nv_env where
  "nv_partial_first = nv_machine\<lparr>
     nv_LoadLibraryA := (\<lambda>p. if p = hd nvml_paths then Some 1 else Some 2),
     nv_exports := (\<lambda>h nm. h = 2 \<or> nm \<noteq> ''nvmlShutdown'')\<rparr>"

definition amd_partial_first :: amd_env where
  "amd_partial_first = amd_machine\<lparr>
     ans_LoadLibraryA := (\<lambda>p. if p = hd ags_paths then Some 1 else Some 2),
     ans_GetProcAddress := (\<lambda>h nm. h = 2 \<or> nm \<noteq> ''agsDeInitialize'')\<rparr>"

definition intel_partial_first :: intel_env where
  "intel_partial_first = intel_machine\<lparr>
     ans_LoadLibraryA := (\<lambda>p. if p = hd igcl_paths then Some 1 else Some 2),
     ans_GetProcAddress := (\<lambda>h nm. h = 2 \<or> nm \<noteq> ''igcl_get_device_stats'')\<rparr>"

text \<open>
  An NVML that exports every required symbol but not \<^verbatim>\<open>nvmlDeviceGetTemperature\<close>.
\<close>

definition nv_no_temperature :: nv_env where
  "nv_no_temperature =
     nv_machine\<lparr>nv_exports := (\<lambda>h nm. nm \<noteq> ''nvmlDeviceGetTemperature'')\<rparr>"

text \<open>A session on the counter fallback: the three queries, one after the other.\<close>

definition amd_three_queries :: "(amd_env \<times> query) list" where
  "amd_three_queries =
     [(amd_no_library, GetCount), (amd_no_library, GetInfoJson), (amd_no_library, GetUsage)]"

definition intel_three_queries :: "(intel_env \<times> query) list" where
  "intel_three_queries =
     [(intel_no_library, GetCount), (intel_no_library, GetInfoJson),
      (intel_no_library, GetUsage)]"

text \<open>
  The NVIDIA machine with a GPU utilization of 35 and a memory-controller utilization of
  20, and the Intel machine when IGCL reports \<open>2 * 10^17\<close> bytes in use.
\<close>

definition nv_idle :: nv_env where
  "nv_idle = nv_machine\<lparr>ans_nvmlDeviceGetUtilizationRates :=
     (\<lambda>d. (0, \<lparr>gpu = 35, memory = 20\<rparr>))\<rparr>"

definition intel_huge_memory :: intel_env where
  "intel_huge_memory = intel_machine\<lparr>ans_igcl_get_device_stats :=
     (\<lambda>st. (0, \<lparr>stats_gpu_utilization = 35, stats_memory_used = 200000000000000000,
        stats_temperature = 55, stats_power_usage = 15000\<rparr>))\<rparr>"

subsection \<open>Preconditions of a snapshot\<close>

text \<open>
  The NVIDIA snapshot calls seven function pointers; the AMD snapshot reads
  \<^verbatim>\<open>gpu_info.devices[i]\<close> for every \<open>i\<close> below \<^verbatim>\<open>numDevices\<close> and calls
  \<^verbatim>\<open>agsGetGPUMemoryUsage\<close> when the pointer is not \<^verbatim>\<open>NULL\<close>; a floating-point value fits
  when its conversion to \<^verbatim>\<open>int\<close> is defined.
\<close>

definition nv_ready :: "nv_state \<Rightarrow> bool" where
  "nv_ready s =
     (callable (nvmlDeviceGetCount s) (nv_os s)
      \<and> callable (nvmlDeviceGetHandleByIndex s) (nv_os s)
      \<and> callable (nvmlDeviceGetName s) (nv_os s)
      \<and> callable (nvmlDeviceGetUtilizationRates s) (nv_os s)
      \<and> callable (nvmlDeviceGetMemoryInfo s) (nv_os s)
      \<and> callable (nvmlDeviceGetTemperature s) (nv_os s)
      \<and> callable (nvmlDeviceGetPowerUsage s) (nv_os s))"

definition amd_ready :: "amd_state \<Rightarrow> bool" where
  "amd_ready s =
     (ags_initialized s \<longrightarrow>
        numDevices (gpu_info s) \<le> int (length (devices (gpu_info s)))
        \<and> (agsGetGPUMemoryUsage s = NullFn \<or> callable (agsGetGPUMemoryUsage s) (sys s)))"

text \<open>
  The Intel snapshot calls \<^verbatim>\<open>igcl_get_device_info\<close> and \<^verbatim>\<open>igcl_get_device_stats\<close> when
  IGCL is initialised and the pointer is not \<^verbatim>\<open>NULL\<close>.
\<close>

definition intel_ready :: "intel_state \<Rightarrow> bool" where
  "intel_ready s =
     (igcl_initialized s \<longrightarrow>
        (igcl_get_device_info s = NullFn \<or> callable (igcl_get_device_info s) (sys s))
        \<and> (igcl_get_device_stats s = NullFn \<or> callable (igcl_get_device_stats s) (sys s)))"

definition float_fits :: "rat \<Rightarrow> bool" where
  "float_fits x = (\<not> faults (float_to_int x))"

text \<open>
  The three statistics calls for AMD device \<open>i\<close> all fail; the statistics of a record
  are the zero defaults.
\<close>

definition stats_fail :: "amd_env \<Rightarrow> int \<Rightarrow> bool" where
  "stats_fail E i =
     (fst (ans_agsGetGPUMemoryUsage E AtMemoryUsage i) \<noteq> AGS_SUCCESS
      \<and> fst (ans_agsGetGPUMemoryUsage E AtUtilization i) \<noteq> AGS_SUCCESS
      \<and> fst (ans_agsGetGPUMemoryUsage E AtInfoJson i) \<noteq> AGS_SUCCESS)"

definition zero_stats :: "gpu_record \<Rightarrow> bool" where
  "zero_stats r =
     (gpu_utilization r = 0 \<and> memory_utilization r = 0 \<and> memory_used r = 0
      \<and> temperature r = 0 \<and> power_usage r = 0)"

text \<open>
  The scenario of the specification: two devices, the statistics of device 1 fail.
\<close>

definition nv_transient :: nv_env where
  "nv_transient = nv_idle\<lparr>
     ans_nvmlDeviceGetUtilizationRates :=
       (\<lambda>d. if d = 1 then (999, \<lparr>gpu = 77, memory = 77\<rparr>) else (0, \<lparr>gpu = 35, memory = 20\<rparr>)),
     ans_nvmlDeviceGetMemoryInfo :=
       (\<lambda>d. if d = 1 then (999, \<lparr>mem_total = 77, mem_free = 77, mem_used = 77\<rparr>)
             else (0, \<lparr>mem_total = 8589934592, mem_free = 6442450944,
                       mem_used = 2147483648\<rparr>)),
     ans_nvmlDeviceGetTemperature := (\<lambda>d. if d = 1 then None else Some 60),
     ans_nvmlDeviceGetPowerUsage := (\<lambda>d. if d = 1 then None else Some 5000)\<rparr>"

definition amd_transient :: amd_env where
  "amd_transient = amd_machine\<lparr>ans_agsGetGPUMemoryUsage :=
     (\<lambda>st i. if i = 1
        then (- 1, \<lparr>gpuUsagePercent = 77, memoryUsedInBytes = 77, temperatureInC = 77,
                    powerUsageInWatts = 77\<rparr>)
        else (0, \<lparr>gpuUsagePercent = 85, memoryUsedInBytes = 2147483648, temperatureInC = 72,
                  powerUsageInWatts = 350\<rparr>))\<rparr>"

text \<open>
  Machines for the count of records: AGS reports no adapter; the handle of NVIDIA device 0
  cannot be looked up.
\<close>

definition amd_no_adapter :: amd_env where
  "amd_no_adapter = amd_machine\<lparr>ans_agsInitialize :=
     (0, Some 1, \<lparr>numDevices = 0, devices = []\<rparr>)\<rparr>"

definition nv_lost_device :: nv_env where
  "nv_lost_device = nv_idle\<lparr>ans_nvmlDeviceGetHandleByIndex :=
     (\<lambda>i. if i = 0 then (15, 0) else (0, i))\<rparr>"

text \<open>The AMD counter fallback with a utilization counter that reads 250.\<close>

definition amd_busy_counters :: amd_env where
  "amd_busy_counters = amd_no_library\<lparr>ans_sample :=
     (\<lambda>i. \<lparr>collect_ok = True, util_status_ok = True, util_cstatus_valid = True,
       doubleValue = 250, mem_status_ok = True, mem_cstatus_valid = True,
       largeValue = 2147483648\<rparr>)\<rparr>"

text \<open>
  Machines for the size of the buffer: NVML counts 8388606 devices; AGS reports 2097151
  adapters.
\<close>

definition nv_crowded :: nv_env where
  "nv_crowded = nv_idle\<lparr>ans_nvmlDeviceGetCount := (0, 8388606)\<rparr>"

definition amd_crowded :: amd_env where
  "amd_crowded = amd_machine\<lparr>ans_agsInitialize :=
     (0, Some 1, \<lparr>numDevices = 2097151, devices = []\<rparr>)\<rparr>"

section \<open>Basic facts about the platform model\<close>

lemma bindF_simps [simp]: "bindF (Inl f) k = Inl f" "bindF (Inr x) k = k x"
  by (simp_all add: bindF_def)

lemma bindF_Inr_iff: "bindF m k = Inr y \<longleftrightarrow> (\<exists>x. m = Inr x \<and> k x = Inr y)"
  by (cases m) simp_all

lemma faults_simps [simp]: "faults (Inl f)" "\<not> faults (Inr y)"
  by (simp_all add: faults_def)

lemma faults_bindF: "faults (bindF m k) \<longleftrightarrow> faults m \<or> (\<exists>x. m = Inr x \<and> faults (k x))"
  by (cases m) simp_all

lemma piece_length_simps [simp]:
  "piece_length rl Open = 9" "piece_length rl Comma = 1" "piece_length rl (Rec r) = rl r"
  "piece_length rl Close = 2"
  by (simp_all add: piece_length_def)

lemma strlen_simps [simp]:
  "strlen rl [] = 0" "strlen rl (p # ps) = piece_length rl p + strlen rl ps"
  "strlen rl (xs @ ys) = strlen rl xs + strlen rl ys"
  by (simp_all add: strlen_def)

lemma strcat_Inr_iff:
  "strcat n rl buf p = Inr b \<longleftrightarrow> strlen rl buf + piece_length rl p + 1 \<le> n \<and> b = buf @ [p]"
  by (auto simp: strcat_def)

lemma strcat_Inl: "strcat n rl buf p = Inl f \<Longrightarrow> f = BufferOverrun"
  by (auto simp: strcat_def split: if_splits)

lemma strcat_each_Inr: "strcat_each n rl buf ps = Inr b \<Longrightarrow> b = buf @ ps"
proof (induction ps arbitrary: buf)
  case Nil
  then show ?case by simp
next
  case (Cons p ps)
  from Cons.prems obtain b1 where
    "strcat n rl buf p = Inr b1" "strcat_each n rl b1 ps = Inr b"
    by (auto simp: bindF_Inr_iff)
  with Cons.IH [of b1] show ?case by (simp add: strcat_Inr_iff)
qed

lemma strcat_each_Inl: "strcat_each n rl buf ps = Inl f \<Longrightarrow> f = BufferOverrun"
proof (induction ps arbitrary: buf)
  case Nil
  then show ?case by simp
next
  case (Cons p ps)
  show ?case
  proof (cases "strcat n rl buf p")
    case (Inl f')
    with Cons.prems strcat_Inl [OF Inl] show ?thesis by simp
  next
    case (Inr b1)
    with Cons.prems Cons.IH [of b1] show ?thesis by simp
  qed
qed

lemma strcat_each_fits:
  "strlen rl buf + strlen rl ps + 1 \<le> n \<Longrightarrow> strcat_each n rl buf ps = Inr (buf @ ps)"
proof (induction ps arbitrary: buf)
  case Nil
  then show ?case by simp
next
  case (Cons p ps)
  from Cons.prems have "strcat n rl buf p = Inr (buf @ [p])"
    by (simp add: strcat_def)
  moreover from Cons.prems have "strcat_each n rl (buf @ [p]) ps = Inr ((buf @ [p]) @ ps)"
    by (intro Cons.IH) simp
  ultimately show ?case by simp
qed

lemma chars_bound: "nv_chars E r \<le> 511" "amd_chars E' r \<le> 1023"
  by (simp_all add: nv_chars_def amd_chars_def snprintf_def)

lemma not_faults_iff: "\<not> faults x \<longleftrightarrow> (\<exists>y. x = Inr y)"
  by (cases x) simp_all

lemma emit_simps [simp]:
  "modules (emit e w) = modules w" "queries (emit e w) = queries w"
  "trace (emit e w) = trace w @ [e]"
  by (simp_all add: emit_def)

lemma call_fptr_Inr:
  "call_fptr nm p w = Inr w' \<longleftrightarrow> (\<exists>h. p = Fn h \<and> h \<in> set (modules w) \<and> w' = emit (EvCall nm) w)"
  by (cases p) (auto simp: call_fptr_def)

lemma call_fptr_ok: "h \<in> set (modules w) \<Longrightarrow> call_fptr nm (Fn h) w = Inr (emit (EvCall nm) w)"
  by (simp add: call_fptr_def)

lemma call_fptr_callable: "callable p w \<Longrightarrow> call_fptr nm p w = Inr (emit (EvCall nm) w)"
  by (cases p) (simp_all add: callable_def call_fptr_def)

lemma call_fptr_null [simp]: "call_fptr nm NullFn w = Inl (NullCall nm)"
  by (simp add: call_fptr_def)

lemma call_fptr_no_modules: "modules w = [] \<Longrightarrow> faults (call_fptr nm p w)"
  by (cases p) (simp_all add: call_fptr_def)

lemma call_fptr_not_faults: "\<not> faults (call_fptr nm p w) \<longleftrightarrow> callable p w"
  by (cases p) (simp_all add: call_fptr_def callable_def)

lemma callable_emit [simp]: "callable p (emit e w) = callable p w"
  by (simp add: callable_def split: fptr.splits)

lemma FreeLibrary_Inr:
  "FreeLibrary h w = Inr w' \<longleftrightarrow>
     h \<in> set (modules w) \<and> w' = (emit (EvFreeLibrary h) w)\<lparr>modules := remove1 h (modules w)\<rparr>"
  by (auto simp: FreeLibrary_def)

lemma FreeLibrary_head [simp]:
  "modules w = h # ms \<Longrightarrow> FreeLibrary h w = Inr ((emit (EvFreeLibrary h) w)\<lparr>modules := ms\<rparr>)"
  by (simp add: FreeLibrary_def)

lemma PdhCloseQuery_Inr:
  "PdhCloseQuery q w = Inr w' \<longleftrightarrow>
     q \<in> set (queries w) \<and> w' = (emit (EvCloseQuery q) w)\<lparr>queries := remove1 q (queries w)\<rparr>"
  by (auto simp: PdhCloseQuery_def)

subsection \<open>The loop over the candidate paths\<close>

lemma try_load_none:
  "\<forall>x\<in>set ps. L x = None \<Longrightarrow>
     try_load L ps w = (None, w\<lparr>trace := trace w @ map EvLoadLibrary ps\<rparr>)"
  by (induction ps arbitrary: w) (simp_all add: emit_def)

lemma try_load_first:
  "\<forall>x\<in>set ps. L x = None \<Longrightarrow> L p = Some h \<Longrightarrow>
     try_load L (ps @ p # qs) w =
       (Some h, w\<lparr>trace := trace w @ map EvLoadLibrary (ps @ [p]), modules := h # modules w\<rparr>)"
  by (induction ps arbitrary: w) (simp_all add: emit_def)

lemma try_load_frame:
  "try_load L ps w = (r, w') \<Longrightarrow>
     queries w' = queries w
     \<and> modules w' = (case r of None \<Rightarrow> modules w | Some h \<Rightarrow> h # modules w)"
  by (induction ps arbitrary: w) (auto split: option.splits)

subsection \<open>Symbol resolution\<close>

lemma GetProcAddress_Null_iff: "GetProcAddress G h nm = NullFn \<longleftrightarrow> \<not> G h nm"
  by (simp add: GetProcAddress_def)

lemma resolve2_Null_iff: "resolve2 G h a b = NullFn \<longleftrightarrow> \<not> G h a \<and> \<not> G h b"
  by (simp add: resolve2_def GetProcAddress_def)

lemma GetProcAddress_Fn: "G h nm \<Longrightarrow> GetProcAddress G h nm = Fn h"
  by (simp add: GetProcAddress_def)

lemma resolve2_Fn: "G h a \<or> G h b \<Longrightarrow> resolve2 G h a b = Fn h"
  by (auto simp: resolve2_def GetProcAddress_def)

lemma GetProcAddress_cases: "GetProcAddress G h nm = NullFn \<or> GetProcAddress G h nm = Fn h"
  by (simp add: GetProcAddress_def)

subsection \<open>NVIDIA: loading and initialising\<close>

lemma load_nvml_None:
  assumes "try_load (nv_LoadLibraryA E) nvml_paths (nv_os s) = (None, w)"
  shows "load_nvml E s = Inr (- 1, s\<lparr>nvml_lib := None, nv_os := w\<rparr>)"
  using assms by (simp add: load_nvml_def)

lemma load_nvml_incomplete:
  assumes "try_load (nv_LoadLibraryA E) nvml_paths (nv_os s) = (Some h, w)"
    and "\<not> nv_required (nv_exports E) h"
  shows "\<exists>s'. load_nvml E s = Inr (- 2, s') \<and> nvml_lib s' = None
           \<and> nv_os s' = (emit (EvFreeLibrary h) w)\<lparr>modules := modules (nv_os s)\<rparr>"
proof -
  from try_load_frame [OF assms(1)] have m: "modules w = h # modules (nv_os s)" by simp
  from assms(2) have c:
    "resolve2 (nv_exports E) h ''nvmlInit_v2'' ''nvmlInit'' = NullFn
     \<or> GetProcAddress (nv_exports E) h ''nvmlShutdown'' = NullFn
     \<or> resolve2 (nv_exports E) h ''nvmlDeviceGetCount_v2'' ''nvmlDeviceGetCount'' = NullFn
     \<or> resolve2 (nv_exports E) h ''nvmlDeviceGetHandleByIndex_v2''
          ''nvmlDeviceGetHandleByIndex'' = NullFn
     \<or> GetProcAddress (nv_exports E) h ''nvmlDeviceGetName'' = NullFn
     \<or> GetProcAddress (nv_exports E) h ''nvmlDeviceGetUtilizationRates'' = NullFn
     \<or> GetProcAddress (nv_exports E) h ''nvmlDeviceGetMemoryInfo'' = NullFn"
    unfolding nv_required_def GetProcAddress_Null_iff resolve2_Null_iff by blast
  show ?thesis
    unfolding load_nvml_def by (simp add: assms(1) Let_def c m)
qed

lemma load_nvml_complete:
  assumes "try_load (nv_LoadLibraryA E) nvml_paths (nv_os s) = (Some h, w)"
    and "nv_required (nv_exports E) h"
  shows "\<exists>s'. load_nvml E s = Inr (0, s') \<and> nvml_lib s' = Some h \<and> nv_os s' = w
           \<and> nvmlInit s' = Fn h \<and> nvmlShutdown s' = Fn h \<and> nvmlDeviceGetCount s' = Fn h
           \<and> nvmlDeviceGetHandleByIndex s' = Fn h \<and> nvmlDeviceGetName s' = Fn h
           \<and> nvmlDeviceGetUtilizationRates s' = Fn h \<and> nvmlDeviceGetMemoryInfo s' = Fn h
           \<and> nvmlDeviceGetTemperature s' =
               GetProcAddress (nv_exports E) h ''nvmlDeviceGetTemperature''
           \<and> nvmlDeviceGetPowerUsage s' =
               GetProcAddress (nv_exports E) h ''nvmlDeviceGetPowerUsage''"
proof -
  from assms(2) have r:
    "resolve2 (nv_exports E) h ''nvmlInit_v2'' ''nvmlInit'' = Fn h"
    "GetProcAddress (nv_exports E) h ''nvmlShutdown'' = Fn h"
    "resolve2 (nv_exports E) h ''nvmlDeviceGetCount_v2'' ''nvmlDeviceGetCount'' = Fn h"
    "resolve2 (nv_exports E) h ''nvmlDeviceGetHandleByIndex_v2'' ''nvmlDeviceGetHandleByIndex'' = Fn h"
    "GetProcAddress (nv_exports E) h ''nvmlDeviceGetName'' = Fn h"
    "GetProcAddress (nv_exports E) h ''nvmlDeviceGetUtilizationRates'' = Fn h"
    "GetProcAddress (nv_exports E) h ''nvmlDeviceGetMemoryInfo'' = Fn h"
    unfolding nv_required_def by (simp_all add: resolve2_Fn GetProcAddress_Fn)
  show ?thesis
    unfolding load_nvml_def by (simp add: assms(1) Let_def r)
qed


lemma load_nvml_outcome:
  obtains (none) w where "load_nvml E s = Inr (- 1, s\<lparr>nvml_lib := None, nv_os := w\<rparr>)"
      "modules w = modules (nv_os s)" "queries w = queries (nv_os s)"
  | (incomplete) s' where "load_nvml E s = Inr (- 2, s')" "nvml_lib s' = None"
      "modules (nv_os s') = modules (nv_os s)" "queries (nv_os s') = queries (nv_os s)"
  | (complete) h s' where "load_nvml E s = Inr (0, s')" "nvml_lib s' = Some h"
      "modules (nv_os s') = h # modules (nv_os s)" "queries (nv_os s') = queries (nv_os s)"
      "nvmlInit s' = Fn h" "nvmlShutdown s' = Fn h" "nvmlDeviceGetCount s' = Fn h"
      "nvmlDeviceGetHandleByIndex s' = Fn h" "nvmlDeviceGetName s' = Fn h"
      "nvmlDeviceGetUtilizationRates s' = Fn h" "nvmlDeviceGetMemoryInfo s' = Fn h"
proof -
  obtain r w where tl: "try_load (nv_LoadLibraryA E) nvml_paths (nv_os s) = (r, w)"
    by (cases "try_load (nv_LoadLibraryA E) nvml_paths (nv_os s)")
  note fr = try_load_frame [OF tl]
  show thesis
  proof (cases r)
    case None
    with tl fr none [of w] show thesis by (simp add: load_nvml_None)
  next
    case (Some h)
    show thesis
    proof (cases "nv_required (nv_exports E) h")
      case True
      from load_nvml_complete [OF tl [unfolded Some] True] fr Some complete [of _ h]
      show thesis by auto
    next
      case False
      from load_nvml_incomplete [OF tl [unfolded Some] False] fr Some incomplete
      show thesis by auto
    qed
  qed
qed

lemma nv_gpu_init_total: "\<not> faults (nv_gpu_init E s)"
proof (cases rule: load_nvml_outcome [of E s])
  case (none w)
  then show ?thesis by (simp add: nv_gpu_init_def)
next
  case (incomplete s')
  then show ?thesis by (simp add: nv_gpu_init_def)
next
  case (complete h s')
  then show ?thesis
    by (simp add: nv_gpu_init_def call_fptr_def unload_nvml_def)
qed

lemma nv_gpu_init_failed:
  assumes "nv_gpu_init E s = Inr (rc, s')" "rc \<noteq> 0"
  shows "modules (nv_os s') = modules (nv_os s) \<and> nvml_lib s' = None"
proof (cases rule: load_nvml_outcome [of E s])
  case (none w)
  with assms show ?thesis by (auto simp: nv_gpu_init_def)
next
  case (incomplete s1)
  with assms show ?thesis by (auto simp: nv_gpu_init_def)
next
  case (complete h s1)
  with assms show ?thesis
    by (auto simp: nv_gpu_init_def call_fptr_def unload_nvml_def split: if_splits)
qed

lemma nv_gpu_init_ok:
  assumes "nv_gpu_init E s = Inr (0, s')"
  shows "\<exists>h. nvml_lib s' = Some h \<and> modules (nv_os s') = h # modules (nv_os s)
           \<and> nvmlInit s' = Fn h \<and> nvmlShutdown s' = Fn h \<and> nvmlDeviceGetCount s' = Fn h
           \<and> nvmlDeviceGetHandleByIndex s' = Fn h \<and> nvmlDeviceGetName s' = Fn h
           \<and> nvmlDeviceGetUtilizationRates s' = Fn h \<and> nvmlDeviceGetMemoryInfo s' = Fn h"
proof (cases rule: load_nvml_outcome [of E s])
  case (none w)
  with assms show ?thesis by (auto simp: nv_gpu_init_def)
next
  case (incomplete s1)
  with assms show ?thesis by (auto simp: nv_gpu_init_def)
next
  case (complete h s1)
  with assms show ?thesis
    by (auto simp: nv_gpu_init_def call_fptr_def unload_nvml_def split: if_splits)
qed

subsection \<open>Queries in a state that selected no backend\<close>

lemma returned_state: "returned x = Some v \<Longrightarrow> x = Inr (v, state_after d x)"
  by (cases x) (auto simp: returned_def state_after_def)

lemma perf_counter_unavailable:
  "\<not> perf_counters_initialized s \<Longrightarrow> get_gpu_utilization_perf_counter smp s = Inr (- 1, s)"
  "\<not> perf_counters_initialized s \<Longrightarrow> get_gpu_memory_perf_counter smp s = 0"
  by (simp_all add: get_gpu_utilization_perf_counter_def get_gpu_memory_perf_counter_def
      split: option.splits)

lemma amd_usage_unavailable:
  assumes "\<not> ags_initialized s" "\<not> perf_counters_initialized s"
  shows "amd_gpu_get_usage E s = Inr (- 1, s)"
  using assms by (simp add: amd_gpu_get_usage_def amd_get_gpu_utilization_def perf_counter_unavailable)

lemma amd_device_unavailable:
  assumes "\<not> ags_initialized s" "\<not> perf_counters_initialized s"
  shows "amd_device E i s =
     Inr ((if i > 0 then [Comma] else [])
          @ [Rec (amd_record i (case ans_DriverDesc E of None \<Rightarrow> ''AMD Graphics Card'' | Some n \<Rightarrow> n)
                    (- 1) 0 (8 * 1024 * 1024 * 1024) 0 0)], s)"
  using assms
  by (simp add: amd_device_def amd_get_gpu_memory_usage_def amd_get_gpu_utilization_def
      amd_details_def perf_counter_unavailable)

lemma amd_json_unavailable:
  assumes "\<not> ags_initialized s" "\<not> perf_counters_initialized s"
  shows "amd_gpu_get_info_json E s =
     Inr (if ans_malloc E
          then Some [Open, Rec (amd_record 0
                 (case ans_DriverDesc E of None \<Rightarrow> ''AMD Graphics Card'' | Some n \<Rightarrow> n)
                 (- 1) 0 (8 * 1024 * 1024 * 1024) 0 0), Close]
          else None, s)"
proof -
  let ?r = "amd_record 0
                 (case ans_DriverDesc E of None \<Rightarrow> ''AMD Graphics Card'' | Some n \<Rightarrow> n)
                 (- 1) 0 (8 * 1024 * 1024 * 1024) 0 0"
  have c: "amd_chars E ?r \<le> 1023" by (rule chars_bound)
  have "amd_loop E 2048 1 1 buf s = Inr (buf, s)" for buf
    by (subst amd_loop.simps) simp
  with c have "amd_loop E 2048 0 1 [Open] s = Inr ([Open, Rec ?r], s)"
    by (subst amd_loop.simps) (simp add: amd_device_unavailable [OF assms] strcat_def)
  with assms c show ?thesis
    by (simp add: amd_gpu_get_info_json_def amd_gpu_get_count_def int_result_def strcat_def)
qed

lemma intel_count_unavailable:
  "\<not> igcl_initialized s \<Longrightarrow> intel_gpu_get_count E s = Inr (1, s)"
  by (simp add: intel_gpu_get_count_def)

lemma intel_usage_unavailable:
  assumes "\<not> igcl_initialized s" "\<not> perf_counters_initialized s"
  shows "intel_gpu_get_usage E s = Inr (- 1, s)"
  using assms
  by (simp add: intel_gpu_get_usage_def intel_get_gpu_utilization_def perf_counter_unavailable)

lemma intel_json_unavailable:
  assumes "\<not> igcl_initialized s" "\<not> perf_counters_initialized s"
  shows "intel_gpu_get_info_json E s =
     Inr (if ans_malloc E
          then Some [Open, Rec (intel_record
                 (case ans_DriverDesc E of None \<Rightarrow> ''Intel Integrated Graphics'' | Some n \<Rightarrow> n)
                 (- 1) 0 (ans_ullTotalPhys E div 8) 0 0), Close]
          else None, s)"
  using assms
  by (simp add: intel_gpu_get_info_json_def intel_get_gpu_utilization_def
      intel_get_gpu_memory_usage_def intel_get_gpu_total_memory_def intel_name_def
      intel_extra_def perf_counter_unavailable)

subsection \<open>NVIDIA queries and the function pointers\<close>

lemma nv_count_callable:
  "\<not> faults (nv_gpu_get_count E s) \<longleftrightarrow> callable (nvmlDeviceGetCount s) (nv_os s)"
  by (cases "nvmlDeviceGetCount s")
     (auto simp: nv_gpu_get_count_def call_fptr_def callable_def split: prod.splits)

lemma nv_json_callable:
  assumes "\<not> faults (nv_gpu_get_info_json E s)"
  shows "callable (nvmlDeviceGetCount s) (nv_os s)"
proof (rule ccontr)
  assume "\<not> callable (nvmlDeviceGetCount s) (nv_os s)"
  then have "faults (call_fptr ''nvmlDeviceGetCount'' (nvmlDeviceGetCount s) (nv_os s))"
    using call_fptr_not_faults by blast
  then have "faults (nv_gpu_get_info_json E s)"
    by (simp add: nv_gpu_get_info_json_def faults_bindF)
  with assms show False by simp
qed

lemma nv_usage_callable:
  assumes "\<not> faults (nv_gpu_get_usage E s)"
  shows "callable (nvmlDeviceGetHandleByIndex s) (nv_os s)"
proof (rule ccontr)
  assume "\<not> callable (nvmlDeviceGetHandleByIndex s) (nv_os s)"
  then have "faults (call_fptr ''nvmlDeviceGetHandleByIndex'' (nvmlDeviceGetHandleByIndex s)
      (nv_os s))"
    using call_fptr_not_faults by blast
  then have "faults (nv_gpu_get_usage E s)"
    by (simp add: nv_gpu_get_usage_def faults_bindF)
  with assms show False by simp
qed

lemma nv_usage_ready:
  assumes "callable (nvmlDeviceGetHandleByIndex s) (nv_os s)"
    "callable (nvmlDeviceGetUtilizationRates s) (nv_os s)"
  shows "\<not> faults (nv_gpu_get_usage E s)"
  using assms
  by (auto simp: nv_gpu_get_usage_def call_fptr_callable split: prod.splits)

lemma nv_no_modules_faults:
  assumes "modules (nv_os s) = []"
  shows "faults (nv_gpu_get_count E s)" "faults (nv_gpu_get_info_json E s)"
    "faults (nv_gpu_get_usage E s)"
proof -
  have c: "\<not> callable p (nv_os s)" for p
    using assms by (simp add: callable_def split: fptr.splits)
  show "faults (nv_gpu_get_count E s)" using nv_count_callable c by blast
  show "faults (nv_gpu_get_info_json E s)" using nv_json_callable c by blast
  show "faults (nv_gpu_get_usage E s)" using nv_usage_callable c by blast
qed

text \<open>
  C10. In the NVIDIA monitor \<^verbatim>\<open>gpu_get_count\<close>, \<^verbatim>\<open>gpu_get_info_json\<close> and
  \<^verbatim>\<open>gpu_get_usage\<close> call through the stored NVML function pointers without a null guard.
  In the state before any \<^verbatim>\<open>gpu_init\<close> each of them calls a \<^verbatim>\<open>NULL\<close> pointer. In any
  state, one of them has a defined execution only if the pointer it calls first lies in a
  loaded module; in a process that holds no module, they fault after a \<^verbatim>\<open>gpu_init\<close> that
  did not return 0, and \<^verbatim>\<open>gpu_get_count\<close> and \<^verbatim>\<open>gpu_get_usage\<close> are defined after a
  \<^verbatim>\<open>gpu_init\<close> that returned 0. The AMD and the Intel monitor check their flags: their
  three queries are defined in the state before any \<^verbatim>\<open>gpu_init\<close>.
\<close>

theorem nvidia_queries_require_init:
  "nv_gpu_get_count E (nv_initial w) = Inl (NullCall ''nvmlDeviceGetCount'')
   \<and> nv_gpu_get_info_json E (nv_initial w) = Inl (NullCall ''nvmlDeviceGetCount'')
   \<and> nv_gpu_get_usage E (nv_initial w) = Inl (NullCall ''nvmlDeviceGetHandleByIndex'')
   \<and> (\<not> faults (nv_gpu_get_count E s) \<longrightarrow> callable (nvmlDeviceGetCount s) (nv_os s))
   \<and> (\<not> faults (nv_gpu_get_info_json E s) \<longrightarrow> callable (nvmlDeviceGetCount s) (nv_os s))
   \<and> (\<not> faults (nv_gpu_get_usage E s) \<longrightarrow> callable (nvmlDeviceGetHandleByIndex s) (nv_os s))
   \<and> (modules w = [] \<and> nv_gpu_init E0 (nv_initial w) = Inr (rc, s1) \<and> rc \<noteq> 0 \<longrightarrow>
        faults (nv_gpu_get_count E s1) \<and> faults (nv_gpu_get_info_json E s1)
        \<and> faults (nv_gpu_get_usage E s1))
   \<and> (nv_gpu_init E1 s0 = Inr (0, s2) \<longrightarrow>
        \<not> faults (nv_gpu_get_count E s2) \<and> \<not> faults (nv_gpu_get_usage E s2))
   \<and> amd_gpu_get_count (amd_initial w) = 1
   \<and> \<not> faults (amd_gpu_get_info_json EA (amd_initial w))
   \<and> amd_gpu_get_usage EA (amd_initial w) = Inr (- 1, amd_initial w)
   \<and> intel_gpu_get_count EI (intel_initial w) = Inr (1, intel_initial w)
   \<and> \<not> faults (intel_gpu_get_info_json EI (intel_initial w))
   \<and> intel_gpu_get_usage EI (intel_initial w) = Inr (- 1, intel_initial w)"
proof -
  have n1: "nv_gpu_get_count E (nv_initial w) = Inl (NullCall ''nvmlDeviceGetCount'')"
    by (simp add: nv_gpu_get_count_def nv_initial_def)
  have n2: "nv_gpu_get_info_json E (nv_initial w) = Inl (NullCall ''nvmlDeviceGetCount'')"
    by (simp add: nv_gpu_get_info_json_def nv_initial_def)
  have n3: "nv_gpu_get_usage E (nv_initial w) = Inl (NullCall ''nvmlDeviceGetHandleByIndex'')"
    by (simp add: nv_gpu_get_usage_def nv_initial_def)
  have n4: "faults (nv_gpu_get_count E s1) \<and> faults (nv_gpu_get_info_json E s1)
        \<and> faults (nv_gpu_get_usage E s1)"
    if "modules w = []" "nv_gpu_init E0 (nv_initial w) = Inr (rc, s1)" "rc \<noteq> 0"
  proof -
    from nv_gpu_init_failed [OF that(2,3)] that(1) have "modules (nv_os s1) = []"
      by (simp add: nv_initial_def)
    then show ?thesis by (simp add: nv_no_modules_faults)
  qed
  have n5: "\<not> faults (nv_gpu_get_count E s2) \<and> \<not> faults (nv_gpu_get_usage E s2)"
    if "nv_gpu_init E1 s0 = Inr (0, s2)"
  proof -
    from nv_gpu_init_ok [OF that] obtain h where
      "modules (nv_os s2) = h # modules (nv_os s0)" "nvmlDeviceGetCount s2 = Fn h"
      "nvmlDeviceGetHandleByIndex s2 = Fn h" "nvmlDeviceGetUtilizationRates s2 = Fn h"
      by blast
    then have "callable (nvmlDeviceGetCount s2) (nv_os s2)"
      "callable (nvmlDeviceGetHandleByIndex s2) (nv_os s2)"
      "callable (nvmlDeviceGetUtilizationRates s2) (nv_os s2)"
      by (simp_all add: callable_def)
    then show ?thesis using nv_count_callable nv_usage_ready by blast
  qed
  have a: "\<not> ags_initialized (amd_initial w)" "\<not> perf_counters_initialized (amd_initial w)"
    by (simp_all add: amd_initial_def)
  have i: "\<not> igcl_initialized (intel_initial w)" "\<not> perf_counters_initialized (intel_initial w)"
    by (simp_all add: intel_initial_def)
  have a1: "amd_gpu_get_count (amd_initial w) = 1"
    using a by (simp add: amd_gpu_get_count_def)
  have a2: "\<not> faults (amd_gpu_get_info_json EA (amd_initial w))"
    by (simp add: amd_json_unavailable [OF a])
  have i2: "\<not> faults (intel_gpu_get_info_json EI (intel_initial w))"
    by (simp add: intel_json_unavailable [OF i])
  show ?thesis
    using n1 n2 n3 n4 n5 a1 a2 i2 nv_count_callable nv_json_callable nv_usage_callable
      amd_usage_unavailable [OF a] intel_count_unavailable [OF i(1)]
      intel_usage_unavailable [OF i]
    by blast
qed

lemmas nv_eval = nv_after_init_def nv_gpu_init_def load_nvml_def nv_initial_def nv_machine_def
  nv_no_library_def nvml_paths_def returned_def state_after_def document_def records_of_def
  fresh_os_def resolve2_def GetProcAddress_def call_fptr_def NVML_SUCCESS_def emit_def
  unload_nvml_def FreeLibrary_def nv_gpu_get_count_def nv_gpu_get_info_json_def
  nv_gpu_get_usage_def nv_loop.simps nv_device_def nv_record_def callable_def
  strcat_def snprintf_def nv_chars_def

theorem nvidia_queries_require_init_witness:
  "\<not> faults (nv_gpu_get_count nv_machine (nv_after_init nv_machine))
   \<and> callable (nvmlDeviceGetCount (nv_after_init nv_machine)) (nv_os (nv_after_init nv_machine))
   \<and> \<not> faults (nv_gpu_get_info_json nv_machine (nv_after_init nv_machine))
   \<and> \<not> faults (nv_gpu_get_usage nv_machine (nv_after_init nv_machine))
   \<and> callable (nvmlDeviceGetHandleByIndex (nv_after_init nv_machine))
        (nv_os (nv_after_init nv_machine))
   \<and> modules fresh_os = []
   \<and> nv_gpu_init nv_no_library (nv_initial fresh_os) = Inr (- 1, nv_after_init nv_no_library)
   \<and> faults (nv_gpu_get_count nv_machine (nv_after_init nv_no_library))
   \<and> faults (nv_gpu_get_info_json nv_machine (nv_after_init nv_no_library))
   \<and> faults (nv_gpu_get_usage nv_machine (nv_after_init nv_no_library))
   \<and> nv_gpu_init nv_machine (nv_initial fresh_os) = Inr (0, nv_after_init nv_machine)"
proof -
  have h1: "\<not> faults (nv_gpu_get_count nv_machine (nv_after_init nv_machine))"
    by (simp add: nv_eval)
  have h2: "\<not> faults (nv_gpu_get_info_json nv_machine (nv_after_init nv_machine))"
    by (simp add: nv_eval)
  have h3: "\<not> faults (nv_gpu_get_usage nv_machine (nv_after_init nv_machine))"
    by (simp add: nv_eval)
  have h4: "modules fresh_os = []"
    by (simp add: fresh_os_def)
  have "returned (nv_gpu_init nv_no_library (nv_initial fresh_os)) = Some (- 1)"
    by (simp add: nv_eval)
  then have h5: "nv_gpu_init nv_no_library (nv_initial fresh_os)
      = Inr (- 1, nv_after_init nv_no_library)"
    unfolding nv_after_init_def by (rule returned_state)
  have "returned (nv_gpu_init nv_machine (nv_initial fresh_os)) = Some 0"
    by (simp add: nv_eval)
  then have h6: "nv_gpu_init nv_machine (nv_initial fresh_os) = Inr (0, nv_after_init nv_machine)"
    unfolding nv_after_init_def by (rule returned_state)
  note t = nvidia_queries_require_init [where E = nv_machine and w = fresh_os
      and s = "nv_after_init nv_machine" and ?E0.0 = nv_no_library and rc = "- 1"
      and ?s1.0 = "nv_after_init nv_no_library" and ?E1.0 = nv_machine
      and ?s0.0 = "nv_initial fresh_os" and ?s2.0 = "nv_after_init nv_machine"
      and EA = amd_machine and EI = intel_machine]
  from t h1 h2 h3 h4 h5 h6 show ?thesis by simp
qed

subsection \<open>AMD: loading\<close>

lemma load_ags_None:
  assumes "try_load (ans_LoadLibraryA E) ags_paths (sys s) = (None, w)"
  shows "load_ags E s = Inr (- 1, s\<lparr>sys := w, ags_lib := None\<rparr>)"
  using assms by (simp add: load_ags_def)

lemma load_ags_incomplete:
  assumes "try_load (ans_LoadLibraryA E) ags_paths (sys s) = (Some h, w)"
    and "\<not> ags_required (ans_GetProcAddress E) h"
  shows "load_ags E s =
     Inr (- 2, (ags_resolved (ans_GetProcAddress E) h s)
        \<lparr>sys := (emit (EvFreeLibrary h) w)\<lparr>modules := modules (sys s)\<rparr>, ags_lib := None\<rparr>)"
proof -
  from try_load_frame [OF assms(1)] have m: "modules w = h # modules (sys s)" by simp
  from assms(2) have c:
    "GetProcAddress (ans_GetProcAddress E) h ''agsInitialize'' = NullFn
     \<or> GetProcAddress (ans_GetProcAddress E) h ''agsDeInitialize'' = NullFn"
    unfolding ags_required_def GetProcAddress_Null_iff by blast
  show ?thesis
    unfolding load_ags_def by (simp add: assms(1) Let_def c m ags_resolved_def)
qed

lemma load_ags_complete:
  assumes "try_load (ans_LoadLibraryA E) ags_paths (sys s) = (Some h, w)"
    and "ags_required (ans_GetProcAddress E) h"
  shows "load_ags E s =
     Inr (0, (ags_resolved (ans_GetProcAddress E) h s)\<lparr>sys := w, ags_lib := Some h\<rparr>)"
proof -
  from assms(2) have r:
    "GetProcAddress (ans_GetProcAddress E) h ''agsInitialize'' = Fn h"
    "GetProcAddress (ans_GetProcAddress E) h ''agsDeInitialize'' = Fn h"
    unfolding ags_required_def by (simp_all add: GetProcAddress_Fn)
  show ?thesis
    unfolding load_ags_def by (simp add: assms(1) Let_def r ags_resolved_def)
qed

lemma ags_resolved_required:
  "ags_required G h \<Longrightarrow>
     agsInitialize (ags_resolved G h s) = Fn h \<and> agsDeInitialize (ags_resolved G h s) = Fn h"
  by (simp add: ags_required_def ags_resolved_def GetProcAddress_Fn)

lemma ags_resolved_fields [simp]:
  "sys (ags_resolved G h s) = sys s" "ags_lib (ags_resolved G h s) = ags_lib s"
  "query_handle (ags_resolved G h s) = query_handle s"
  "gpu_util_counter (ags_resolved G h s) = gpu_util_counter s"
  "gpu_memory_counter (ags_resolved G h s) = gpu_memory_counter s"
  "perf_counters_initialized (ags_resolved G h s) = perf_counters_initialized s"
  "ags_context (ags_resolved G h s) = ags_context s"
  "gpu_info (ags_resolved G h s) = gpu_info s"
  "ags_initialized (ags_resolved G h s) = ags_initialized s"
  by (simp_all add: ags_resolved_def)

lemma ags_resolved_pointer:
  "agsDeInitialize (ags_resolved G h s) = NullFn \<or> agsDeInitialize (ags_resolved G h s) = Fn h"
  "agsGetGPUMemoryUsage (ags_resolved G h s) = NullFn
   \<or> agsGetGPUMemoryUsage (ags_resolved G h s) = Fn h"
  by (simp_all add: ags_resolved_def GetProcAddress_def)

subsection \<open>Intel: loading\<close>

lemma load_igcl_None:
  assumes "try_load (ans_LoadLibraryA E) igcl_paths (sys s) = (None, w)"
  shows "load_igcl E s = Inr (- 1, s\<lparr>sys := w, igcl_lib := None\<rparr>)"
  using assms by (simp add: load_igcl_def)

lemma load_igcl_incomplete:
  assumes "try_load (ans_LoadLibraryA E) igcl_paths (sys s) = (Some h, w)"
    and "\<not> igcl_required (ans_GetProcAddress E) h"
  shows "load_igcl E s =
     Inr (- 2, (igcl_resolved (ans_GetProcAddress E) h s)
        \<lparr>sys := (emit (EvFreeLibrary h) w)\<lparr>modules := modules (sys s)\<rparr>, igcl_lib := None\<rparr>)"
proof -
  from try_load_frame [OF assms(1)] have m: "modules w = h # modules (sys s)" by simp
  from assms(2) have c:
    "GetProcAddress (ans_GetProcAddress E) h ''igcl_init'' = NullFn
     \<or> GetProcAddress (ans_GetProcAddress E) h ''igcl_shutdown'' = NullFn
     \<or> GetProcAddress (ans_GetProcAddress E) h ''igcl_get_device_count'' = NullFn
     \<or> GetProcAddress (ans_GetProcAddress E) h ''igcl_get_device_info'' = NullFn
     \<or> GetProcAddress (ans_GetProcAddress E) h ''igcl_get_device_stats'' = NullFn"
    unfolding igcl_required_def GetProcAddress_Null_iff by blast
  show ?thesis
    unfolding load_igcl_def by (simp add: assms(1) Let_def c m igcl_resolved_def)
qed

lemma load_igcl_complete:
  assumes "try_load (ans_LoadLibraryA E) igcl_paths (sys s) = (Some h, w)"
    and "igcl_required (ans_GetProcAddress E) h"
  shows "load_igcl E s =
     Inr (0, (igcl_resolved (ans_GetProcAddress E) h s)\<lparr>sys := w, igcl_lib := Some h\<rparr>)"
proof -
  from assms(2) have r:
    "GetProcAddress (ans_GetProcAddress E) h ''igcl_init'' = Fn h"
    "GetProcAddress (ans_GetProcAddress E) h ''igcl_shutdown'' = Fn h"
    "GetProcAddress (ans_GetProcAddress E) h ''igcl_get_device_count'' = Fn h"
    "GetProcAddress (ans_GetProcAddress E) h ''igcl_get_device_info'' = Fn h"
    "GetProcAddress (ans_GetProcAddress E) h ''igcl_get_device_stats'' = Fn h"
    unfolding igcl_required_def by (simp_all add: GetProcAddress_Fn)
  show ?thesis
    unfolding load_igcl_def by (simp add: assms(1) Let_def r igcl_resolved_def)
qed

lemma igcl_resolved_required:
  "igcl_required G h \<Longrightarrow>
     igcl_init (igcl_resolved G h s) = Fn h \<and> igcl_shutdown (igcl_resolved G h s) = Fn h
     \<and> igcl_get_device_count (igcl_resolved G h s) = Fn h
     \<and> igcl_get_device_info (igcl_resolved G h s) = Fn h
     \<and> igcl_get_device_stats (igcl_resolved G h s) = Fn h"
  by (simp add: igcl_required_def igcl_resolved_def GetProcAddress_Fn)

lemma igcl_resolved_fields [simp]:
  "sys (igcl_resolved G h s) = sys s" "igcl_lib (igcl_resolved G h s) = igcl_lib s"
  "query_handle (igcl_resolved G h s) = query_handle s"
  "gpu_util_counter (igcl_resolved G h s) = gpu_util_counter s"
  "gpu_memory_counter (igcl_resolved G h s) = gpu_memory_counter s"
  "perf_counters_initialized (igcl_resolved G h s) = perf_counters_initialized s"
  "igcl_initialized (igcl_resolved G h s) = igcl_initialized s"
  by (simp_all add: igcl_resolved_def)

lemma igcl_resolved_pointer:
  "igcl_shutdown (igcl_resolved G h s) = NullFn \<or> igcl_shutdown (igcl_resolved G h s) = Fn h"
  by (simp_all add: igcl_resolved_def GetProcAddress_def)

subsection \<open>The prober at a candidate that lacks a required symbol\<close>

lemma nv_probe_incomplete:
  assumes "nvml_paths = ps @ p # qs" "\<forall>x\<in>set ps. nv_LoadLibraryA E x = None"
    "nv_LoadLibraryA E p = Some h" "\<not> nv_required (nv_exports E) h"
  shows "\<exists>s'. load_nvml E s = Inr (- 2, s') \<and> nvml_lib s' = None
           \<and> modules (nv_os s') = modules (nv_os s)
           \<and> trace (nv_os s') = trace (nv_os s) @ map EvLoadLibrary (ps @ [p]) @ [EvFreeLibrary h]
           \<and> nv_gpu_init E s = Inr (- 1, s')"
proof -
  from try_load_first [OF assms(2,3), of qs "nv_os s"] assms(1)
  have tl: "try_load (nv_LoadLibraryA E) nvml_paths (nv_os s) =
      (Some h, (nv_os s)\<lparr>trace := trace (nv_os s) @ map EvLoadLibrary (ps @ [p]),
                          modules := h # modules (nv_os s)\<rparr>)"
    by simp
  from load_nvml_incomplete [OF tl assms(4)] obtain s' where
    s': "load_nvml E s = Inr (- 2, s')" "nvml_lib s' = None"
      "nv_os s' = (emit (EvFreeLibrary h)
         ((nv_os s)\<lparr>trace := trace (nv_os s) @ map EvLoadLibrary (ps @ [p]),
                     modules := h # modules (nv_os s)\<rparr>))\<lparr>modules := modules (nv_os s)\<rparr>"
    by blast
  from s'(1) have "nv_gpu_init E s = Inr (- 1, s')" by (simp add: nv_gpu_init_def)
  with s' show ?thesis by simp
qed

lemma amd_probe_incomplete:
  assumes "ags_paths = ps @ p # qs" "\<forall>x\<in>set ps. ans_LoadLibraryA E x = None"
    "ans_LoadLibraryA E p = Some h" "\<not> ags_required (ans_GetProcAddress E) h"
  shows "\<exists>s'. load_ags E s = Inr (- 2, s') \<and> ags_lib s' = None
           \<and> modules (sys s') = modules (sys s)
           \<and> trace (sys s') = trace (sys s) @ map EvLoadLibrary (ps @ [p]) @ [EvFreeLibrary h]
           \<and> amd_gpu_init E s =
               bindF (init_performance_counters amd_gpu_counter_paths amd_memory_counter_paths E s')
                 (\<lambda>(rc2, s3). if rc2 = 0 then Inr (0, s3) else Inr (- 1, s3))"
proof -
  from try_load_first [OF assms(2,3), of qs "sys s"] assms(1)
  have tl: "try_load (ans_LoadLibraryA E) ags_paths (sys s) =
      (Some h, (sys s)\<lparr>trace := trace (sys s) @ map EvLoadLibrary (ps @ [p]),
                       modules := h # modules (sys s)\<rparr>)"
    by simp
  note l = load_ags_incomplete [OF tl assms(4)]
  show ?thesis
    by (rule exI, intro conjI, rule l) (simp_all add: amd_gpu_init_def l)
qed

lemma intel_probe_incomplete:
  assumes "igcl_paths = ps @ p # qs" "\<forall>x\<in>set ps. ans_LoadLibraryA E x = None"
    "ans_LoadLibraryA E p = Some h" "\<not> igcl_required (ans_GetProcAddress E) h"
  shows "\<exists>s'. load_igcl E s = Inr (- 2, s') \<and> igcl_lib s' = None
           \<and> modules (sys s') = modules (sys s)
           \<and> trace (sys s') = trace (sys s) @ map EvLoadLibrary (ps @ [p]) @ [EvFreeLibrary h]
           \<and> intel_gpu_init E s =
               bindF (init_performance_counters intel_gpu_counter_paths
                        intel_memory_counter_paths E s')
                 (\<lambda>(rc2, s3). if rc2 = 0 then Inr (0, s3) else Inr (- 1, s3))"
proof -
  from try_load_first [OF assms(2,3), of qs "sys s"] assms(1)
  have tl: "try_load (ans_LoadLibraryA E) igcl_paths (sys s) =
      (Some h, (sys s)\<lparr>trace := trace (sys s) @ map EvLoadLibrary (ps @ [p]),
                       modules := h # modules (sys s)\<rparr>)"
    by simp
  note l = load_igcl_incomplete [OF tl assms(4)]
  show ?thesis
    by (rule exI, intro conjI, rule l) (simp_all add: intel_gpu_init_def l)
qed

text \<open>
  C6, as the code has it. In each of the three probers the first candidate path that loads
  is the only module examined. If it lacks a required symbol, the prober unloads it, resets
  the library handle to \<^verbatim>\<open>NULL\<close> and returns -2: the calls it made are the load attempts up
  to and including that candidate, then the one \<^verbatim>\<open>FreeLibrary\<close>; no later candidate path is
  attempted and no partially loaded library is kept. The NVIDIA \<^verbatim>\<open>gpu_init\<close> then returns
  -1; the AMD and the Intel \<^verbatim>\<open>gpu_init\<close> go on to the performance counters.
\<close>

theorem prober_stops_at_first_loaded_candidate:
  "(nvml_paths = psN @ pN # qsN \<and> (\<forall>x\<in>set psN. nv_LoadLibraryA EN x = None)
      \<and> nv_LoadLibraryA EN pN = Some hN \<and> \<not> nv_required (nv_exports EN) hN \<longrightarrow>
    (\<exists>s'. load_nvml EN sN = Inr (- 2, s') \<and> nvml_lib s' = None
       \<and> modules (nv_os s') = modules (nv_os sN)
       \<and> trace (nv_os s') =
           trace (nv_os sN) @ map EvLoadLibrary (psN @ [pN]) @ [EvFreeLibrary hN]
       \<and> nv_gpu_init EN sN = Inr (- 1, s')))
   \<and> (ags_paths = psA @ pA # qsA \<and> (\<forall>x\<in>set psA. ans_LoadLibraryA EA x = None)
      \<and> ans_LoadLibraryA EA pA = Some hA \<and> \<not> ags_required (ans_GetProcAddress EA) hA \<longrightarrow>
    (\<exists>s'. load_ags EA sA = Inr (- 2, s') \<and> ags_lib s' = None
       \<and> modules (sys s') = modules (sys sA)
       \<and> trace (sys s') = trace (sys sA) @ map EvLoadLibrary (psA @ [pA]) @ [EvFreeLibrary hA]
       \<and> amd_gpu_init EA sA =
           bindF (init_performance_counters amd_gpu_counter_paths amd_memory_counter_paths EA s')
             (\<lambda>(rc2, s3). if rc2 = 0 then Inr (0, s3) else Inr (- 1, s3))))
   \<and> (igcl_paths = psI @ pI # qsI \<and> (\<forall>x\<in>set psI. ans_LoadLibraryA EI x = None)
      \<and> ans_LoadLibraryA EI pI = Some hI \<and> \<not> igcl_required (ans_GetProcAddress EI) hI \<longrightarrow>
    (\<exists>s'. load_igcl EI sI = Inr (- 2, s') \<and> igcl_lib s' = None
       \<and> modules (sys s') = modules (sys sI)
       \<and> trace (sys s') = trace (sys sI) @ map EvLoadLibrary (psI @ [pI]) @ [EvFreeLibrary hI]
       \<and> intel_gpu_init EI sI =
           bindF (init_performance_counters intel_gpu_counter_paths
                    intel_memory_counter_paths EI s')
             (\<lambda>(rc2, s3). if rc2 = 0 then Inr (0, s3) else Inr (- 1, s3))))"
  using nv_probe_incomplete [of psN pN qsN EN hN sN]
    amd_probe_incomplete [of psA pA qsA EA hA sA]
    intel_probe_incomplete [of psI pI qsI EI hI sI]
  by blast

lemmas amd_eval = amd_after_init_def amd_gpu_init_def load_ags_def amd_initial_def
  amd_machine_def amd_no_library_def amd_nothing_def amd_partial_first_def ags_paths_def
  amd_gpu_counter_paths_def amd_memory_counter_paths_def init_performance_counters_def
  PdhCloseQuery_def returned_def state_after_def document_def records_of_def fresh_os_def
  GetProcAddress_def call_fptr_def AGS_SUCCESS_def emit_def FreeLibrary_def
  amd_gpu_get_count_def amd_gpu_get_info_json_def amd_gpu_get_usage_def amd_loop.simps
  amd_device_def amd_record_def amd_get_gpu_utilization_def amd_get_gpu_memory_usage_def
  amd_details_def get_gpu_utilization_perf_counter_def get_gpu_memory_perf_counter_def
  float_to_int_def memory_percent_def callable_def strcat_def snprintf_def amd_chars_def
  int_result_def

lemmas intel_eval = intel_after_init_def intel_gpu_init_def load_igcl_def intel_initial_def
  intel_machine_def intel_no_library_def intel_nothing_def intel_partial_first_def
  igcl_paths_def intel_gpu_counter_paths_def intel_memory_counter_paths_def
  init_performance_counters_def PdhCloseQuery_def returned_def state_after_def document_def
  records_of_def fresh_os_def GetProcAddress_def call_fptr_def IGCL_SUCCESS_def emit_def
  FreeLibrary_def intel_gpu_get_count_def intel_gpu_get_info_json_def intel_gpu_get_usage_def
  intel_record_def intel_get_gpu_utilization_def intel_get_gpu_memory_usage_def
  intel_get_gpu_total_memory_def intel_name_def intel_extra_def
  get_gpu_utilization_perf_counter_def get_gpu_memory_perf_counter_def float_to_int_def
  memory_percent_def callable_def

theorem prober_stops_at_first_loaded_candidate_witness:
  "nvml_paths = [] @ hd nvml_paths # tl nvml_paths
   \<and> nv_LoadLibraryA nv_partial_first (hd nvml_paths) = Some 1
   \<and> \<not> nv_required (nv_exports nv_partial_first) 1
   \<and> returned (load_nvml nv_partial_first (nv_initial fresh_os)) = Some (- 2)
   \<and> returned (nv_gpu_init nv_partial_first (nv_initial fresh_os)) = Some (- 1)
   \<and> ags_paths = [] @ hd ags_paths # tl ags_paths
   \<and> ans_LoadLibraryA amd_partial_first (hd ags_paths) = Some 1
   \<and> \<not> ags_required (ans_GetProcAddress amd_partial_first) 1
   \<and> returned (load_ags amd_partial_first (amd_initial fresh_os)) = Some (- 2)
   \<and> igcl_paths = [] @ hd igcl_paths # tl igcl_paths
   \<and> ans_LoadLibraryA intel_partial_first (hd igcl_paths) = Some 1
   \<and> \<not> igcl_required (ans_GetProcAddress intel_partial_first) 1
   \<and> returned (load_igcl intel_partial_first (intel_initial fresh_os)) = Some (- 2)"
proof -
  have n: "nvml_paths = [] @ hd nvml_paths # tl nvml_paths"
    "nv_LoadLibraryA nv_partial_first (hd nvml_paths) = Some 1"
    "\<not> nv_required (nv_exports nv_partial_first) 1"
    by (simp_all add: nvml_paths_def nv_partial_first_def nv_machine_def nv_required_def)
  have a: "ags_paths = [] @ hd ags_paths # tl ags_paths"
    "ans_LoadLibraryA amd_partial_first (hd ags_paths) = Some 1"
    "\<not> ags_required (ans_GetProcAddress amd_partial_first) 1"
    by (simp_all add: ags_paths_def amd_partial_first_def amd_machine_def ags_required_def)
  have i: "igcl_paths = [] @ hd igcl_paths # tl igcl_paths"
    "ans_LoadLibraryA intel_partial_first (hd igcl_paths) = Some 1"
    "\<not> igcl_required (ans_GetProcAddress intel_partial_first) 1"
    by (simp_all add: igcl_paths_def intel_partial_first_def intel_machine_def igcl_required_def)
  note t = prober_stops_at_first_loaded_candidate [where psN = "[]" and pN = "hd nvml_paths"
      and qsN = "tl nvml_paths" and EN = nv_partial_first and hN = 1
      and sN = "nv_initial fresh_os" and psA = "[]" and pA = "hd ags_paths"
      and qsA = "tl ags_paths" and EA = amd_partial_first and hA = 1
      and sA = "amd_initial fresh_os" and psI = "[]" and pI = "hd igcl_paths"
      and qsI = "tl igcl_paths" and EI = intel_partial_first and hI = 1
      and sI = "intel_initial fresh_os"]
  from t n have "\<exists>s'. load_nvml nv_partial_first (nv_initial fresh_os) = Inr (- 2, s')
      \<and> nv_gpu_init nv_partial_first (nv_initial fresh_os) = Inr (- 1, s')"
    by auto
  then have rn: "returned (load_nvml nv_partial_first (nv_initial fresh_os)) = Some (- 2)"
    "returned (nv_gpu_init nv_partial_first (nv_initial fresh_os)) = Some (- 1)"
    by (auto simp: returned_def)
  from t a have "\<exists>s'. load_ags amd_partial_first (amd_initial fresh_os) = Inr (- 2, s')"
    by auto
  then have ra: "returned (load_ags amd_partial_first (amd_initial fresh_os)) = Some (- 2)"
    by (auto simp: returned_def)
  from t i have "\<exists>s'. load_igcl intel_partial_first (intel_initial fresh_os) = Inr (- 2, s')"
    by auto
  then have ri: "returned (load_igcl intel_partial_first (intel_initial fresh_os)) = Some (- 2)"
    by (auto simp: returned_def)
  from n a i rn ra ri show ?thesis by simp
qed

text \<open>
  C6 as stated fails. On a machine where the first candidate path loads a module without
  \<^verbatim>\<open>nvmlShutdown\<close> and the second candidate path would load a complete NVML, the prober
  returns -2 after one load attempt and one \<^verbatim>\<open>FreeLibrary\<close>; \<^verbatim>\<open>gpu_init\<close> returns -1
  and the second candidate path is never attempted.
\<close>

theorem prober_next_candidate_counterexample:
  "nv_LoadLibraryA nv_partial_first (nvml_paths ! 1) = Some 2
   \<and> nv_required (nv_exports nv_partial_first) 2
   \<and> returned (load_nvml nv_partial_first (nv_initial fresh_os)) = Some (- 2)
   \<and> trace (nv_os (state_after (nv_initial fresh_os)
        (load_nvml nv_partial_first (nv_initial fresh_os))))
      = [EvLoadLibrary (nvml_paths ! 0), EvFreeLibrary 1]
   \<and> returned (nv_gpu_init nv_partial_first (nv_initial fresh_os)) = Some (- 1)
   \<and> trace (nv_os (nv_after_init nv_partial_first))
      = [EvLoadLibrary (nvml_paths ! 0), EvFreeLibrary 1]"
  by (simp add: nv_eval nv_partial_first_def nv_required_def)

text \<open>
  C5. A statistics query should call through a function pointer only if the probe made
  sure that it was resolved. The code does not: \<^verbatim>\<open>load_nvml\<close> accepts a library without
  \<^verbatim>\<open>nvmlDeviceGetTemperature\<close> (and without \<^verbatim>\<open>nvmlDeviceGetPowerUsage\<close>), \<^verbatim>\<open>gpu_init\<close>
  returns 0, and \<^verbatim>\<open>gpu_get_info_json\<close> then calls the \<^verbatim>\<open>NULL\<close> pointer for the first
  device.
\<close>

theorem nvidia_calls_unresolved_temperature:
  "nv_required (nv_exports nv_no_temperature) 1
   \<and> returned (nv_gpu_init nv_no_temperature (nv_initial fresh_os)) = Some 0
   \<and> nvmlDeviceGetTemperature (nv_after_init nv_no_temperature) = NullFn
   \<and> nv_gpu_get_info_json nv_no_temperature (nv_after_init nv_no_temperature)
      = Inl (NullCall ''nvmlDeviceGetTemperature'')"
  by (simp add: nv_eval nv_no_temperature_def nv_required_def)

text \<open>
  C4. When the vendor probe and the counter probe both fail, \<^verbatim>\<open>gpu_get_count\<close> should
  return the sentinel (the headers say -1 on error) and \<^verbatim>\<open>gpu_get_info_json\<close> should
  return \<^verbatim>\<open>NULL\<close>. The code does not: after a \<^verbatim>\<open>gpu_init\<close> that returned -1, the AMD and
  the Intel \<^verbatim>\<open>gpu_get_count\<close> return 1 and \<^verbatim>\<open>gpu_get_info_json\<close> returns a document with
  one record of made-up values; only \<^verbatim>\<open>gpu_get_usage\<close> returns -1.
\<close>

theorem failed_init_still_reports_one_gpu:
  "returned (amd_gpu_init amd_nothing (amd_initial fresh_os)) = Some (- 1)
   \<and> amd_gpu_get_count (amd_after_init amd_nothing) = 1
   \<and> document (amd_gpu_get_info_json amd_nothing (amd_after_init amd_nothing))
      = Some [Open, Rec \<lparr>index = 0, name = ''Radeon'', gpu_utilization = 0,
          memory_utilization = 0, memory_total = 8589934592, memory_used = 0,
          memory_free = 8589934592, temperature = 0, power_usage = 0\<rparr>, Close]
   \<and> returned (amd_gpu_get_usage amd_nothing (amd_after_init amd_nothing)) = Some (- 1)
   \<and> returned (intel_gpu_init intel_nothing (intel_initial fresh_os)) = Some (- 1)
   \<and> returned (intel_gpu_get_count intel_nothing (intel_after_init intel_nothing)) = Some 1
   \<and> document (intel_gpu_get_info_json intel_nothing (intel_after_init intel_nothing))
      = Some [Open, Rec \<lparr>index = 0, name = ''Intel(R) UHD Graphics'', gpu_utilization = 0,
          memory_utilization = 0, memory_total = 4294967296, memory_used = 0,
          memory_free = 4294967296, temperature = 0, power_usage = 0\<rparr>, Close]
   \<and> returned (intel_gpu_get_usage intel_nothing (intel_after_init intel_nothing))
      = Some (- 1)"
  by (simp add: amd_eval intel_eval)

subsection \<open>Opening the performance counters\<close>

lemma init_performance_counters_outcome:
  fixes s :: "('a) perf_state_scheme"
  obtains (failed) rc q m w where "rc \<noteq> 0"
      "init_performance_counters gp mp E s =
         Inr (rc, s\<lparr>query_handle := q, gpu_memory_counter := m, sys := w\<rparr>)"
      "q = None \<or> (q = query_handle s \<and> m = gpu_memory_counter s)"
      "modules w = modules (sys s)" "queries w = queries (sys s)"
  | (ready) q u m w where
      "init_performance_counters gp mp E s =
         Inr (0, s\<lparr>query_handle := Some q, gpu_util_counter := Some u, gpu_memory_counter := m,
                   perf_counters_initialized := True, sys := w\<rparr>)"
      "modules w = modules (sys s)" "queries w = q # queries (sys s)"
proof (cases "ans_PdhOpenQueryA E")
  case None
  then have "init_performance_counters gp mp E s =
      Inr (- 1, s\<lparr>query_handle := query_handle s, gpu_memory_counter := gpu_memory_counter s,
                  sys := emit EvOpenQuery (sys s)\<rparr>)"
    by (simp add: init_performance_counters_def)
  then show thesis by (rule failed [rotated]) simp_all
next
  case (Some q)
  show thesis
  proof (cases "first_counter (ans_PdhAddCounterA_util E) gp")
    case None
    with Some have "init_performance_counters gp mp E s =
      Inr (- 2, s\<lparr>query_handle := None,
         gpu_memory_counter := (case first_counter (ans_PdhAddCounterA_memory E) mp of
            None \<Rightarrow> gpu_memory_counter s | Some c \<Rightarrow> Some c),
         sys := (emit (EvCloseQuery q) (emit EvOpenQuery (sys s)))\<lparr>queries := queries (sys s)\<rparr>\<rparr>)"
      by (simp add: init_performance_counters_def Let_def PdhCloseQuery_def split: option.splits)
    then show thesis by (rule failed [rotated]) simp_all
  next
    case (Some u)
    with \<open>ans_PdhOpenQueryA E = Some q\<close> have "init_performance_counters gp mp E s =
      Inr (0, s\<lparr>query_handle := Some q, gpu_util_counter := Some u,
         gpu_memory_counter := (case first_counter (ans_PdhAddCounterA_memory E) mp of
            None \<Rightarrow> gpu_memory_counter s | Some c \<Rightarrow> Some c),
         perf_counters_initialized := True,
         sys := emit (EvCollect q) ((emit EvOpenQuery (sys s))\<lparr>queries := q # queries (sys s)\<rparr>)\<rparr>)"
      by (simp add: init_performance_counters_def Let_def split: option.splits)
    then show thesis by (rule ready) simp_all
  qed
qed

subsection \<open>Initialisation and shutdown keep the handles consistent\<close>

lemma held_simps [simp]: "held None hs" "held (Some h) hs \<longleftrightarrow> h \<in> set hs"
  by (simp_all add: held_def)

lemma release_simps [simp]: "release None hs = hs" "release (Some h) hs = remove1 h hs"
  by (simp_all add: release_def)

lemma callable_simps [simp]: "\<not> callable NullFn w" "callable (Fn h) w \<longleftrightarrow> h \<in> set (modules w)"
  by (simp_all add: callable_def)

lemma perf_flag_same:
  fixes s :: "('a) perf_state_scheme"
  shows "\<not> perf_counters_initialized s \<Longrightarrow> s\<lparr>perf_counters_initialized := False\<rparr> = s"
  by (cases s) simp

text \<open>NVIDIA\<close>

lemma nv_gpu_init_live:
  assumes "nv_gpu_init E s = Inr (rc, s')"
  shows "nv_live s'"
proof (cases "rc = 0")
  case True
  with assms nv_gpu_init_ok [of E s s'] show ?thesis
    by (auto simp: nv_live_def)
next
  case False
  with assms nv_gpu_init_failed [of E s rc s'] show ?thesis
    by (simp add: nv_live_def)
qed

lemma nv_shutdown_live:
  assumes "nv_live s"
  shows "\<exists>s'. nv_gpu_shutdown s = Inr s' \<and> nv_released s' \<and> nv_gpu_shutdown s' = Inr s'
           \<and> modules (nv_os s') = release (nvml_lib s) (modules (nv_os s))
           \<and> queries (nv_os s') = queries (nv_os s)"
proof (cases "nvml_lib s")
  case None
  then show ?thesis
    by (simp add: nv_gpu_shutdown_def unload_nvml_def nv_released_def)
next
  case (Some h)
  with assms have h: "h \<in> set (modules (nv_os s))"
    and c: "nvmlShutdown s = NullFn \<or> callable (nvmlShutdown s) (nv_os s)"
    by (simp_all add: nv_live_def)
  from c show ?thesis
  proof
    assume "nvmlShutdown s = NullFn"
    with Some h show ?thesis
      by (simp add: nv_gpu_shutdown_def unload_nvml_def nv_released_def FreeLibrary_def)
  next
    assume "callable (nvmlShutdown s) (nv_os s)"
    then have "nvmlShutdown s \<noteq> NullFn"
      "call_fptr ''nvmlShutdown'' (nvmlShutdown s) (nv_os s) = Inr (emit (EvCall ''nvmlShutdown'') (nv_os s))"
      by (auto simp: call_fptr_callable)
    with Some h show ?thesis
      by (simp add: nv_gpu_shutdown_def unload_nvml_def nv_released_def FreeLibrary_def)
  qed
qed

text \<open>AMD\<close>

lemma load_ags_outcome:
  obtains (none) w where "load_ags E s = Inr (- 1, s\<lparr>sys := w, ags_lib := None\<rparr>)"
      "modules w = modules (sys s)" "queries w = queries (sys s)"
  | (incomplete) h w where
      "load_ags E s = Inr (- 2, (ags_resolved (ans_GetProcAddress E) h s)\<lparr>sys := w, ags_lib := None\<rparr>)"
      "modules w = modules (sys s)" "queries w = queries (sys s)"
  | (complete) h w where
      "load_ags E s = Inr (0, (ags_resolved (ans_GetProcAddress E) h s)\<lparr>sys := w, ags_lib := Some h\<rparr>)"
      "modules w = h # modules (sys s)" "queries w = queries (sys s)"
      "ags_required (ans_GetProcAddress E) h"
proof -
  obtain r w where tl: "try_load (ans_LoadLibraryA E) ags_paths (sys s) = (r, w)"
    by (cases "try_load (ans_LoadLibraryA E) ags_paths (sys s)")
  note fr = try_load_frame [OF tl]
  show thesis
  proof (cases r)
    case None
    with tl fr none [of w] show thesis by (simp add: load_ags_None)
  next
    case (Some h)
    show thesis
    proof (cases "ags_required (ans_GetProcAddress E) h")
      case True
      from load_ags_complete [OF tl [unfolded Some] True] fr Some True complete [where h = h and w = w]
      show thesis by simp
    next
      case False
      from load_ags_incomplete [OF tl [unfolded Some] False] fr Some
        incomplete [where h = h and w = "(emit (EvFreeLibrary h) w)\<lparr>modules := modules (sys s)\<rparr>"]
      show thesis by simp
    qed
  qed
qed

lemma perf_init_total:
  fixes s1 :: "('a) perf_state_scheme"
  shows "\<not> faults (bindF (init_performance_counters gp mp E s1)
            (\<lambda>(rc2, s3). if rc2 = 0 then Inr (0 :: int, s3) else Inr (- 1, s3)))"
  by (cases rule: init_performance_counters_outcome [of gp mp E s1]) simp_all

lemma amd_perf_init_live:
  fixes s1 :: amd_state
  assumes r: "bindF (init_performance_counters gp mp E s1)
            (\<lambda>(rc2, s3). if rc2 = 0 then Inr (0 :: int, s3) else Inr (- 1, s3)) = Inr (rc, s')"
    and "held (ags_lib s1) (modules (sys s1))" "held (query_handle s1) (queries (sys s1))"
    "\<not> ags_initialized s1 \<or> ags_context s1 = None \<or> callable (agsDeInitialize s1) (sys s1)"
  shows "amd_live s'"
proof (cases rule: init_performance_counters_outcome [of gp mp E s1])
  case (failed rc q m w)
  with assms show ?thesis by (auto simp: amd_live_def callable_def split: fptr.splits)
next
  case (ready q u m w)
  with assms show ?thesis by (auto simp: amd_live_def callable_def split: fptr.splits)
qed

lemma amd_gpu_init_total: "\<not> faults (amd_gpu_init E s)"
proof (cases rule: load_ags_outcome [of E s])
  case (none w)
  then show ?thesis by (simp add: amd_gpu_init_def perf_init_total)
next
  case (incomplete h w)
  then show ?thesis by (simp add: amd_gpu_init_def perf_init_total)
next
  case (complete h w)
  obtain code ctx info where a: "ans_agsInitialize E = (code, ctx, info)"
    by (cases "ans_agsInitialize E")
  from complete ags_resolved_required [of "ans_GetProcAddress E" h s]
  have i: "agsInitialize (ags_resolved (ans_GetProcAddress E) h s) = Fn h" by simp
  with complete a show ?thesis
    by (simp add: amd_gpu_init_def call_fptr_def perf_init_total)
qed

lemma amd_gpu_init_live:
  assumes rel: "amd_released s" and r: "amd_gpu_init E s = Inr (rc, s')"
  shows "amd_live s'"
proof (cases rule: load_ags_outcome [of E s])
  case (none w)
  from r rel none(2,3) show ?thesis
    unfolding amd_gpu_init_def none(1)
    apply simp
    apply (erule amd_perf_init_live)
      apply (simp_all add: amd_released_def)
    done
next
  case (incomplete h w)
  from r rel incomplete(2,3) show ?thesis
    unfolding amd_gpu_init_def incomplete(1)
    apply simp
    apply (erule amd_perf_init_live)
      apply (simp_all add: amd_released_def)
    done
next
  case (complete h w)
  obtain code ctx info where a: "ans_agsInitialize E = (code, ctx, info)"
    by (cases "ans_agsInitialize E")
  from complete ags_resolved_required [of "ans_GetProcAddress E" h s]
  have i: "agsInitialize (ags_resolved (ans_GetProcAddress E) h s) = Fn h"
    "agsDeInitialize (ags_resolved (ans_GetProcAddress E) h s) = Fn h" by simp_all
  show ?thesis
  proof (cases "code = AGS_SUCCESS")
    case True
    with complete a i r rel show ?thesis
      by (auto simp: amd_gpu_init_def call_fptr_def amd_live_def amd_released_def)
  next
    case False
    from r rel complete(2,3) show ?thesis
      unfolding amd_gpu_init_def complete(1)
      apply (simp add: i a False call_fptr_def)
      apply (erule amd_perf_init_live)
        apply (simp_all add: amd_released_def i)
      done
  qed
qed

lemma amd_shutdown_released:
  assumes "amd_released s"
  shows "amd_gpu_shutdown s = Inr s"
  using assms
  by (auto simp: amd_gpu_shutdown_def unload_ags_def cleanup_performance_counters_def
      amd_released_def perf_flag_same)

lemma amd_shutdown_live:
  assumes "amd_live s"
  shows "\<exists>s'. amd_gpu_shutdown s = Inr s' \<and> amd_released s'
           \<and> modules (sys s') = release (ags_lib s) (modules (sys s))
           \<and> queries (sys s') = release (query_handle s) (queries (sys s))"
proof -
  from assms have l: "held (ags_lib s) (modules (sys s))"
    and q: "held (query_handle s) (queries (sys s))"
    and d: "\<not> ags_initialized s \<or> ags_context s = None \<or> callable (agsDeInitialize s) (sys s)"
    by (simp_all add: amd_live_def)
  have "\<exists>s1. unload_ags s = Inr s1 \<and> ags_lib s1 = None
      \<and> (\<not> ags_initialized s1 \<or> ags_context s1 = None)
      \<and> query_handle s1 = query_handle s \<and> queries (sys s1) = queries (sys s)
      \<and> modules (sys s1) = release (ags_lib s) (modules (sys s))"
  proof (cases "ags_initialized s \<and> ags_context s \<noteq> None")
    case True
    with d have c: "callable (agsDeInitialize s) (sys s)" by simp
    then have n: "agsDeInitialize s \<noteq> NullFn" by auto
    from True c n l show ?thesis
      by (cases "ags_lib s")
         (simp_all add: unload_ags_def call_fptr_callable FreeLibrary_def)
  next
    case False
    with l show ?thesis
      by (cases "ags_lib s") (auto simp: unload_ags_def FreeLibrary_def)
  qed
  then obtain s1 where s1: "unload_ags s = Inr s1" "ags_lib s1 = None"
      "\<not> ags_initialized s1 \<or> ags_context s1 = None"
      "query_handle s1 = query_handle s" "queries (sys s1) = queries (sys s)"
      "modules (sys s1) = release (ags_lib s) (modules (sys s))"
    by blast
  with q show ?thesis
    by (cases "query_handle s")
       (auto simp: amd_gpu_shutdown_def cleanup_performance_counters_def PdhCloseQuery_def
          amd_released_def)
qed


text \<open>Intel\<close>

lemma load_igcl_outcome:
  obtains (none) w where "load_igcl E s = Inr (- 1, s\<lparr>sys := w, igcl_lib := None\<rparr>)"
      "modules w = modules (sys s)" "queries w = queries (sys s)"
  | (incomplete) h w where
      "load_igcl E s =
         Inr (- 2, (igcl_resolved (ans_GetProcAddress E) h s)\<lparr>sys := w, igcl_lib := None\<rparr>)"
      "modules w = modules (sys s)" "queries w = queries (sys s)"
  | (complete) h w where
      "load_igcl E s =
         Inr (0, (igcl_resolved (ans_GetProcAddress E) h s)\<lparr>sys := w, igcl_lib := Some h\<rparr>)"
      "modules w = h # modules (sys s)" "queries w = queries (sys s)"
      "igcl_required (ans_GetProcAddress E) h"
proof -
  obtain r w where tl: "try_load (ans_LoadLibraryA E) igcl_paths (sys s) = (r, w)"
    by (cases "try_load (ans_LoadLibraryA E) igcl_paths (sys s)")
  note fr = try_load_frame [OF tl]
  show thesis
  proof (cases r)
    case None
    with tl fr none [of w] show thesis by (simp add: load_igcl_None)
  next
    case (Some h)
    show thesis
    proof (cases "igcl_required (ans_GetProcAddress E) h")
      case True
      from load_igcl_complete [OF tl [unfolded Some] True] fr Some True
        complete [where h = h and w = w]
      show thesis by simp
    next
      case False
      from load_igcl_incomplete [OF tl [unfolded Some] False] fr Some
        incomplete [where h = h and w = "(emit (EvFreeLibrary h) w)\<lparr>modules := modules (sys s)\<rparr>"]
      show thesis by simp
    qed
  qed
qed

lemma intel_perf_init_live:
  fixes s1 :: intel_state
  assumes r: "bindF (init_performance_counters gp mp E s1)
            (\<lambda>(rc2, s3). if rc2 = 0 then Inr (0 :: int, s3) else Inr (- 1, s3)) = Inr (rc, s')"
    and "held (igcl_lib s1) (modules (sys s1))" "held (query_handle s1) (queries (sys s1))"
    "\<not> igcl_initialized s1 \<or> callable (igcl_shutdown s1) (sys s1)"
  shows "intel_live s'"
proof (cases rule: init_performance_counters_outcome [of gp mp E s1])
  case (failed rc q m w)
  with assms show ?thesis by (auto simp: intel_live_def callable_def split: fptr.splits)
next
  case (ready q u m w)
  with assms show ?thesis by (auto simp: intel_live_def callable_def split: fptr.splits)
qed

lemma intel_gpu_init_total: "\<not> faults (intel_gpu_init E s)"
proof (cases rule: load_igcl_outcome [of E s])
  case (none w)
  then show ?thesis by (simp add: intel_gpu_init_def perf_init_total)
next
  case (incomplete h w)
  then show ?thesis by (simp add: intel_gpu_init_def perf_init_total)
next
  case (complete h w)
  from complete igcl_resolved_required [of "ans_GetProcAddress E" h s]
  have i: "igcl_init (igcl_resolved (ans_GetProcAddress E) h s) = Fn h" by simp
  with complete show ?thesis
    by (simp add: intel_gpu_init_def call_fptr_def perf_init_total)
qed

lemma intel_gpu_init_live:
  assumes rel: "intel_released s" and r: "intel_gpu_init E s = Inr (rc, s')"
  shows "intel_live s'"
proof (cases rule: load_igcl_outcome [of E s])
  case (none w)
  from r rel none(2,3) show ?thesis
    unfolding intel_gpu_init_def none(1)
    apply simp
    apply (erule intel_perf_init_live)
      apply (simp_all add: intel_released_def)
    done
next
  case (incomplete h w)
  from r rel incomplete(2,3) show ?thesis
    unfolding intel_gpu_init_def incomplete(1)
    apply simp
    apply (erule intel_perf_init_live)
      apply (simp_all add: intel_released_def)
    done
next
  case (complete h w)
  from complete igcl_resolved_required [of "ans_GetProcAddress E" h s]
  have i: "igcl_init (igcl_resolved (ans_GetProcAddress E) h s) = Fn h"
    "igcl_shutdown (igcl_resolved (ans_GetProcAddress E) h s) = Fn h" by simp_all
  show ?thesis
  proof (cases "ans_igcl_init E = IGCL_SUCCESS")
    case True
    with complete i r rel show ?thesis
      by (auto simp: intel_gpu_init_def call_fptr_def intel_live_def intel_released_def)
  next
    case False
    from r rel complete(2,3) show ?thesis
      unfolding intel_gpu_init_def complete(1)
      apply (simp add: i False call_fptr_def)
      apply (erule intel_perf_init_live)
        apply (simp_all add: intel_released_def i)
      done
  qed
qed

lemma intel_shutdown_released:
  assumes "intel_released s"
  shows "intel_gpu_shutdown s = Inr s"
  using assms
  by (auto simp: intel_gpu_shutdown_def unload_igcl_def cleanup_performance_counters_def
      intel_released_def perf_flag_same)

lemma intel_shutdown_live:
  assumes "intel_live s"
  shows "\<exists>s'. intel_gpu_shutdown s = Inr s' \<and> intel_released s'
           \<and> modules (sys s') = release (igcl_lib s) (modules (sys s))
           \<and> queries (sys s') = release (query_handle s) (queries (sys s))"
proof -
  from assms have l: "held (igcl_lib s) (modules (sys s))"
    and q: "held (query_handle s) (queries (sys s))"
    and d: "\<not> igcl_initialized s \<or> callable (igcl_shutdown s) (sys s)"
    by (simp_all add: intel_live_def)
  have "\<exists>s1. unload_igcl s = Inr s1 \<and> igcl_lib s1 = None \<and> \<not> igcl_initialized s1
      \<and> query_handle s1 = query_handle s \<and> queries (sys s1) = queries (sys s)
      \<and> modules (sys s1) = release (igcl_lib s) (modules (sys s))"
  proof (cases "igcl_initialized s")
    case True
    with d have c: "callable (igcl_shutdown s) (sys s)" by simp
    then have n: "igcl_shutdown s \<noteq> NullFn" by auto
    from True c n l show ?thesis
      by (cases "igcl_lib s")
         (simp_all add: unload_igcl_def call_fptr_callable FreeLibrary_def)
  next
    case False
    with l show ?thesis
      by (cases "igcl_lib s") (auto simp: unload_igcl_def FreeLibrary_def)
  qed
  then obtain s1 where s1: "unload_igcl s = Inr s1" "igcl_lib s1 = None"
      "\<not> igcl_initialized s1"
      "query_handle s1 = query_handle s" "queries (sys s1) = queries (sys s)"
      "modules (sys s1) = release (igcl_lib s) (modules (sys s))"
    by blast
  with q show ?thesis
    by (cases "query_handle s")
       (auto simp: intel_gpu_shutdown_def cleanup_performance_counters_def PdhCloseQuery_def
          intel_released_def)
qed

text \<open>
  C9. \<^verbatim>\<open>gpu_shutdown\<close> is safe and idempotent. In every state whose handles are held by
  the process (the state before any \<^verbatim>\<open>gpu_init\<close>, and every state that \<^verbatim>\<open>gpu_init\<close>
  leaves, whatever it returned), \<^verbatim>\<open>gpu_shutdown\<close> does not fault: it releases the library
  handle and the counter query once each and leaves a released state, in which the library
  handle and the query handle are \<^verbatim>\<open>NULL\<close>. Called again in that state it does nothing: no
  handle is released twice.
\<close>

theorem shutdown_idempotent_and_safe:
  "(nv_live sN \<longrightarrow>
      (\<exists>s'. nv_gpu_shutdown sN = Inr s' \<and> nv_released s' \<and> nv_gpu_shutdown s' = Inr s'
         \<and> modules (nv_os s') = release (nvml_lib sN) (modules (nv_os sN))))
   \<and> (amd_live sA \<longrightarrow>
      (\<exists>s'. amd_gpu_shutdown sA = Inr s' \<and> amd_released s' \<and> amd_gpu_shutdown s' = Inr s'
         \<and> modules (sys s') = release (ags_lib sA) (modules (sys sA))
         \<and> queries (sys s') = release (query_handle sA) (queries (sys sA))))
   \<and> (intel_live sI \<longrightarrow>
      (\<exists>s'. intel_gpu_shutdown sI = Inr s' \<and> intel_released s' \<and> intel_gpu_shutdown s' = Inr s'
         \<and> modules (sys s') = release (igcl_lib sI) (modules (sys sI))
         \<and> queries (sys s') = release (query_handle sI) (queries (sys sI))))
   \<and> nv_released (nv_initial w) \<and> amd_released (amd_initial w)
   \<and> intel_released (intel_initial w)
   \<and> (nv_released tN \<longrightarrow> nv_live tN) \<and> (amd_released tA \<longrightarrow> amd_live tA)
   \<and> (intel_released tI \<longrightarrow> intel_live tI)
   \<and> \<not> faults (nv_gpu_init EN uN) \<and> \<not> faults (amd_gpu_init EA uA)
   \<and> \<not> faults (intel_gpu_init EI uI)
   \<and> (nv_gpu_init EN uN = Inr (rcN, vN) \<longrightarrow> nv_live vN)
   \<and> (amd_released uA \<and> amd_gpu_init EA uA = Inr (rcA, vA) \<longrightarrow> amd_live vA)
   \<and> (intel_released uI \<and> intel_gpu_init EI uI = Inr (rcI, vI) \<longrightarrow> intel_live vI)"
proof -
  have n: "\<exists>s'. nv_gpu_shutdown sN = Inr s' \<and> nv_released s' \<and> nv_gpu_shutdown s' = Inr s'
         \<and> modules (nv_os s') = release (nvml_lib sN) (modules (nv_os sN))" if "nv_live sN"
    using nv_shutdown_live [OF that] by blast
  have a: "\<exists>s'. amd_gpu_shutdown sA = Inr s' \<and> amd_released s' \<and> amd_gpu_shutdown s' = Inr s'
         \<and> modules (sys s') = release (ags_lib sA) (modules (sys sA))
         \<and> queries (sys s') = release (query_handle sA) (queries (sys sA))" if "amd_live sA"
    using amd_shutdown_live [OF that] amd_shutdown_released by blast
  have i: "\<exists>s'. intel_gpu_shutdown sI = Inr s' \<and> intel_released s' \<and> intel_gpu_shutdown s' = Inr s'
         \<and> modules (sys s') = release (igcl_lib sI) (modules (sys sI))
         \<and> queries (sys s') = release (query_handle sI) (queries (sys sI))" if "intel_live sI"
    using intel_shutdown_live [OF that] intel_shutdown_released by blast
  have r: "nv_released (nv_initial w)" "amd_released (amd_initial w)"
    "intel_released (intel_initial w)"
    by (simp_all add: nv_released_def nv_initial_def amd_released_def amd_initial_def
        intel_released_def intel_initial_def)
  have l: "nv_released tN \<longrightarrow> nv_live tN" "amd_released tA \<longrightarrow> amd_live tA"
    "intel_released tI \<longrightarrow> intel_live tI"
    by (auto simp: nv_released_def nv_live_def amd_released_def amd_live_def
        intel_released_def intel_live_def)
  show ?thesis
    using n a i r l nv_gpu_init_total amd_gpu_init_total intel_gpu_init_total
      nv_gpu_init_live amd_gpu_init_live intel_gpu_init_live
    by blast
qed

theorem shutdown_idempotent_and_safe_witness:
  "nv_live (nv_after_init nv_machine)
   \<and> (\<exists>s'. nv_gpu_shutdown (nv_after_init nv_machine) = Inr s' \<and> nv_released s'
         \<and> nv_gpu_shutdown s' = Inr s' \<and> modules (nv_os s') = [])
   \<and> amd_live (amd_after_init amd_no_library)
   \<and> (\<exists>s'. amd_gpu_shutdown (amd_after_init amd_no_library) = Inr s' \<and> amd_released s'
         \<and> amd_gpu_shutdown s' = Inr s' \<and> queries (sys s') = [])
   \<and> intel_live (intel_after_init intel_machine)
   \<and> (\<exists>s'. intel_gpu_shutdown (intel_after_init intel_machine) = Inr s' \<and> intel_released s'
         \<and> intel_gpu_shutdown s' = Inr s' \<and> modules (sys s') = [])
   \<and> nv_released (nv_initial fresh_os) \<and> nv_live (nv_initial fresh_os)
   \<and> amd_released (amd_initial fresh_os) \<and> amd_live (amd_initial fresh_os)
   \<and> intel_released (intel_initial fresh_os) \<and> intel_live (intel_initial fresh_os)
   \<and> nv_gpu_init nv_machine (nv_initial fresh_os) = Inr (0, nv_after_init nv_machine)
   \<and> amd_gpu_init amd_no_library (amd_initial fresh_os)
       = Inr (0, amd_after_init amd_no_library)
   \<and> intel_gpu_init intel_machine (intel_initial fresh_os)
       = Inr (0, intel_after_init intel_machine)"
proof -
  have "returned (nv_gpu_init nv_machine (nv_initial fresh_os)) = Some 0"
    by (simp add: nv_eval)
  then have iN: "nv_gpu_init nv_machine (nv_initial fresh_os) = Inr (0, nv_after_init nv_machine)"
    unfolding nv_after_init_def by (rule returned_state)
  have "returned (amd_gpu_init amd_no_library (amd_initial fresh_os)) = Some 0"
    by (simp add: amd_eval)
  then have iA: "amd_gpu_init amd_no_library (amd_initial fresh_os)
      = Inr (0, amd_after_init amd_no_library)"
    unfolding amd_after_init_def by (rule returned_state)
  have "returned (intel_gpu_init intel_machine (intel_initial fresh_os)) = Some 0"
    by (simp add: intel_eval)
  then have iI: "intel_gpu_init intel_machine (intel_initial fresh_os)
      = Inr (0, intel_after_init intel_machine)"
    unfolding intel_after_init_def by (rule returned_state)
  have mN: "nvml_lib (nv_after_init nv_machine) = Some 1"
    "modules (nv_os (nv_after_init nv_machine)) = [1]"
    by (simp_all add: nv_eval)
  have mA: "query_handle (amd_after_init amd_no_library) = Some 10"
    "queries (sys (amd_after_init amd_no_library)) = [10]"
    by (simp_all add: amd_eval)
  have mI: "igcl_lib (intel_after_init intel_machine) = Some 1"
    "modules (sys (intel_after_init intel_machine)) = [1]"
    by (simp_all add: intel_eval)
  note t = shutdown_idempotent_and_safe [where sN = "nv_after_init nv_machine"
      and sA = "amd_after_init amd_no_library" and sI = "intel_after_init intel_machine"
      and w = fresh_os and tN = "nv_initial fresh_os" and tA = "amd_initial fresh_os"
      and tI = "intel_initial fresh_os" and EN = nv_machine and uN = "nv_initial fresh_os"
      and EA = amd_no_library and uA = "amd_initial fresh_os" and EI = intel_machine
      and uI = "intel_initial fresh_os" and rcN = 0 and vN = "nv_after_init nv_machine"
      and rcA = 0 and vA = "amd_after_init amd_no_library" and rcI = 0
      and vI = "intel_after_init intel_machine"]
  from t iN iA iI have live: "nv_live (nv_after_init nv_machine)"
    "amd_live (amd_after_init amd_no_library)" "intel_live (intel_after_init intel_machine)"
    "nv_released (nv_initial fresh_os)" "nv_live (nv_initial fresh_os)"
    "amd_released (amd_initial fresh_os)" "amd_live (amd_initial fresh_os)"
    "intel_released (intel_initial fresh_os)" "intel_live (intel_initial fresh_os)"
    by blast+
  from t live mN have sN: "\<exists>s'. nv_gpu_shutdown (nv_after_init nv_machine) = Inr s'
      \<and> nv_released s' \<and> nv_gpu_shutdown s' = Inr s' \<and> modules (nv_os s') = []"
    by auto
  from t live mA have sA: "\<exists>s'. amd_gpu_shutdown (amd_after_init amd_no_library) = Inr s'
      \<and> amd_released s' \<and> amd_gpu_shutdown s' = Inr s' \<and> queries (sys s') = []"
    by auto
  from t live mI have sI: "\<exists>s'. intel_gpu_shutdown (intel_after_init intel_machine) = Inr s'
      \<and> intel_released s' \<and> intel_gpu_shutdown s' = Inr s' \<and> modules (sys s') = []"
    by auto
  from live sN sA sI iN iA iI show ?thesis by blast
qed

subsection \<open>Queries change nothing but the record of calls\<close>

lemma with_trace_fields [simp]:
  "query_handle (with_trace evs s) = query_handle s"
  "gpu_util_counter (with_trace evs s) = gpu_util_counter s"
  "gpu_memory_counter (with_trace evs s) = gpu_memory_counter s"
  "perf_counters_initialized (with_trace evs s) = perf_counters_initialized s"
  "modules (sys (with_trace evs s)) = modules (sys s)"
  "queries (sys (with_trace evs s)) = queries (sys s)"
  "trace (sys (with_trace evs s)) = trace (sys s) @ evs"
  "perf_state.more (with_trace evs s) = perf_state.more s"
  by (simp_all add: with_trace_def)

lemma with_trace_amd [simp]:
  fixes s :: amd_state
  shows "ags_lib (with_trace evs s) = ags_lib s"
    "agsInitialize (with_trace evs s) = agsInitialize s"
    "agsDeInitialize (with_trace evs s) = agsDeInitialize s"
    "agsGetGPUMemoryUsage (with_trace evs s) = agsGetGPUMemoryUsage s"
    "agsGetVersionNumber (with_trace evs s) = agsGetVersionNumber s"
    "ags_context (with_trace evs s) = ags_context s"
    "gpu_info (with_trace evs s) = gpu_info s"
    "ags_initialized (with_trace evs s) = ags_initialized s"
  by (simp_all add: with_trace_def)

lemma with_trace_intel [simp]:
  fixes s :: intel_state
  shows "igcl_lib (with_trace evs s) = igcl_lib s"
    "igcl_init (with_trace evs s) = igcl_init s"
    "igcl_shutdown (with_trace evs s) = igcl_shutdown s"
    "igcl_get_device_count (with_trace evs s) = igcl_get_device_count s"
    "igcl_get_device_info (with_trace evs s) = igcl_get_device_info s"
    "igcl_get_device_stats (with_trace evs s) = igcl_get_device_stats s"
    "igcl_initialized (with_trace evs s) = igcl_initialized s"
  by (simp_all add: with_trace_def)

lemma with_trace_Nil [simp]: "with_trace [] s = s"
  by (simp add: with_trace_def)

lemma with_trace_append [simp]: "with_trace e2 (with_trace e1 s) = with_trace (e1 @ e2) s"
  by (simp add: with_trace_def)

lemma with_trace_emit: "s\<lparr>sys := emit e (sys s)\<rparr> = with_trace [e] s"
  by (simp add: with_trace_def emit_def)

lemma callable_with_trace [simp]: "callable p (sys (with_trace evs s)) = callable p (sys s)"
  by (simp add: callable_def split: fptr.splits)

lemma perf_util_frame:
  assumes "get_gpu_utilization_perf_counter smp s = Inr (v, s')"
  shows "\<exists>evs. s' = with_trace evs s \<and> list_all is_collect evs"
proof (cases "query_handle s")
  case None
  with assms have "s' = with_trace [] s"
    by (simp add: get_gpu_utilization_perf_counter_def)
  then show ?thesis by (intro exI [of _ "[]"]) simp
next
  case (Some q)
  show ?thesis
  proof (cases "perf_counters_initialized s")
    case False
    with assms Some have "s' = with_trace [] s"
      by (simp add: get_gpu_utilization_perf_counter_def)
    then show ?thesis by (intro exI [of _ "[]"]) simp
  next
    case True
    with assms Some have "s' = with_trace [EvCollect q] s"
      by (auto simp: get_gpu_utilization_perf_counter_def Let_def with_trace_emit bindF_Inr_iff
          split: if_splits)
    then show ?thesis by (intro exI [of _ "[EvCollect q]"]) simp
  qed
qed

lemma float_to_int_fault: "float_to_int x = Inl f \<Longrightarrow> f = FloatToInt"
  by (auto simp: float_to_int_def Let_def split: if_splits)

lemma bindF_Inl_iff: "bindF m k = Inl f \<longleftrightarrow> m = Inl f \<or> (\<exists>x. m = Inr x \<and> k x = Inl f)"
  by (cases m) simp_all

lemma perf_util_fault:
  assumes "get_gpu_utilization_perf_counter smp s = Inl f"
  shows "f = FloatToInt"
  using assms
  by (auto simp: get_gpu_utilization_perf_counter_def Let_def bindF_Inl_iff
      dest: float_to_int_fault split: option.splits if_splits)

lemma is_collect_query_event: "list_all is_collect evs \<Longrightarrow> list_all is_query_event evs"
proof (induction evs)
  case Nil
  then show ?case by simp
next
  case (Cons e evs)
  then show ?case by (cases e) simp_all
qed

lemma only_calls_refl [simp]: "only_calls v s s"
  unfolding only_calls_def by (rule exI [of _ "[]"]) simp

lemma only_calls_trans:
  assumes "only_calls v s s1" "only_calls v s1 s2"
  shows "only_calls v s s2"
proof -
  from assms(1) obtain e1 where e1: "s1 = with_trace e1 s" "list_all is_query_event e1"
    "\<not> v \<longrightarrow> list_all is_collect e1"
    unfolding only_calls_def by blast
  from assms(2) obtain e2 where e2: "s2 = with_trace e2 s1" "list_all is_query_event e2"
    "\<not> v \<longrightarrow> list_all is_collect e2"
    unfolding only_calls_def by blast
  from e1 e2 have "s2 = with_trace (e1 @ e2) s \<and> list_all is_query_event (e1 @ e2)
      \<and> (\<not> v \<longrightarrow> list_all is_collect (e1 @ e2))"
    by simp
  then show ?thesis unfolding only_calls_def by blast
qed

lemma only_calls_call: "only_calls True s (s\<lparr>sys := emit (EvCall nm) (sys s)\<rparr>)"
  unfolding only_calls_def with_trace_emit by (rule exI [of _ "[EvCall nm]"]) simp

lemma only_calls_collect: "only_calls v s (s\<lparr>sys := emit (EvCollect q) (sys s)\<rparr>)"
  unfolding only_calls_def with_trace_emit by (rule exI [of _ "[EvCollect q]"]) simp

lemma only_calls_perf:
  assumes "get_gpu_utilization_perf_counter smp s = Inr (x, s')"
  shows "only_calls v s s'"
  using perf_util_frame [OF assms] is_collect_query_event
  unfolding only_calls_def by blast

lemma only_calls_fields:
  assumes "only_calls v s s'"
  shows "query_handle s' = query_handle s" "gpu_util_counter s' = gpu_util_counter s"
    "gpu_memory_counter s' = gpu_memory_counter s"
    "perf_counters_initialized s' = perf_counters_initialized s"
    "modules (sys s') = modules (sys s)" "queries (sys s') = queries (sys s)"
    "perf_state.more s' = perf_state.more s"
  using assms unfolding only_calls_def by auto

lemma only_calls_amd:
  fixes s :: amd_state
  assumes "only_calls v s s'"
  shows "ags_lib s' = ags_lib s" "agsGetGPUMemoryUsage s' = agsGetGPUMemoryUsage s"
    "agsDeInitialize s' = agsDeInitialize s" "ags_context s' = ags_context s"
    "gpu_info s' = gpu_info s" "ags_initialized s' = ags_initialized s"
  using assms unfolding only_calls_def by auto

lemma only_calls_intel:
  fixes s :: intel_state
  assumes "only_calls v s s'"
  shows "igcl_lib s' = igcl_lib s" "igcl_shutdown s' = igcl_shutdown s"
    "igcl_get_device_count s' = igcl_get_device_count s"
    "igcl_get_device_info s' = igcl_get_device_info s"
    "igcl_get_device_stats s' = igcl_get_device_stats s"
    "igcl_initialized s' = igcl_initialized s"
  using assms unfolding only_calls_def by auto

text \<open>AMD\<close>

lemma amd_util_frame:
  assumes "amd_get_gpu_utilization E i s = Inr (x, s')"
  shows "only_calls (ags_initialized s) s s'"
proof (cases "ags_initialized s \<and> agsGetGPUMemoryUsage s \<noteq> NullFn")
  case False
  with assms have "get_gpu_utilization_perf_counter (ans_sample E i) s = Inr (x, s')"
    by (auto simp: amd_get_gpu_utilization_def)
  then show ?thesis by (rule only_calls_perf)
next
  case True
  then have v: "ags_initialized s" by simp
  from assms True obtain w where
    w: "call_fptr ''agsGetGPUMemoryUsage'' (agsGetGPUMemoryUsage s) (sys s) = Inr w"
    by (auto simp: amd_get_gpu_utilization_def bindF_Inr_iff)
  then have w': "w = emit (EvCall ''agsGetGPUMemoryUsage'') (sys s)"
    by (auto simp: call_fptr_Inr)
  have c: "only_calls True s (s\<lparr>sys := w\<rparr>)" unfolding w' by (rule only_calls_call)
  obtain code usage where a: "ans_agsGetGPUMemoryUsage E AtUtilization i = (code, usage)"
    by (cases "ans_agsGetGPUMemoryUsage E AtUtilization i")
  show ?thesis
  proof (cases "code = AGS_SUCCESS")
    case True
    with assms \<open>ags_initialized s \<and> agsGetGPUMemoryUsage s \<noteq> NullFn\<close> w a
    have "s' = s\<lparr>sys := w\<rparr>"
      by (auto simp: amd_get_gpu_utilization_def bindF_Inr_iff)
    with c v show ?thesis by simp
  next
    case False
    with assms \<open>ags_initialized s \<and> agsGetGPUMemoryUsage s \<noteq> NullFn\<close> w a
    have "get_gpu_utilization_perf_counter (ans_sample E i) (s\<lparr>sys := w\<rparr>) = Inr (x, s')"
      by (auto simp: amd_get_gpu_utilization_def)
    then have "only_calls True (s\<lparr>sys := w\<rparr>) s'" by (rule only_calls_perf)
    with c v show ?thesis by (auto intro: only_calls_trans)
  qed
qed

lemma amd_util_fault:
  assumes "\<not> ags_initialized s" "amd_get_gpu_utilization E i s = Inl f"
  shows "f = FloatToInt"
  using assms by (auto simp: amd_get_gpu_utilization_def dest: perf_util_fault)

lemma amd_memory_frame:
  assumes "amd_get_gpu_memory_usage E i s = Inr (x, s')"
  shows "only_calls (ags_initialized s) s s'"
proof (cases "ags_initialized s \<and> agsGetGPUMemoryUsage s \<noteq> NullFn")
  case False
  with assms have "s' = s" by (auto simp: amd_get_gpu_memory_usage_def)
  then show ?thesis by simp
next
  case True
  from assms True obtain w where
    w: "call_fptr ''agsGetGPUMemoryUsage'' (agsGetGPUMemoryUsage s) (sys s) = Inr w"
    by (auto simp: amd_get_gpu_memory_usage_def bindF_Inr_iff)
  then have w': "w = emit (EvCall ''agsGetGPUMemoryUsage'') (sys s)"
    by (auto simp: call_fptr_Inr)
  have c: "only_calls True s (s\<lparr>sys := w\<rparr>)" unfolding w' by (rule only_calls_call)
  from assms True w have "s' = s\<lparr>sys := w\<rparr>"
    by (auto simp: amd_get_gpu_memory_usage_def split: prod.splits if_splits)
  with c True show ?thesis by simp
qed

lemma amd_memory_fallback:
  assumes "\<not> ags_initialized s"
  shows "amd_get_gpu_memory_usage E i s =
     Inr (get_gpu_memory_perf_counter (ans_sample E i) s, s)"
  using assms by (simp add: amd_get_gpu_memory_usage_def)

lemma amd_details_frame:
  assumes "amd_details E i s = Inr (x, s')"
  shows "only_calls (ags_initialized s) s s'"
proof (cases "ags_initialized s \<and> i < numDevices (gpu_info s)
    \<and> agsGetGPUMemoryUsage s \<noteq> NullFn")
  case False
  with assms have "s' = s" by (auto simp: amd_details_def Let_def split: if_splits)
  then show ?thesis by simp
next
  case True
  from assms True obtain w where
    w: "call_fptr ''agsGetGPUMemoryUsage'' (agsGetGPUMemoryUsage s) (sys s) = Inr w"
    by (auto simp: amd_details_def Let_def bindF_Inr_iff split: if_splits)
  then have w': "w = emit (EvCall ''agsGetGPUMemoryUsage'') (sys s)"
    by (auto simp: call_fptr_Inr)
  have c: "only_calls True s (s\<lparr>sys := w\<rparr>)" unfolding w' by (rule only_calls_call)
  from assms True w have "s' = s\<lparr>sys := w\<rparr>"
    by (auto simp: amd_details_def Let_def split: prod.splits if_splits)
  with c True show ?thesis by simp
qed

lemma amd_details_fallback:
  assumes "\<not> ags_initialized s"
  shows "amd_details E i s =
     Inr (((case ans_DriverDesc E of None \<Rightarrow> ''AMD Graphics Card'' | Some n \<Rightarrow> n),
           8 * 1024 * 1024 * 1024, 0, 0), s)"
  using assms by (simp add: amd_details_def)

lemma amd_device_frame:
  assumes "amd_device E i s = Inr (ps, s')"
  shows "only_calls (ags_initialized s) s s'"
proof -
  from assms obtain u s1 g s2 d where
    m: "amd_get_gpu_memory_usage E i s = Inr (u, s1)"
    and g: "amd_get_gpu_utilization E i s1 = Inr (g, s2)"
    and d: "amd_details E i s2 = Inr (d, s')"
    by (auto simp: amd_device_def bindF_Inr_iff split: prod.splits)
  note f1 = amd_memory_frame [OF m]
  note f2 = amd_util_frame [OF g]
  note f3 = amd_details_frame [OF d]
  from only_calls_amd(6) [OF f1] f2 have f2': "only_calls (ags_initialized s) s1 s2" by simp
  from only_calls_amd(6) [OF f2] only_calls_amd(6) [OF f1] f3
  have f3': "only_calls (ags_initialized s) s2 s'" by simp
  from f1 f2' f3' show ?thesis by (blast intro: only_calls_trans)
qed

lemma amd_device_fault:
  assumes "\<not> ags_initialized s" "amd_device E i s = Inl f"
  shows "f = FloatToInt"
proof -
  from assms(1) have m: "amd_get_gpu_memory_usage E i s =
      Inr (get_gpu_memory_perf_counter (ans_sample E i) s, s)"
    by (rule amd_memory_fallback)
  show ?thesis
  proof (cases "amd_get_gpu_utilization E i s")
    case (Inl f')
    with assms m have "f = f'" by (simp add: amd_device_def)
    with Inl assms(1) show ?thesis by (auto dest: amd_util_fault)
  next
    case (Inr r)
    obtain g s2 where r: "r = (g, s2)" by (cases r)
    from amd_util_frame [OF Inr [unfolded r]] assms(1) have "\<not> ags_initialized s2"
      by (simp add: only_calls_amd)
    from amd_details_fallback [OF this] assms m Inr r show ?thesis
      by (simp add: amd_device_def)
  qed
qed

lemma amd_loop_frame:
  "amd_loop E sz i n buf s = Inr (buf', s') \<Longrightarrow> only_calls (ags_initialized s) s s'"
proof (induction E sz i n buf s rule: amd_loop.induct)
  case (1 E sz i n buf s)
  show ?case
  proof (cases "i < n")
    case False
    with "1.prems" have "s' = s" by (subst (asm) amd_loop.simps) simp
    then show ?thesis by simp
  next
    case True
    with "1.prems" obtain ps s1 where
      d: "amd_device E i s = Inr (ps, s1)"
      and l: "amd_loop E sz (i + 1) n (buf @ ps) s1 = Inr (buf', s')"
      by (subst (asm) amd_loop.simps) (auto simp: bindF_Inr_iff dest: strcat_each_Inr)
    note f1 = amd_device_frame [OF d]
    from "1.IH" [OF True l] only_calls_amd(6) [OF f1]
    have "only_calls (ags_initialized s) s1 s'" by simp
    with f1 show ?thesis by (blast intro: only_calls_trans)
  qed
qed

text \<open>
  A turn of the loop appends at most 1024 characters: a comma and the at most 1023
  characters that \<^verbatim>\<open>snprintf\<close> left in \<^verbatim>\<open>gpu_info_str\<close>.
\<close>

lemma amd_device_length:
  assumes "amd_device E i s = Inr (ps, s')"
  shows "strlen (amd_chars E) ps \<le> 1024"
proof -
  from assms obtain r where "ps = (if i > 0 then [Comma] else []) @ [Rec r]"
    by (auto simp: amd_device_def bindF_Inr_iff)
  with chars_bound(2) [of E r] show ?thesis by simp
qed

lemma amd_loop_length:
  "amd_loop E sz i n buf s = Inr (buf', s') \<Longrightarrow>
   strlen (amd_chars E) buf' \<le> strlen (amd_chars E) buf + 1024 * nat (n - i)"
proof (induction E sz i n buf s rule: amd_loop.induct)
  case (1 E sz i n buf s)
  show ?case
  proof (cases "i < n")
    case False
    with "1.prems" have "buf' = buf" by (subst (asm) amd_loop.simps) simp
    then show ?thesis by simp
  next
    case True
    with "1.prems" obtain ps s1 where
      d: "amd_device E i s = Inr (ps, s1)"
      and l: "amd_loop E sz (i + 1) n (buf @ ps) s1 = Inr (buf', s')"
      by (subst (asm) amd_loop.simps) (auto simp: bindF_Inr_iff dest: strcat_each_Inr)
    from True have "nat (n - i) = Suc (nat (n - (i + 1)))" by simp
    with "1.IH" [OF True l] amd_device_length [OF d] show ?thesis by simp
  qed
qed

lemma amd_loop_fault:
  "\<not> ags_initialized s \<Longrightarrow>
   strlen (amd_chars E) buf + 1024 * nat (n - i) + 1 \<le> sz \<Longrightarrow>
   amd_loop E sz i n buf s = Inl f \<Longrightarrow> f = FloatToInt"
proof (induction E sz i n buf s rule: amd_loop.induct)
  case (1 E sz i n buf s)
  show ?case
  proof (cases "i < n")
    case False
    with "1.prems" show ?thesis by (subst (asm) amd_loop.simps) simp
  next
    case True
    show ?thesis
    proof (cases "amd_device E i s")
      case (Inl f')
      with True "1.prems" have "f = f'" by (subst (asm) amd_loop.simps) simp
      with Inl "1.prems"(1) show ?thesis by (auto dest: amd_device_fault)
    next
      case (Inr r)
      obtain ps s1 where r: "r = (ps, s1)" by (cases r)
      from amd_device_frame [OF Inr [unfolded r]] "1.prems"(1)
      have n: "\<not> ags_initialized s1" by (simp add: only_calls_amd)
      from True have k: "nat (n - i) = Suc (nat (n - (i + 1)))" by simp
      from amd_device_length [OF Inr [unfolded r]] "1.prems"(2) k
      have c: "strlen (amd_chars E) buf + strlen (amd_chars E) ps + 1 \<le> sz"
        and c': "strlen (amd_chars E) (buf @ ps) + 1024 * nat (n - (i + 1)) + 1 \<le> sz"
        by simp_all
      from True "1.prems"(3) Inr r strcat_each_fits [OF c]
      have "amd_loop E sz (i + 1) n (buf @ ps) s1 = Inl f"
        by (subst (asm) amd_loop.simps) simp
      from "1.IH" [OF True n c' this] show ?thesis by simp
    qed
  qed
qed

lemma amd_json_frame:
  assumes "amd_gpu_get_info_json E s = Inr (d, s')"
  shows "only_calls (ags_initialized s) s s'"
proof (cases "amd_gpu_get_count s \<le> 0 \<or> \<not> ans_malloc E")
  case True
  with assms have "s' = s"
    by (auto simp: amd_gpu_get_info_json_def Let_def bindF_Inr_iff split: if_splits)
  then show ?thesis by simp
next
  case False
  with assms obtain sz buf where
    "amd_loop E sz 0 (amd_gpu_get_count s) [Open] s = Inr (buf, s')"
    by (auto simp: amd_gpu_get_info_json_def Let_def bindF_Inr_iff strcat_Inr_iff
        split: if_splits)
  then show ?thesis by (rule amd_loop_frame)
qed

lemma amd_json_fault:
  assumes "\<not> ags_initialized s" "amd_gpu_get_info_json E s = Inl f"
  shows "f = FloatToInt"
proof -
  from assms(1) have c: "amd_gpu_get_count s = 1" by (simp add: amd_gpu_get_count_def)
  show ?thesis
  proof (cases "amd_loop E 2048 0 1 [Open] s")
    case (Inl f')
    with assms c have "f = f'"
      by (simp add: amd_gpu_get_info_json_def int_result_def strcat_def split: if_splits)
    have "strlen (amd_chars E) [Open] + 1024 * nat (1 - 0) + 1 \<le> 2048" by simp
    from amd_loop_fault [OF assms(1) this Inl] \<open>f = f'\<close> show ?thesis by simp
  next
    case (Inr r)
    obtain buf s1 where r: "r = (buf, s1)" by (cases r)
    from amd_loop_length [OF Inr [unfolded r]] have "strlen (amd_chars E) buf \<le> 1033" by simp
    with assms c Inr r show ?thesis
      by (simp add: amd_gpu_get_info_json_def int_result_def strcat_def split: if_splits)
  qed
qed

lemma amd_query_frame:
  assumes "amd_query E q s = Inr s'"
  shows "only_calls (ags_initialized s) s s'"
proof (cases q)
  case GetCount
  with assms show ?thesis by (simp add: amd_query_def)
next
  case GetInfoJson
  with assms obtain d where "amd_gpu_get_info_json E s = Inr (d, s')"
    by (auto simp: amd_query_def bindF_Inr_iff)
  then show ?thesis by (rule amd_json_frame)
next
  case GetUsage
  with assms obtain v where "amd_get_gpu_utilization E 0 s = Inr (v, s')"
    by (auto simp: amd_query_def amd_gpu_get_usage_def bindF_Inr_iff)
  then show ?thesis by (rule amd_util_frame)
qed

lemma amd_query_fault:
  assumes "\<not> ags_initialized s" "amd_query E q s = Inl f"
  shows "f = FloatToInt"
  using assms
  by (cases q)
     (auto simp: amd_query_def amd_gpu_get_usage_def bindF_Inl_iff
        dest: amd_json_fault amd_util_fault)

lemma amd_session_frame:
  "amd_session qs s = Inr s' \<Longrightarrow> only_calls (ags_initialized s) s s'"
proof (induction qs s rule: amd_session.induct)
  case (1 s)
  then show ?case by simp
next
  case (2 E q qs s)
  from "2.prems" obtain s1 where q: "amd_query E q s = Inr s1"
    and r: "amd_session qs s1 = Inr s'"
    by (auto simp: bindF_Inr_iff)
  note f = amd_query_frame [OF q]
  from "2.IH" [OF r] only_calls_amd(6) [OF f]
  have "only_calls (ags_initialized s) s1 s'" by simp
  with f show ?case by (blast intro: only_calls_trans)
qed

lemma amd_session_fault:
  "\<not> ags_initialized s \<Longrightarrow> amd_session qs s = Inl f \<Longrightarrow> f = FloatToInt"
proof (induction qs s rule: amd_session.induct)
  case (1 s)
  then show ?case by simp
next
  case (2 E q qs s)
  show ?case
  proof (cases "amd_query E q s")
    case (Inl f')
    with "2.prems" show ?thesis by (auto dest: amd_query_fault)
  next
    case (Inr s1)
    from amd_query_frame [OF Inr] "2.prems"(1) have "\<not> ags_initialized s1"
      by (simp add: only_calls_amd)
    with "2.IH" [of s1] "2.prems"(2) Inr show ?thesis by simp
  qed
qed

text \<open>Intel\<close>

lemma intel_util_frame:
  assumes "intel_get_gpu_utilization E s = Inr (x, s')"
  shows "only_calls (igcl_initialized s) s s'"
proof (cases "igcl_initialized s \<and> igcl_get_device_stats s \<noteq> NullFn")
  case False
  with assms have "get_gpu_utilization_perf_counter (ans_sample E 0) s = Inr (x, s')"
    by (auto simp: intel_get_gpu_utilization_def)
  then show ?thesis by (rule only_calls_perf)
next
  case True
  then have v: "igcl_initialized s" by simp
  from assms True obtain w where
    w: "call_fptr ''igcl_get_device_stats'' (igcl_get_device_stats s) (sys s) = Inr w"
    by (auto simp: intel_get_gpu_utilization_def bindF_Inr_iff)
  then have w': "w = emit (EvCall ''igcl_get_device_stats'') (sys s)"
    by (auto simp: call_fptr_Inr)
  have c: "only_calls True s (s\<lparr>sys := w\<rparr>)" unfolding w' by (rule only_calls_call)
  obtain code stats where a: "ans_igcl_get_device_stats E AtUtilization = (code, stats)"
    by (cases "ans_igcl_get_device_stats E AtUtilization")
  show ?thesis
  proof (cases "code = IGCL_SUCCESS")
    case True
    with assms \<open>igcl_initialized s \<and> igcl_get_device_stats s \<noteq> NullFn\<close> w a
    have "s' = s\<lparr>sys := w\<rparr>"
      by (auto simp: intel_get_gpu_utilization_def)
    with c v show ?thesis by simp
  next
    case False
    with assms \<open>igcl_initialized s \<and> igcl_get_device_stats s \<noteq> NullFn\<close> w a
    have "get_gpu_utilization_perf_counter (ans_sample E 0) (s\<lparr>sys := w\<rparr>) = Inr (x, s')"
      by (auto simp: intel_get_gpu_utilization_def)
    then have "only_calls True (s\<lparr>sys := w\<rparr>) s'" by (rule only_calls_perf)
    with c v show ?thesis by (auto intro: only_calls_trans)
  qed
qed

lemma intel_util_fault:
  assumes "\<not> igcl_initialized s" "intel_get_gpu_utilization E s = Inl f"
  shows "f = FloatToInt"
  using assms by (auto simp: intel_get_gpu_utilization_def dest: perf_util_fault)

lemma intel_memory_frame:
  assumes "intel_get_gpu_memory_usage E s = Inr (x, s')"
  shows "only_calls (igcl_initialized s) s s'"
proof (cases "igcl_initialized s \<and> igcl_get_device_stats s \<noteq> NullFn")
  case False
  with assms have "s' = s" by (auto simp: intel_get_gpu_memory_usage_def split: if_splits)
  then show ?thesis by simp
next
  case True
  from assms True obtain w where
    w: "call_fptr ''igcl_get_device_stats'' (igcl_get_device_stats s) (sys s) = Inr w"
    by (auto simp: intel_get_gpu_memory_usage_def bindF_Inr_iff)
  then have w': "w = emit (EvCall ''igcl_get_device_stats'') (sys s)"
    by (auto simp: call_fptr_Inr)
  have c: "only_calls True s (s\<lparr>sys := w\<rparr>)" unfolding w' by (rule only_calls_call)
  from assms True w have "s' = s\<lparr>sys := w\<rparr>"
    by (auto simp: intel_get_gpu_memory_usage_def split: prod.splits if_splits)
  with c True show ?thesis by simp
qed

lemma intel_total_frame:
  assumes "intel_get_gpu_total_memory E s = Inr (x, s')"
  shows "only_calls (igcl_initialized s) s s'"
proof (cases "igcl_initialized s \<and> igcl_get_device_info s \<noteq> NullFn")
  case False
  with assms have "s' = s" by (auto simp: intel_get_gpu_total_memory_def split: if_splits)
  then show ?thesis by simp
next
  case True
  from assms True obtain w where
    w: "call_fptr ''igcl_get_device_info'' (igcl_get_device_info s) (sys s) = Inr w"
    by (auto simp: intel_get_gpu_total_memory_def bindF_Inr_iff)
  then have w': "w = emit (EvCall ''igcl_get_device_info'') (sys s)"
    by (auto simp: call_fptr_Inr)
  have c: "only_calls True s (s\<lparr>sys := w\<rparr>)" unfolding w' by (rule only_calls_call)
  from assms True w have "s' = s\<lparr>sys := w\<rparr>"
    by (auto simp: intel_get_gpu_total_memory_def split: prod.splits if_splits)
  with c True show ?thesis by simp
qed

lemma intel_name_frame:
  assumes "intel_name E s = Inr (x, s')"
  shows "only_calls (igcl_initialized s) s s'"
proof (cases "igcl_initialized s \<and> igcl_get_device_info s \<noteq> NullFn")
  case False
  with assms have "s' = s" by (auto simp: intel_name_def split: if_splits)
  then show ?thesis by simp
next
  case True
  from assms True obtain w where
    w: "call_fptr ''igcl_get_device_info'' (igcl_get_device_info s) (sys s) = Inr w"
    by (auto simp: intel_name_def bindF_Inr_iff)
  then have w': "w = emit (EvCall ''igcl_get_device_info'') (sys s)"
    by (auto simp: call_fptr_Inr)
  have c: "only_calls True s (s\<lparr>sys := w\<rparr>)" unfolding w' by (rule only_calls_call)
  from assms True w have "s' = s\<lparr>sys := w\<rparr>"
    by (auto simp: intel_name_def split: prod.splits if_splits)
  with c True show ?thesis by simp
qed

lemma intel_extra_frame:
  assumes "intel_extra E s = Inr (x, s')"
  shows "only_calls (igcl_initialized s) s s'"
proof (cases "igcl_initialized s \<and> igcl_get_device_stats s \<noteq> NullFn")
  case False
  with assms have "s' = s" by (auto simp: intel_extra_def split: if_splits)
  then show ?thesis by simp
next
  case True
  from assms True obtain w where
    w: "call_fptr ''igcl_get_device_stats'' (igcl_get_device_stats s) (sys s) = Inr w"
    by (auto simp: intel_extra_def bindF_Inr_iff)
  then have w': "w = emit (EvCall ''igcl_get_device_stats'') (sys s)"
    by (auto simp: call_fptr_Inr)
  have c: "only_calls True s (s\<lparr>sys := w\<rparr>)" unfolding w' by (rule only_calls_call)
  from assms True w have "s' = s\<lparr>sys := w\<rparr>"
    by (auto simp: intel_extra_def split: prod.splits if_splits)
  with c True show ?thesis by simp
qed

lemma intel_count_frame:
  assumes "intel_gpu_get_count E s = Inr (x, s')"
  shows "only_calls (igcl_initialized s) s s'"
proof (cases "igcl_initialized s \<and> igcl_get_device_count s \<noteq> NullFn")
  case False
  with assms have "s' = s" by (auto simp: intel_gpu_get_count_def split: if_splits)
  then show ?thesis by simp
next
  case True
  from assms True obtain w where
    w: "call_fptr ''igcl_get_device_count'' (igcl_get_device_count s) (sys s) = Inr w"
    by (auto simp: intel_gpu_get_count_def bindF_Inr_iff)
  then have w': "w = emit (EvCall ''igcl_get_device_count'') (sys s)"
    by (auto simp: call_fptr_Inr)
  have c: "only_calls True s (s\<lparr>sys := w\<rparr>)" unfolding w' by (rule only_calls_call)
  from assms True w have "s' = s\<lparr>sys := w\<rparr>"
    by (auto simp: intel_gpu_get_count_def split: prod.splits if_splits)
  with c True show ?thesis by simp
qed

lemma intel_fallback_steps:
  assumes "\<not> igcl_initialized s"
  shows "intel_get_gpu_memory_usage E s = Inr (get_gpu_memory_perf_counter (ans_sample E 0) s, s)"
    "intel_get_gpu_total_memory E s = Inr (ans_ullTotalPhys E div 8, s)"
    "intel_name E s =
       Inr ((case ans_DriverDesc E of None \<Rightarrow> ''Intel Integrated Graphics'' | Some n \<Rightarrow> n), s)"
    "intel_extra E s = Inr ((0, 0), s)"
    "intel_gpu_get_count E s = Inr (1, s)"
  using assms
  by (simp_all add: intel_get_gpu_memory_usage_def intel_get_gpu_total_memory_def intel_name_def
      intel_extra_def intel_gpu_get_count_def)

lemma intel_json_frame:
  assumes "intel_gpu_get_info_json E s = Inr (d, s')"
  shows "only_calls (igcl_initialized s) s s'"
proof (cases "ans_malloc E")
  case False
  with assms have "s' = s" by (simp add: intel_gpu_get_info_json_def)
  then show ?thesis by simp
next
  case True
  with assms obtain g s1 u s2 t s3 nm s4 x where
    a: "intel_get_gpu_utilization E s = Inr (g, s1)"
    and b: "intel_get_gpu_memory_usage E s1 = Inr (u, s2)"
    and c: "intel_get_gpu_total_memory E s2 = Inr (t, s3)"
    and d: "intel_name E s3 = Inr (nm, s4)"
    and e: "intel_extra E s4 = Inr (x, s')"
    by (auto simp: intel_gpu_get_info_json_def bindF_Inr_iff split: prod.splits)
  note f1 = intel_util_frame [OF a]
  from intel_memory_frame [OF b] only_calls_intel(6) [OF f1]
  have f2: "only_calls (igcl_initialized s) s1 s2" by simp
  from intel_total_frame [OF c] only_calls_intel(6) [OF f2] only_calls_intel(6) [OF f1]
  have f3: "only_calls (igcl_initialized s) s2 s3" by simp
  from intel_name_frame [OF d] only_calls_intel(6) [OF f3] only_calls_intel(6) [OF f2]
    only_calls_intel(6) [OF f1]
  have f4: "only_calls (igcl_initialized s) s3 s4" by simp
  from intel_extra_frame [OF e] only_calls_intel(6) [OF f4] only_calls_intel(6) [OF f3]
    only_calls_intel(6) [OF f2] only_calls_intel(6) [OF f1]
  have f5: "only_calls (igcl_initialized s) s4 s'" by simp
  from f1 f2 f3 f4 f5 show ?thesis by (blast intro: only_calls_trans)
qed

lemma intel_json_fault:
  assumes "\<not> igcl_initialized s" "intel_gpu_get_info_json E s = Inl f"
  shows "f = FloatToInt"
proof (cases "intel_get_gpu_utilization E s")
  case (Inl f')
  with assms have "f = f'"
    by (auto simp: intel_gpu_get_info_json_def split: if_splits)
  with Inl assms(1) show ?thesis by (auto dest: intel_util_fault)
next
  case (Inr r)
  obtain g s1 where r: "r = (g, s1)" by (cases r)
  from intel_util_frame [OF Inr [unfolded r]] assms(1) have "\<not> igcl_initialized s1"
    by (simp add: only_calls_intel)
  from intel_fallback_steps [OF this] assms Inr r show ?thesis
    by (auto simp: intel_gpu_get_info_json_def split: if_splits)
qed

lemma intel_query_frame:
  assumes "intel_query E q s = Inr s'"
  shows "only_calls (igcl_initialized s) s s'"
proof (cases q)
  case GetCount
  with assms obtain v where "intel_gpu_get_count E s = Inr (v, s')"
    by (auto simp: intel_query_def bindF_Inr_iff)
  then show ?thesis by (rule intel_count_frame)
next
  case GetInfoJson
  with assms obtain d where "intel_gpu_get_info_json E s = Inr (d, s')"
    by (auto simp: intel_query_def bindF_Inr_iff)
  then show ?thesis by (rule intel_json_frame)
next
  case GetUsage
  with assms obtain v where "intel_get_gpu_utilization E s = Inr (v, s')"
    by (auto simp: intel_query_def intel_gpu_get_usage_def bindF_Inr_iff)
  then show ?thesis by (rule intel_util_frame)
qed

lemma intel_query_fault:
  assumes "\<not> igcl_initialized s" "intel_query E q s = Inl f"
  shows "f = FloatToInt"
  using assms
  by (cases q)
     (auto simp: intel_query_def intel_gpu_get_usage_def bindF_Inl_iff intel_fallback_steps
        dest: intel_json_fault intel_util_fault)

lemma intel_session_frame:
  "intel_session qs s = Inr s' \<Longrightarrow> only_calls (igcl_initialized s) s s'"
proof (induction qs s rule: intel_session.induct)
  case (1 s)
  then show ?case by simp
next
  case (2 E q qs s)
  from "2.prems" obtain s1 where q: "intel_query E q s = Inr s1"
    and r: "intel_session qs s1 = Inr s'"
    by (auto simp: bindF_Inr_iff)
  note f = intel_query_frame [OF q]
  from "2.IH" [OF r] only_calls_intel(6) [OF f]
  have "only_calls (igcl_initialized s) s1 s'" by simp
  with f show ?case by (blast intro: only_calls_trans)
qed

lemma intel_session_fault:
  "\<not> igcl_initialized s \<Longrightarrow> intel_session qs s = Inl f \<Longrightarrow> f = FloatToInt"
proof (induction qs s rule: intel_session.induct)
  case (1 s)
  then show ?case by simp
next
  case (2 E q qs s)
  show ?case
  proof (cases "intel_query E q s")
    case (Inl f')
    with "2.prems" show ?thesis by (auto dest: intel_query_fault)
  next
    case (Inr s1)
    from intel_query_frame [OF Inr] "2.prems"(1) have "\<not> igcl_initialized s1"
      by (simp add: only_calls_intel)
    with "2.IH" [of s1] "2.prems"(2) Inr show ?thesis by simp
  qed
qed

text \<open>
  C8. Backend selection is fixed during a session. In a state where \<^verbatim>\<open>gpu_init\<close> selected
  the counter fallback, any sequence of \<^verbatim>\<open>gpu_get_count\<close>, \<^verbatim>\<open>gpu_get_info_json\<close> and
  \<^verbatim>\<open>gpu_get_usage\<close>, whatever the platform answers, leaves every global and every held
  resource as it was and makes counter readings only: it loads no library, resolves no
  symbol and calls no vendor function, so the backend is still the counter fallback. (The
  only undefined execution possible there is a counter value that does not fit an
  \<^verbatim>\<open>int\<close>.) In any state, a session that returns leaves the selected backend unchanged
  and makes no call other than vendor calls and counter readings.
\<close>

theorem backend_fixed_during_queries:
  "(amd_backend s = FallbackCounters \<longrightarrow>
      (case amd_session qs s of
         Inl f \<Rightarrow> f = FloatToInt
       | Inr s' \<Rightarrow> amd_backend s' = FallbackCounters
           \<and> (\<exists>evs. s' = with_trace evs s \<and> list_all is_collect evs)))
   \<and> (amd_session qs s = Inr s' \<longrightarrow>
        amd_backend s' = amd_backend s
        \<and> (\<exists>evs. s' = with_trace evs s \<and> list_all is_query_event evs))
   \<and> (intel_backend sI = FallbackCounters \<longrightarrow>
      (case intel_session qsI sI of
         Inl f \<Rightarrow> f = FloatToInt
       | Inr s' \<Rightarrow> intel_backend s' = FallbackCounters
           \<and> (\<exists>evs. s' = with_trace evs sI \<and> list_all is_collect evs)))
   \<and> (intel_session qsI sI = Inr sI' \<longrightarrow>
        intel_backend sI' = intel_backend sI
        \<and> (\<exists>evs. sI' = with_trace evs sI \<and> list_all is_query_event evs))"
proof -
  have a1: "case amd_session qs s of
         Inl f \<Rightarrow> f = FloatToInt
       | Inr s' \<Rightarrow> amd_backend s' = FallbackCounters
           \<and> (\<exists>evs. s' = with_trace evs s \<and> list_all is_collect evs)"
    if b: "amd_backend s = FallbackCounters"
  proof -
    from b have n: "\<not> ags_initialized s"
      by (auto simp: amd_backend_def split: if_splits)
    show ?thesis
    proof (cases "amd_session qs s")
      case (Inl f)
      with amd_session_fault [OF n] show ?thesis by simp
    next
      case (Inr s')
      from amd_session_frame [OF Inr] n obtain evs where
        "s' = with_trace evs s" "list_all is_collect evs"
        unfolding only_calls_def by blast
      with b Inr show ?thesis by (auto simp: amd_backend_def split: if_splits)
    qed
  qed
  have a2: "amd_backend s' = amd_backend s
        \<and> (\<exists>evs. s' = with_trace evs s \<and> list_all is_query_event evs)"
    if r: "amd_session qs s = Inr s'"
  proof -
    from amd_session_frame [OF r] obtain evs where
      "s' = with_trace evs s" "list_all is_query_event evs"
      unfolding only_calls_def by blast
    then show ?thesis by (auto simp: amd_backend_def)
  qed
  have i1: "case intel_session qsI sI of
         Inl f \<Rightarrow> f = FloatToInt
       | Inr s' \<Rightarrow> intel_backend s' = FallbackCounters
           \<and> (\<exists>evs. s' = with_trace evs sI \<and> list_all is_collect evs)"
    if b: "intel_backend sI = FallbackCounters"
  proof -
    from b have n: "\<not> igcl_initialized sI"
      by (auto simp: intel_backend_def split: if_splits)
    show ?thesis
    proof (cases "intel_session qsI sI")
      case (Inl f)
      with intel_session_fault [OF n] show ?thesis by simp
    next
      case (Inr s')
      from intel_session_frame [OF Inr] n obtain evs where
        "s' = with_trace evs sI" "list_all is_collect evs"
        unfolding only_calls_def by blast
      with b Inr show ?thesis by (auto simp: intel_backend_def split: if_splits)
    qed
  qed
  have i2: "intel_backend sI' = intel_backend sI
        \<and> (\<exists>evs. sI' = with_trace evs sI \<and> list_all is_query_event evs)"
    if r: "intel_session qsI sI = Inr sI'"
  proof -
    from intel_session_frame [OF r] obtain evs where
      "sI' = with_trace evs sI" "list_all is_query_event evs"
      unfolding only_calls_def by blast
    then show ?thesis by (auto simp: intel_backend_def)
  qed
  from a1 a2 i1 i2 show ?thesis by blast
qed

theorem backend_fixed_during_queries_witness:
  "amd_backend (amd_after_init amd_no_library) = FallbackCounters
   \<and> \<not> faults (amd_session amd_three_queries (amd_after_init amd_no_library))
   \<and> (case amd_session amd_three_queries (amd_after_init amd_no_library) of
         Inl f \<Rightarrow> f = FloatToInt
       | Inr s' \<Rightarrow> amd_backend s' = FallbackCounters
           \<and> (\<exists>evs. s' = with_trace evs (amd_after_init amd_no_library)
                \<and> list_all is_collect evs))
   \<and> intel_backend (intel_after_init intel_no_library) = FallbackCounters
   \<and> \<not> faults (intel_session intel_three_queries (intel_after_init intel_no_library))
   \<and> (case intel_session intel_three_queries (intel_after_init intel_no_library) of
         Inl f \<Rightarrow> f = FloatToInt
       | Inr s' \<Rightarrow> intel_backend s' = FallbackCounters
           \<and> (\<exists>evs. s' = with_trace evs (intel_after_init intel_no_library)
                \<and> list_all is_collect evs))"
proof -
  have a: "amd_backend (amd_after_init amd_no_library) = FallbackCounters"
    by (simp add: amd_backend_def amd_eval)
  have i: "intel_backend (intel_after_init intel_no_library) = FallbackCounters"
    by (simp add: intel_backend_def intel_eval)
  have fa: "\<not> faults (amd_session amd_three_queries (amd_after_init amd_no_library))"
    by (simp add: amd_three_queries_def amd_query_def amd_eval)
  have fi: "\<not> faults (intel_session intel_three_queries (intel_after_init intel_no_library))"
    by (simp add: intel_three_queries_def intel_query_def intel_eval)
  note t = backend_fixed_during_queries [where s = "amd_after_init amd_no_library"
      and qs = amd_three_queries and sI = "intel_after_init intel_no_library"
      and qsI = intel_three_queries]
  from t a i fa fi show ?thesis by blast
qed

subsection \<open>The fields of a record\<close>

lemma clamped_difference:
  fixes t u :: "64 word"
  shows "uint (if t > u then t - u else 0) = max (uint t - uint u) 0"
proof (cases "t > u")
  case True
  then have "uint u \<le> uint t" by (simp add: word_less_alt)
  then have "uint (t - u) = uint t - uint u" by (simp add: uint_sub_lem)
  with True \<open>uint u \<le> uint t\<close> show ?thesis by simp
next
  case False
  then have "uint t \<le> uint u" by (simp add: word_less_alt)
  with False show ?thesis by simp
qed

lemma amd_record_free: "free_is_clamped_difference (amd_record i nm g u t tp pw)"
  using clamped_difference [of u t]
  by (simp add: free_is_clamped_difference_def amd_record_def Let_def)

lemma memory_percent_zero [simp]: "memory_percent u 0 = 0"
  by (simp add: memory_percent_def)

lemma memory_percent_exact:
  assumes "uint u * 100 < 2 ^ 64" "uint u * 100 div uint t < 2 ^ 31"
  shows "memory_percent u t = (if uint t = 0 then 0 else uint u * 100 div uint t)"
proof (cases "t = 0")
  case True
  then show ?thesis by simp
next
  case False
  then have t: "0 < t" "uint t \<noteq> 0" by (simp_all add: word_neq_0_conv uint_0_iff)
  from assms(1) have "uint u * uint (100 :: 64 word) < 2 ^ LENGTH(64)" by simp
  then have "uint (u * 100) = uint u * uint (100 :: 64 word)" by (simp only: uint_mult_lem)
  then have m: "uint (u * 100) = uint u * 100" by simp
  have q: "uint ((u * 100) div t) = uint u * 100 div uint t"
    by (simp add: uint_div m)
  have "0 < uint t" using t(2) uint_ge_0 [of t] by linarith
  then have nn: "0 \<le> uint u * 100 div uint t"
    by (simp add: pos_imp_zdiv_nonneg_iff)
  have "uint (ucast ((u * 100) div t) :: 32 word) = take_bit 32 (uint ((u * 100) div t))"
    by (simp add: unsigned_ucast_eq)
  also have "\<dots> = uint u * 100 div uint t"
    using assms(2) nn by (simp add: q take_bit_int_eq_self)
  finally have c: "uint (ucast ((u * 100) div t) :: 32 word) = uint u * 100 div uint t" .
  have "sint (ucast ((u * 100) div t) :: 32 word) = uint u * 100 div uint t"
    using assms(2) nn by (simp add: sint_uint c signed_take_bit_int_eq_self)
  with t show ?thesis by (simp add: memory_percent_def)
qed

lemma amd_record_utilization:
  assumes "memory_total r = 0
     \<or> (memory_used r * 100 < 2 ^ 64 \<and> memory_used r * 100 div memory_total r < 2 ^ 31)"
    and "r = amd_record i nm g u t tp pw"
  shows "utilization_is_derived r"
proof (cases "t = 0")
  case True
  with assms(2) show ?thesis
    by (simp add: utilization_is_derived_def amd_record_def Let_def)
next
  case False
  then have "uint t \<noteq> 0" by (simp add: uint_0_iff)
  with assms have "uint u * 100 < 2 ^ 64" "uint u * 100 div uint t < 2 ^ 31"
    by (simp_all add: amd_record_def Let_def)
  from memory_percent_exact [OF this] assms(2) show ?thesis
    by (simp add: utilization_is_derived_def amd_record_def Let_def)
qed

lemma intel_record_utilization:
  assumes "memory_total r = 0
     \<or> (memory_used r * 100 < 2 ^ 64 \<and> memory_used r * 100 div memory_total r < 2 ^ 31)"
    and "r = intel_record nm g u t tp pw"
  shows "utilization_is_derived r"
proof (cases "t = 0")
  case True
  with assms(2) show ?thesis
    by (simp add: utilization_is_derived_def intel_record_def Let_def)
next
  case False
  then have "uint t \<noteq> 0" by (simp add: uint_0_iff)
  with assms have "uint u * 100 < 2 ^ 64" "uint u * 100 div uint t < 2 ^ 31"
    by (simp_all add: intel_record_def Let_def)
  from memory_percent_exact [OF this] assms(2) show ?thesis
    by (simp add: utilization_is_derived_def intel_record_def Let_def)
qed

lemma float_to_int_le:
  assumes "float_to_int x = Inr g" "x \<le> 100"
  shows "g \<le> 100"
proof -
  from assms(1) have g: "g = (if 0 \<le> x then \<lfloor>x\<rfloor> else \<lceil>x\<rceil>)"
    by (auto simp: float_to_int_def Let_def split: if_splits)
  show ?thesis
  proof (cases "0 \<le> x")
    case True
    with g assms(2) show ?thesis by (simp add: floor_le_iff)
  next
    case False
    then have "\<lceil>x\<rceil> \<le> 0" by (simp add: ceiling_le_iff)
    with g False show ?thesis by simp
  qed
qed

lemma amd_record_gpu_utilization:
  "0 \<le> gpu_utilization (amd_record i nm g u t tp pw)"
  "g \<le> 100 \<Longrightarrow> gpu_utilization (amd_record i nm g u t tp pw) \<le> 100"
  by (simp_all add: amd_record_def Let_def)

lemma intel_record_gpu_utilization:
  "0 \<le> gpu_utilization (intel_record nm g u t tp pw)"
  "g \<le> 100 \<Longrightarrow> gpu_utilization (intel_record nm g u t tp pw) \<le> 100"
  by (simp_all add: intel_record_def Let_def)

lemma nv_record_fields:
  "index (nv_record E i dev) = int i"
  "gpu_utilization (nv_record E i dev) =
     (if fst (ans_nvmlDeviceGetUtilizationRates E dev) = NVML_SUCCESS
      then uint (gpu (snd (ans_nvmlDeviceGetUtilizationRates E dev))) else 0)"
  "memory_utilization (nv_record E i dev) =
     (if fst (ans_nvmlDeviceGetUtilizationRates E dev) = NVML_SUCCESS
      then uint (memory (snd (ans_nvmlDeviceGetUtilizationRates E dev))) else 0)"
  "memory_total (nv_record E i dev) =
     (if fst (ans_nvmlDeviceGetMemoryInfo E dev) = NVML_SUCCESS
      then uint (mem_total (snd (ans_nvmlDeviceGetMemoryInfo E dev))) else 0)"
  "memory_used (nv_record E i dev) =
     (if fst (ans_nvmlDeviceGetMemoryInfo E dev) = NVML_SUCCESS
      then uint (mem_used (snd (ans_nvmlDeviceGetMemoryInfo E dev))) else 0)"
  "memory_free (nv_record E i dev) =
     (if fst (ans_nvmlDeviceGetMemoryInfo E dev) = NVML_SUCCESS
      then uint (mem_free (snd (ans_nvmlDeviceGetMemoryInfo E dev))) else 0)"
  "temperature (nv_record E i dev) =
     (case ans_nvmlDeviceGetTemperature E dev of None \<Rightarrow> 0 | Some t \<Rightarrow> of_int (uint t))"
  "power_usage (nv_record E i dev) =
     (case ans_nvmlDeviceGetPowerUsage E dev of None \<Rightarrow> 0 | Some p \<Rightarrow> of_int (uint p) / 1000)"
  by (simp_all add: nv_record_def Let_def split: option.splits)

subsection \<open>The records of a document\<close>

lemma records_append [simp]: "records (xs @ ys) = records xs @ records ys"
  by (induction xs rule: records.induct) simp_all

lemma records_concat: "records (concat xss) = concat (map records xss)"
  by (induction xss) simp_all

text \<open>AMD\<close>

lemma perf_util_source:
  fixes s :: "('a) perf_state_scheme"
  assumes "get_gpu_utilization_perf_counter smp s = Inr (g, s')"
  shows "g = - 1 \<or> g = 0 \<or> float_to_int (doubleValue smp) = Inr g"
  using assms
  by (auto simp: get_gpu_utilization_perf_counter_def Let_def bindF_Inr_iff
      split: option.splits if_splits)

lemma amd_util_source:
  assumes "amd_get_gpu_utilization E i s = Inr (g, s')"
  shows "amd_util_source E i g"
proof (cases "ags_initialized s \<and> agsGetGPUMemoryUsage s \<noteq> NullFn")
  case False
  with assms have "get_gpu_utilization_perf_counter (ans_sample E i) s = Inr (g, s')"
    by (auto simp: amd_get_gpu_utilization_def)
  from perf_util_source [OF this] show ?thesis by (auto simp: amd_util_source_def)
next
  case True
  from assms True obtain w where
    w: "call_fptr ''agsGetGPUMemoryUsage'' (agsGetGPUMemoryUsage s) (sys s) = Inr w"
    by (auto simp: amd_get_gpu_utilization_def bindF_Inr_iff)
  obtain code usage where a: "ans_agsGetGPUMemoryUsage E AtUtilization i = (code, usage)"
    by (cases "ans_agsGetGPUMemoryUsage E AtUtilization i")
  show ?thesis
  proof (cases "code = AGS_SUCCESS")
    case True
    with assms \<open>ags_initialized s \<and> agsGetGPUMemoryUsage s \<noteq> NullFn\<close> w a
    have "float_to_int (gpuUsagePercent usage) = Inr g"
      by (auto simp: amd_get_gpu_utilization_def bindF_Inr_iff)
    with a show ?thesis by (simp add: amd_util_source_def)
  next
    case False
    with assms \<open>ags_initialized s \<and> agsGetGPUMemoryUsage s \<noteq> NullFn\<close> w a
    have "get_gpu_utilization_perf_counter (ans_sample E i) (s\<lparr>sys := w\<rparr>) = Inr (g, s')"
      by (auto simp: amd_get_gpu_utilization_def)
    from perf_util_source [OF this] show ?thesis by (auto simp: amd_util_source_def)
  qed
qed

lemma amd_device_shape:
  assumes "amd_device E i s = Inr (ps, s')"
  shows "\<exists>nm g u t tp pw. ps = (if i > 0 then [Comma] else []) @ [Rec (amd_record i nm g u t tp pw)]
           \<and> amd_util_source E i g"
proof -
  from assms obtain u s1 g s2 nm t tp pw where
    g: "amd_get_gpu_utilization E i s1 = Inr (g, s2)"
    and ps: "ps = (if i > 0 then [Comma] else []) @ [Rec (amd_record i nm g u t tp pw)]"
    by (auto simp: amd_device_def bindF_Inr_iff split: prod.splits)
  from amd_util_source [OF g] ps show ?thesis by blast
qed

lemma amd_loop_records:
  "amd_loop E sz i n buf s = Inr (buf', s') \<Longrightarrow> r \<in> set (records buf') \<Longrightarrow>
     r \<in> set (records buf)
     \<or> (\<exists>j nm g u t tp pw. r = amd_record j nm g u t tp pw \<and> amd_util_source E j g)"
proof (induction E sz i n buf s rule: amd_loop.induct)
  case (1 E sz i n buf s)
  show ?case
  proof (cases "i < n")
    case False
    with "1.prems" have "buf' = buf" by (subst (asm) amd_loop.simps) simp
    with "1.prems" show ?thesis by simp
  next
    case True
    with "1.prems" obtain ps s1 where
      d: "amd_device E i s = Inr (ps, s1)"
      and l: "amd_loop E sz (i + 1) n (buf @ ps) s1 = Inr (buf', s')"
      by (subst (asm) amd_loop.simps) (auto simp: bindF_Inr_iff dest: strcat_each_Inr)
    from amd_device_shape [OF d] obtain nm g u t tp pw where
      ps: "ps = (if i > 0 then [Comma] else []) @ [Rec (amd_record i nm g u t tp pw)]"
      and src: "amd_util_source E i g"
      by blast
    from ps have rp: "records ps = [amd_record i nm g u t tp pw]" by simp
    from "1.IH" [OF True l "1.prems"(2)]
    have ih: "r \<in> set (records (buf @ ps))
      \<or> (\<exists>j nm g u t tp pw. r = amd_record j nm g u t tp pw \<and> amd_util_source E j g)" .
    show ?thesis
    proof (cases "r \<in> set (records (buf @ ps))")
      case False
      with ih show ?thesis by blast
    next
      case True
      with rp have "r \<in> set (records buf) \<or> r = amd_record i nm g u t tp pw" by auto
      then show ?thesis
      proof
        assume "r \<in> set (records buf)"
        then show ?thesis by simp
      next
        assume "r = amd_record i nm g u t tp pw"
        with src show ?thesis by blast
      qed
    qed
  qed
qed

lemma amd_json_records:
  assumes "amd_gpu_get_info_json E s = Inr (Some d, s')" "r \<in> set (records d)"
  shows "\<exists>j nm g u t tp pw. r = amd_record j nm g u t tp pw \<and> amd_util_source E j g"
proof -
  from assms(1) obtain sz buf where
    l: "amd_loop E sz 0 (amd_gpu_get_count s) [Open] s = Inr (buf, s')" and d: "d = buf @ [Close]"
    by (auto simp: amd_gpu_get_info_json_def Let_def bindF_Inr_iff strcat_Inr_iff
        split: if_splits)
  from assms(2) d have "r \<in> set (records buf)" by simp
  from amd_loop_records [OF l this] show ?thesis by simp
qed

text \<open>Intel\<close>

lemma intel_util_source:
  assumes "intel_get_gpu_utilization E s = Inr (g, s')"
  shows "intel_util_source E g"
proof (cases "igcl_initialized s \<and> igcl_get_device_stats s \<noteq> NullFn")
  case False
  with assms have "get_gpu_utilization_perf_counter (ans_sample E 0) s = Inr (g, s')"
    by (auto simp: intel_get_gpu_utilization_def)
  from perf_util_source [OF this] show ?thesis by (auto simp: intel_util_source_def)
next
  case True
  from assms True obtain w where
    w: "call_fptr ''igcl_get_device_stats'' (igcl_get_device_stats s) (sys s) = Inr w"
    by (auto simp: intel_get_gpu_utilization_def bindF_Inr_iff)
  obtain code stats where a: "ans_igcl_get_device_stats E AtUtilization = (code, stats)"
    by (cases "ans_igcl_get_device_stats E AtUtilization")
  show ?thesis
  proof (cases "code = IGCL_SUCCESS")
    case True
    with assms \<open>igcl_initialized s \<and> igcl_get_device_stats s \<noteq> NullFn\<close> w a
    have "g = sint (stats_gpu_utilization stats)"
      by (auto simp: intel_get_gpu_utilization_def)
    with a show ?thesis by (simp add: intel_util_source_def)
  next
    case False
    with assms \<open>igcl_initialized s \<and> igcl_get_device_stats s \<noteq> NullFn\<close> w a
    have "get_gpu_utilization_perf_counter (ans_sample E 0) (s\<lparr>sys := w\<rparr>) = Inr (g, s')"
      by (auto simp: intel_get_gpu_utilization_def)
    from perf_util_source [OF this] show ?thesis by (auto simp: intel_util_source_def)
  qed
qed

lemma intel_json_shape:
  assumes "intel_gpu_get_info_json E s = Inr (Some d, s')"
  shows "\<exists>nm g u t tp pw. d = [Open, Rec (intel_record nm g u t tp pw), Close]
           \<and> intel_util_source E g"
proof -
  from assms have m: "ans_malloc E"
    by (auto simp: intel_gpu_get_info_json_def split: if_splits)
  with assms obtain g s1 nm u t tp pw where
    a: "intel_get_gpu_utilization E s = Inr (g, s1)"
    and d: "d = [Open, Rec (intel_record nm g u t tp pw), Close]"
    by (auto simp: intel_gpu_get_info_json_def bindF_Inr_iff split: prod.splits)
  from intel_util_source [OF a] d show ?thesis by blast
qed

text \<open>NVIDIA\<close>

lemma nv_device_pieces:
  assumes "nv_device E s i w = Inr (ps, w')"
  shows "ps = nv_pieces E i"
  using assms
  by (auto simp: nv_device_def nv_pieces_def bindF_Inr_iff split: prod.splits if_splits)

lemma nv_loop_result:
  "nv_loop E s sz i n buf w = Inr (buf', w') \<Longrightarrow>
     buf' = buf @ concat (map (nv_pieces E) [i..<n])"
proof (induction E s sz i n buf w rule: nv_loop.induct)
  case (1 E s sz i n buf w)
  show ?case
  proof (cases "i < n")
    case False
    with "1.prems" show ?thesis by (subst (asm) nv_loop.simps) simp
  next
    case True
    with "1.prems" obtain ps w1 where
      d: "nv_device E s i w = Inr (ps, w1)"
      and l: "nv_loop E s sz (Suc i) n (buf @ ps) w1 = Inr (buf', w')"
      by (subst (asm) nv_loop.simps) (auto simp: bindF_Inr_iff dest: strcat_each_Inr)
    from "1.IH" [OF True l] nv_device_pieces [OF d] True show ?thesis
      by (simp add: upt_conv_Cons)
  qed
qed

lemma nv_pieces_records:
  "records (nv_pieces E i) =
     (if fst (ans_nvmlDeviceGetHandleByIndex E i) = NVML_SUCCESS
      then [nv_record E i (snd (ans_nvmlDeviceGetHandleByIndex E i))] else [])"
  by (simp add: nv_pieces_def split: prod.splits)

lemma nv_json_result:
  assumes "nv_gpu_get_info_json E s = Inr (Some d, s')"
  shows "d = [Open] @ concat (map (nv_pieces E) [0..<unat (snd (ans_nvmlDeviceGetCount E))])
             @ [Close]"
proof -
  obtain rc c where a: "ans_nvmlDeviceGetCount E = (rc, c)"
    by (cases "ans_nvmlDeviceGetCount E")
  from assms a obtain sz buf w w' where
    "nv_loop E s sz 0 (unat c) [Open] w = Inr (buf, w')" and "d = buf @ [Close]"
    by (auto simp: nv_gpu_get_info_json_def Let_def bindF_Inr_iff strcat_Inr_iff
        split: if_splits)
  with nv_loop_result [of E s sz 0 "unat c" "[Open]" w buf w'] a show ?thesis by simp
qed

lemma nv_json_records:
  assumes "nv_gpu_get_info_json E s = Inr (Some d, s')" "r \<in> set (records d)"
  shows "r = nv_record E (nat (index r)) (nv_device_of E r)"
proof -
  from nv_json_result [OF assms(1)] assms(2)
  obtain i where "r \<in> set (records (nv_pieces E i))"
    by (auto simp: records_concat)
  then have "r = nv_record E i (snd (ans_nvmlDeviceGetHandleByIndex E i))"
    by (simp add: nv_pieces_records split: if_splits)
  then show ?thesis
    by (simp add: nv_device_of_def nv_record_fields(1))
qed

subsection \<open>Reading a returned document\<close>

lemma document_Some: "document x = Some d \<Longrightarrow> x = Inr (Some d, state_after s0 x)"
  by (cases x) (auto simp: document_def state_after_def)

lemma records_of_nonempty:
  assumes "records_of x \<noteq> []"
  obtains d where "x = Inr (Some d, state_after s0 x)" "records_of x = records d"
    "hd (records_of x) \<in> set (records d)"
proof -
  from assms obtain d where d: "document x = Some d"
    by (cases "document x") (auto simp: records_of_def)
  then have r: "records_of x = records d" by (simp add: records_of_def)
  with assms have h: "hd (records_of x) \<in> set (records d)" by simp
  from document_Some [OF d] r h show thesis by (rule that)
qed

text \<open>
  C1, as the code has it. In the AMD monitor \<open>memory_free\<close> of every record equals
  \<open>max(memory_total - memory_used, 0)\<close>, also when more memory is used than the total. In
  the NVIDIA monitor \<open>memory_free\<close> is not derived: it is the free memory that NVML
  reports for the device, or 0 when the memory query fails; it is never negative.
\<close>

theorem memory_free_by_backend:
  "(amd_gpu_get_info_json EA sA = Inr (Some dA, sA') \<and> rA \<in> set (records dA) \<longrightarrow>
      free_is_clamped_difference rA \<and> 0 \<le> memory_free rA)
   \<and> (nv_gpu_get_info_json EN sN = Inr (Some dN, sN') \<and> rN \<in> set (records dN) \<longrightarrow>
      0 \<le> memory_free rN
      \<and> memory_free rN =
          (if fst (ans_nvmlDeviceGetMemoryInfo EN (nv_device_of EN rN)) = NVML_SUCCESS
           then uint (mem_free (snd (ans_nvmlDeviceGetMemoryInfo EN (nv_device_of EN rN))))
           else 0))"
proof -
  have a: "free_is_clamped_difference rA \<and> 0 \<le> memory_free rA"
    if "amd_gpu_get_info_json EA sA = Inr (Some dA, sA')" "rA \<in> set (records dA)"
  proof -
    from amd_json_records [OF that] obtain j nm g u t tp pw where
      "rA = amd_record j nm g u t tp pw" by blast
    then show ?thesis
      using amd_record_free [of j nm g u t tp pw]
      by (simp add: free_is_clamped_difference_def)
  qed
  have n: "0 \<le> memory_free rN
      \<and> memory_free rN =
          (if fst (ans_nvmlDeviceGetMemoryInfo EN (nv_device_of EN rN)) = NVML_SUCCESS
           then uint (mem_free (snd (ans_nvmlDeviceGetMemoryInfo EN (nv_device_of EN rN))))
           else 0)"
    if "nv_gpu_get_info_json EN sN = Inr (Some dN, sN')" "rN \<in> set (records dN)"
  proof -
    from nv_json_records [OF that]
    have "memory_free rN = memory_free (nv_record EN (nat (index rN)) (nv_device_of EN rN))"
      by (rule arg_cong)
    then have e: "memory_free rN =
          (if fst (ans_nvmlDeviceGetMemoryInfo EN (nv_device_of EN rN)) = NVML_SUCCESS
           then uint (mem_free (snd (ans_nvmlDeviceGetMemoryInfo EN (nv_device_of EN rN))))
           else 0)"
      by (simp only: nv_record_fields)
    then have "0 \<le> memory_free rN" by simp
    with e show ?thesis by blast
  qed
  from a n show ?thesis by blast
qed

theorem memory_free_by_backend_witness:
  "records_of (amd_gpu_get_info_json amd_machine (amd_after_init amd_machine)) \<noteq> []
   \<and> free_is_clamped_difference
       (hd (records_of (amd_gpu_get_info_json amd_machine (amd_after_init amd_machine))))
   \<and> records_of (nv_gpu_get_info_json nv_machine (nv_after_init nv_machine)) \<noteq> []
   \<and> memory_free (hd (records_of (nv_gpu_get_info_json nv_machine (nv_after_init nv_machine))))
      = 5368709120"
proof -
  let ?a = "amd_gpu_get_info_json amd_machine (amd_after_init amd_machine)"
  let ?n = "nv_gpu_get_info_json nv_machine (nv_after_init nv_machine)"
  have ra: "map index (records_of ?a) = [0, 1]"
    by (simp add: amd_eval)
  then have na: "records_of ?a \<noteq> []" by auto
  have rn: "map index (records_of ?n) = [0, 1]"
    by (simp add: nv_eval)
  then have nn: "records_of ?n \<noteq> []" by auto
  from rn have i0: "index (hd (records_of ?n)) = 0"
    by (cases "records_of ?n") auto
  from na obtain dA where dA: "?a = Inr (Some dA, state_after (amd_after_init amd_machine) ?a)"
    "hd (records_of ?a) \<in> set (records dA)"
    by (rule records_of_nonempty)
  from nn obtain dN where dN: "?n = Inr (Some dN, state_after (nv_after_init nv_machine) ?n)"
    "hd (records_of ?n) \<in> set (records dN)"
    by (rule records_of_nonempty)
  note t = memory_free_by_backend [where EA = amd_machine and sA = "amd_after_init amd_machine"
      and dA = dA and sA' = "state_after (amd_after_init amd_machine) ?a"
      and rA = "hd (records_of ?a)" and EN = nv_machine and sN = "nv_after_init nv_machine"
      and dN = dN and sN' = "state_after (nv_after_init nv_machine) ?n"
      and rN = "hd (records_of ?n)"]
  from t dA have c1: "free_is_clamped_difference (hd (records_of ?a))" by blast
  from t dN have "memory_free (hd (records_of ?n)) =
          (if fst (ans_nvmlDeviceGetMemoryInfo nv_machine (nv_device_of nv_machine
                (hd (records_of ?n)))) = NVML_SUCCESS
           then uint (mem_free (snd (ans_nvmlDeviceGetMemoryInfo nv_machine
                (nv_device_of nv_machine (hd (records_of ?n))))))
           else 0)"
    by blast
  then have c2: "memory_free (hd (records_of ?n)) = 5368709120"
    by (simp add: nv_machine_def NVML_SUCCESS_def)
  from na nn c1 c2 show ?thesis by blast
qed

text \<open>
  C1 as stated fails. On the Intel counter fallback with 32 GiB of physical memory (a
  total of 4 GiB) and a counter reading of 5 GiB used, \<open>memory_free\<close> is
  \<open>2^64 - 2^30\<close>: the unsigned difference wrapped around. On the NVIDIA machine the
  record carries the 5 GiB that NVML reports as free, with 8 GiB total and 2 GiB used.
\<close>

theorem memory_free_counterexample:
  "map memory_total (records_of (intel_gpu_get_info_json intel_no_library
        (intel_after_init intel_no_library))) = [4294967296]
   \<and> map memory_used (records_of (intel_gpu_get_info_json intel_no_library
        (intel_after_init intel_no_library))) = [5368709120]
   \<and> map memory_free (records_of (intel_gpu_get_info_json intel_no_library
        (intel_after_init intel_no_library))) = [18446744072635809792]
   \<and> map free_is_clamped_difference (records_of (intel_gpu_get_info_json intel_no_library
        (intel_after_init intel_no_library))) = [False]
   \<and> map memory_free (records_of (nv_gpu_get_info_json nv_machine (nv_after_init nv_machine)))
       = [5368709120, 5368709120]
   \<and> map free_is_clamped_difference
        (records_of (nv_gpu_get_info_json nv_machine (nv_after_init nv_machine)))
       = [False, False]"
  by (simp add: intel_eval nv_eval free_is_clamped_difference_def)

text \<open>
  C2, as the code has it. In the AMD and the Intel monitor \<open>memory_utilization\<close> is 0
  when \<open>memory_total\<close> is 0 and \<open>floor(memory_used * 100 / memory_total)\<close> otherwise,
  as long as \<open>memory_used * 100\<close> fits 64 bits and the quotient fits an \<^verbatim>\<open>int\<close>. In the
  NVIDIA monitor \<open>memory_utilization\<close> is not derived from the memory figures: it is the
  memory utilization rate that NVML reports, or 0 when the utilization query fails.
\<close>

theorem memory_utilization_by_backend:
  "(amd_gpu_get_info_json EA sA = Inr (Some dA, sA') \<and> rA \<in> set (records dA)
      \<and> (memory_total rA = 0
          \<or> (memory_used rA * 100 < 2 ^ 64
              \<and> memory_used rA * 100 div memory_total rA < 2 ^ 31)) \<longrightarrow>
      utilization_is_derived rA)
   \<and> (intel_gpu_get_info_json EI sI = Inr (Some dI, sI') \<and> rI \<in> set (records dI)
      \<and> (memory_total rI = 0
          \<or> (memory_used rI * 100 < 2 ^ 64
              \<and> memory_used rI * 100 div memory_total rI < 2 ^ 31)) \<longrightarrow>
      utilization_is_derived rI)
   \<and> (nv_gpu_get_info_json EN sN = Inr (Some dN, sN') \<and> rN \<in> set (records dN) \<longrightarrow>
      memory_utilization rN =
        (if fst (ans_nvmlDeviceGetUtilizationRates EN (nv_device_of EN rN)) = NVML_SUCCESS
         then uint (memory (snd (ans_nvmlDeviceGetUtilizationRates EN (nv_device_of EN rN))))
         else 0))"
proof -
  have a: "utilization_is_derived rA"
    if "amd_gpu_get_info_json EA sA = Inr (Some dA, sA')" "rA \<in> set (records dA)"
      "memory_total rA = 0
          \<or> (memory_used rA * 100 < 2 ^ 64
              \<and> memory_used rA * 100 div memory_total rA < 2 ^ 31)"
  proof -
    from amd_json_records [OF that(1,2)] obtain j nm g u t tp pw where
      "rA = amd_record j nm g u t tp pw" by blast
    with that(3) show ?thesis by (rule amd_record_utilization)
  qed
  have i: "utilization_is_derived rI"
    if "intel_gpu_get_info_json EI sI = Inr (Some dI, sI')" "rI \<in> set (records dI)"
      "memory_total rI = 0
          \<or> (memory_used rI * 100 < 2 ^ 64
              \<and> memory_used rI * 100 div memory_total rI < 2 ^ 31)"
  proof -
    from intel_json_shape [OF that(1)] that(2) obtain nm g u t tp pw where
      "rI = intel_record nm g u t tp pw" by auto
    with that(3) show ?thesis by (rule intel_record_utilization)
  qed
  have n: "memory_utilization rN =
        (if fst (ans_nvmlDeviceGetUtilizationRates EN (nv_device_of EN rN)) = NVML_SUCCESS
         then uint (memory (snd (ans_nvmlDeviceGetUtilizationRates EN (nv_device_of EN rN))))
         else 0)"
    if "nv_gpu_get_info_json EN sN = Inr (Some dN, sN')" "rN \<in> set (records dN)"
  proof -
    from nv_json_records [OF that]
    have "memory_utilization rN =
        memory_utilization (nv_record EN (nat (index rN)) (nv_device_of EN rN))"
      by (rule arg_cong)
    then show ?thesis by (simp only: nv_record_fields)
  qed
  from a i n show ?thesis by blast
qed

theorem memory_utilization_by_backend_witness:
  "records_of (amd_gpu_get_info_json amd_machine (amd_after_init amd_machine)) \<noteq> []
   \<and> memory_used (hd (records_of (amd_gpu_get_info_json amd_machine
        (amd_after_init amd_machine)))) * 100 < 2 ^ 64
   \<and> utilization_is_derived
       (hd (records_of (amd_gpu_get_info_json amd_machine (amd_after_init amd_machine))))
   \<and> records_of (intel_gpu_get_info_json intel_machine (intel_after_init intel_machine)) \<noteq> []
   \<and> utilization_is_derived
       (hd (records_of (intel_gpu_get_info_json intel_machine (intel_after_init intel_machine))))
   \<and> records_of (nv_gpu_get_info_json nv_machine (nv_after_init nv_machine)) \<noteq> []
   \<and> memory_utilization
       (hd (records_of (nv_gpu_get_info_json nv_machine (nv_after_init nv_machine)))) = 60"
proof -
  let ?a = "amd_gpu_get_info_json amd_machine (amd_after_init amd_machine)"
  let ?i = "intel_gpu_get_info_json intel_machine (intel_after_init intel_machine)"
  let ?n = "nv_gpu_get_info_json nv_machine (nv_after_init nv_machine)"
  have ra: "map memory_used (records_of ?a) = [2147483648, 2147483648]"
    "map memory_total (records_of ?a) = [8589934592, 8589934592]"
    by (simp_all add: amd_eval)
  then have na: "records_of ?a \<noteq> []" by auto
  from ra have ha: "memory_used (hd (records_of ?a)) = 2147483648"
    "memory_total (hd (records_of ?a)) = 8589934592"
    by (cases "records_of ?a"; auto)+
  have ri: "map memory_used (records_of ?i) = [2147483648]"
    "map memory_total (records_of ?i) = [8589934592]"
    by (simp_all add: intel_eval)
  then have ni: "records_of ?i \<noteq> []" by auto
  from ri have hi: "memory_used (hd (records_of ?i)) = 2147483648"
    "memory_total (hd (records_of ?i)) = 8589934592"
    by (cases "records_of ?i"; auto)+
  have rn: "map index (records_of ?n) = [0, 1]"
    by (simp add: nv_eval)
  then have nn: "records_of ?n \<noteq> []" by auto
  from na obtain dA where dA: "?a = Inr (Some dA, state_after (amd_after_init amd_machine) ?a)"
    "hd (records_of ?a) \<in> set (records dA)"
    by (rule records_of_nonempty)
  from ni obtain dI where dI: "?i = Inr (Some dI, state_after (intel_after_init intel_machine) ?i)"
    "hd (records_of ?i) \<in> set (records dI)"
    by (rule records_of_nonempty)
  from nn obtain dN where dN: "?n = Inr (Some dN, state_after (nv_after_init nv_machine) ?n)"
    "hd (records_of ?n) \<in> set (records dN)"
    by (rule records_of_nonempty)
  note t = memory_utilization_by_backend [where EA = amd_machine
      and sA = "amd_after_init amd_machine" and dA = dA
      and sA' = "state_after (amd_after_init amd_machine) ?a" and rA = "hd (records_of ?a)"
      and EI = intel_machine and sI = "intel_after_init intel_machine" and dI = dI
      and sI' = "state_after (intel_after_init intel_machine) ?i" and rI = "hd (records_of ?i)"
      and EN = nv_machine and sN = "nv_after_init nv_machine"
      and dN = dN and sN' = "state_after (nv_after_init nv_machine) ?n"
      and rN = "hd (records_of ?n)"]
  have pa: "memory_used (hd (records_of ?a)) * 100 < 2 ^ 64
      \<and> memory_used (hd (records_of ?a)) * 100 div memory_total (hd (records_of ?a)) < 2 ^ 31"
    by (simp add: ha)
  have pi: "memory_used (hd (records_of ?i)) * 100 < 2 ^ 64
      \<and> memory_used (hd (records_of ?i)) * 100 div memory_total (hd (records_of ?i)) < 2 ^ 31"
    by (simp add: hi)
  from t dA pa have c1: "utilization_is_derived (hd (records_of ?a))" by blast
  from t dI pi have c2: "utilization_is_derived (hd (records_of ?i))" by blast
  from t dN have "memory_utilization (hd (records_of ?n)) =
        (if fst (ans_nvmlDeviceGetUtilizationRates nv_machine
              (nv_device_of nv_machine (hd (records_of ?n)))) = NVML_SUCCESS
         then uint (memory (snd (ans_nvmlDeviceGetUtilizationRates nv_machine
              (nv_device_of nv_machine (hd (records_of ?n))))))
         else 0)"
    by blast
  then have c3: "memory_utilization (hd (records_of ?n)) = 60"
    by (simp add: nv_machine_def NVML_SUCCESS_def)
  from na ni nn pa c1 c2 c3 show ?thesis by blast
qed

text \<open>
  C2 as stated fails. On the NVIDIA machine the record carries the memory-controller
  utilization 60 that NVML reports, while 2 GiB used of 8 GiB total is 25 percent. On the
  Intel machine with \<open>2 * 10^17\<close> bytes reported in use the product by 100 wraps around
  in 64 bits and the record carries 180822788.
\<close>

theorem memory_utilization_counterexample:
  "map memory_utilization
      (records_of (nv_gpu_get_info_json nv_machine (nv_after_init nv_machine))) = [60, 60]
   \<and> map memory_used
      (records_of (nv_gpu_get_info_json nv_machine (nv_after_init nv_machine)))
       = [2147483648, 2147483648]
   \<and> map memory_total
      (records_of (nv_gpu_get_info_json nv_machine (nv_after_init nv_machine)))
       = [8589934592, 8589934592]
   \<and> map utilization_is_derived
      (records_of (nv_gpu_get_info_json nv_machine (nv_after_init nv_machine)))
       = [False, False]
   \<and> map memory_utilization (records_of (intel_gpu_get_info_json intel_huge_memory
        (intel_after_init intel_huge_memory))) = [180822788]
   \<and> map utilization_is_derived (records_of (intel_gpu_get_info_json intel_huge_memory
        (intel_after_init intel_huge_memory))) = [False]"
  by (simp add: nv_eval intel_eval intel_huge_memory_def utilization_is_derived_def)

subsection \<open>The NVIDIA snapshot returns\<close>

lemma separated_snoc:
  "separated (rs @ [r]) = separated rs @ (if rs = [] then [] else [Comma]) @ [Rec r]"
  by (induction rs rule: separated.induct) simp_all

lemma records_separated [simp]: "records (separated rs) = rs"
  by (induction rs rule: separated.induct) simp_all

lemma nv_device_ready:
  assumes "callable (nvmlDeviceGetHandleByIndex s) w" "callable (nvmlDeviceGetName s) w"
    "callable (nvmlDeviceGetUtilizationRates s) w" "callable (nvmlDeviceGetMemoryInfo s) w"
    "callable (nvmlDeviceGetTemperature s) w" "callable (nvmlDeviceGetPowerUsage s) w"
  shows "\<exists>w'. nv_device E s i w = Inr (nv_pieces E i, w') \<and> modules w' = modules w"
proof -
  obtain rc dev where a: "ans_nvmlDeviceGetHandleByIndex E i = (rc, dev)"
    by (cases "ans_nvmlDeviceGetHandleByIndex E i")
  from assms show ?thesis
    by (simp add: nv_device_def nv_pieces_def a call_fptr_callable)
qed

text \<open>
  A turn of the loop appends at most 512 characters: a comma and the at most 511
  characters that \<^verbatim>\<open>snprintf\<close> left in \<^verbatim>\<open>gpu_info\<close>.
\<close>

lemma nv_pieces_length: "strlen (nv_chars E) (nv_pieces E i) \<le> 512"
proof -
  obtain rc dev where a: "ans_nvmlDeviceGetHandleByIndex E i = (rc, dev)"
    by (cases "ans_nvmlDeviceGetHandleByIndex E i")
  with chars_bound(1) [of E "nv_record E i dev"] show ?thesis
    by (auto simp: nv_pieces_def)
qed

lemma nv_loop_ready:
  assumes "callable (nvmlDeviceGetHandleByIndex s) w" "callable (nvmlDeviceGetName s) w"
    "callable (nvmlDeviceGetUtilizationRates s) w" "callable (nvmlDeviceGetMemoryInfo s) w"
    "callable (nvmlDeviceGetTemperature s) w" "callable (nvmlDeviceGetPowerUsage s) w"
    "strlen (nv_chars E) buf + 512 * (n - i) + 1 \<le> sz"
  shows "\<exists>w'. nv_loop E s sz i n buf w = Inr (buf @ concat (map (nv_pieces E) [i..<n]), w')"
  using assms
proof (induction E s sz i n buf w rule: nv_loop.induct)
  case (1 E s sz i n buf w)
  show ?case
  proof (cases "i < n")
    case False
    then show ?thesis by (subst nv_loop.simps) simp
  next
    case True
    from nv_device_ready [OF "1.prems"(1-6), of E i] obtain w1 where
      d: "nv_device E s i w = Inr (nv_pieces E i, w1)" and m: "modules w1 = modules w"
      by blast
    from "1.prems" m have c: "callable (nvmlDeviceGetHandleByIndex s) w1"
      "callable (nvmlDeviceGetName s) w1" "callable (nvmlDeviceGetUtilizationRates s) w1"
      "callable (nvmlDeviceGetMemoryInfo s) w1" "callable (nvmlDeviceGetTemperature s) w1"
      "callable (nvmlDeviceGetPowerUsage s) w1"
      by (simp_all add: callable_def split: fptr.splits)
    from True have k: "n - i = Suc (n - Suc i)" by simp
    from nv_pieces_length [of E i] "1.prems"(7) k
    have f: "strlen (nv_chars E) buf + strlen (nv_chars E) (nv_pieces E i) + 1 \<le> sz"
      and f': "strlen (nv_chars E) (buf @ nv_pieces E i) + 512 * (n - Suc i) + 1 \<le> sz"
      by simp_all
    from "1.IH" [OF True c f'] obtain w' where
      "nv_loop E s sz (Suc i) n (buf @ nv_pieces E i) w1
        = Inr ((buf @ nv_pieces E i) @ concat (map (nv_pieces E) [Suc i..<n]), w')"
      by blast
    with d True strcat_each_fits [OF f] show ?thesis
      by (subst nv_loop.simps) (simp add: upt_conv_Cons)
  qed
qed

lemma strlen_concat_pieces:
  "strlen (nv_chars E) (concat (map (nv_pieces E) [i..<n])) \<le> 512 * (n - i)"
proof (induction n)
  case 0
  then show ?case by simp
next
  case (Suc n)
  show ?case
  proof (cases "i \<le> n")
    case False
    then show ?thesis by simp
  next
    case True
    then have "Suc n - i = Suc (n - i)" by simp
    with True Suc nv_pieces_length [of E n] show ?thesis by simp
  qed
qed

text \<open>
  \<^verbatim>\<open>1024 + (device_count * 512)\<close> is computed in 32-bit unsigned arithmetic: below
  8388606 devices it does not wrap around.
\<close>

lemma nv_buffer_size:
  fixes c :: "32 word"
  assumes "unat c < 8388606"
  shows "unat (1024 + c * 512) = 1024 + unat c * 512"
proof -
  from assms have "unat c * 512 < 2 ^ 32" by simp
  then have m: "unat (c * 512) = unat c * 512"
    by (simp add: unat_mult_lem [THEN iffD1])
  with assms have "unat (1024 :: 32 word) + unat (c * 512) < 2 ^ 32" by simp
  then have "unat (1024 + c * 512) = unat (1024 :: 32 word) + unat (c * 512)"
    by (simp add: unat_add_lem [THEN iffD1])
  with m show ?thesis by simp
qed

lemma nv_json_ready:
  assumes "nv_ready s" "ans_nvmlDeviceGetCount E = (NVML_SUCCESS, c)" "nv_malloc_ok E"
    "unat c < 8388606"
  shows "\<exists>s'. nv_gpu_get_info_json E s =
     Inr (Some ([Open] @ concat (map (nv_pieces E) [0..<unat c]) @ [Close]), s')"
proof -
  let ?w = "emit (EvCall ''nvmlDeviceGetCount'') (nv_os s)"
  let ?sz = "1024 + unat c * 512"
  from assms(1) have c: "callable (nvmlDeviceGetHandleByIndex s) ?w"
      "callable (nvmlDeviceGetName s) ?w" "callable (nvmlDeviceGetUtilizationRates s) ?w"
      "callable (nvmlDeviceGetMemoryInfo s) ?w" "callable (nvmlDeviceGetTemperature s) ?w"
      "callable (nvmlDeviceGetPowerUsage s) ?w"
    by (simp_all add: nv_ready_def)
  have "strlen (nv_chars E) [Open] + 512 * (unat c - 0) + 1 \<le> ?sz" by simp
  from nv_loop_ready [OF c this] obtain w' where
    l: "nv_loop E s ?sz 0 (unat c) [Open] ?w
       = Inr ([Open] @ concat (map (nv_pieces E) [0..<unat c]), w')"
    by blast
  from strlen_concat_pieces [of E 0 "unat c"]
  have "strlen (nv_chars E) ([Open] @ concat (map (nv_pieces E) [0..<unat c])) + 3 \<le> ?sz"
    by simp
  with assms l show ?thesis
    by (simp add: nv_gpu_get_info_json_def nv_ready_def call_fptr_callable
        nv_buffer_size [OF assms(4)] strcat_def)
qed

lemma nv_records_filter:
  "records (concat (map (nv_pieces E) xs)) =
     map (\<lambda>i. nv_record E i (snd (ans_nvmlDeviceGetHandleByIndex E i)))
       (filter (\<lambda>i. fst (ans_nvmlDeviceGetHandleByIndex E i) = NVML_SUCCESS) xs)"
  by (induction xs) (simp_all add: nv_pieces_records)

lemma nv_pieces_all_found:
  assumes "\<forall>i < n. fst (ans_nvmlDeviceGetHandleByIndex E i) = NVML_SUCCESS"
  shows "concat (map (nv_pieces E) [0..<n]) =
     separated (map (\<lambda>i. nv_record E i (snd (ans_nvmlDeviceGetHandleByIndex E i))) [0..<n])"
  using assms
proof (induction n)
  case 0
  then show ?case by simp
next
  case (Suc n)
  then have ih: "concat (map (nv_pieces E) [0..<n]) =
     separated (map (\<lambda>i. nv_record E i (snd (ans_nvmlDeviceGetHandleByIndex E i))) [0..<n])"
    by simp
  obtain rc dev where a: "ans_nvmlDeviceGetHandleByIndex E n = (rc, dev)"
    by (cases "ans_nvmlDeviceGetHandleByIndex E n")
  from Suc.prems have "fst (ans_nvmlDeviceGetHandleByIndex E n) = NVML_SUCCESS" by blast
  with a have "rc = NVML_SUCCESS" by simp
  with a have p: "nv_pieces E n = (if n > 0 then [Comma] else [])
      @ [Rec (nv_record E n (snd (ans_nvmlDeviceGetHandleByIndex E n)))]"
    by (simp add: nv_pieces_def)
  show ?case
    by (simp add: ih p separated_snoc)
qed

subsection \<open>The AMD snapshot returns\<close>

lemma perf_util_total:
  fixes s :: "('a) perf_state_scheme"
  assumes "float_fits (doubleValue smp)"
  shows "\<not> faults (get_gpu_utilization_perf_counter smp s)"
proof -
  from assms obtain v where "float_to_int (doubleValue smp) = Inr v"
    by (auto simp: float_fits_def not_faults_iff)
  then show ?thesis
    by (simp add: get_gpu_utilization_perf_counter_def Let_def split: option.splits)
qed

lemma amd_ready_only_calls:
  assumes "only_calls v s s'" "amd_ready s"
  shows "amd_ready s'"
proof -
  from assms(1) obtain evs where "s' = with_trace evs s"
    unfolding only_calls_def by blast
  with assms(2) show ?thesis by (simp add: amd_ready_def)
qed

lemma amd_memory_ready:
  assumes "amd_ready s"
  shows "\<not> faults (amd_get_gpu_memory_usage E i s)"
proof (cases "ags_initialized s \<and> agsGetGPUMemoryUsage s \<noteq> NullFn")
  case False
  then show ?thesis by (auto simp: amd_get_gpu_memory_usage_def)
next
  case True
  with assms have "callable (agsGetGPUMemoryUsage s) (sys s)" by (simp add: amd_ready_def)
  with True show ?thesis
    by (simp add: amd_get_gpu_memory_usage_def call_fptr_callable split: prod.splits)
qed

lemma amd_util_ready:
  assumes "amd_ready s"
    "float_fits (gpuUsagePercent (snd (ans_agsGetGPUMemoryUsage E AtUtilization i)))"
    "float_fits (doubleValue (ans_sample E i))"
  shows "\<not> faults (amd_get_gpu_utilization E i s)"
proof (cases "ags_initialized s \<and> agsGetGPUMemoryUsage s \<noteq> NullFn")
  case False
  then show ?thesis
    by (auto simp: amd_get_gpu_utilization_def perf_util_total [OF assms(3)])
next
  case True
  with assms have c: "callable (agsGetGPUMemoryUsage s) (sys s)" by (simp add: amd_ready_def)
  obtain code usage where a: "ans_agsGetGPUMemoryUsage E AtUtilization i = (code, usage)"
    by (cases "ans_agsGetGPUMemoryUsage E AtUtilization i")
  with assms(2) obtain v where "float_to_int (gpuUsagePercent usage) = Inr v"
    by (auto simp: float_fits_def not_faults_iff)
  with True c a show ?thesis
    by (simp add: amd_get_gpu_utilization_def call_fptr_callable perf_util_total [OF assms(3)])
qed

lemma amd_details_ready:
  assumes "amd_ready s" "0 \<le> i"
  shows "\<not> faults (amd_details E i s)"
proof (cases "ags_initialized s \<and> i < numDevices (gpu_info s)")
  case False
  then show ?thesis by (auto simp: amd_details_def)
next
  case True
  with assms have b: "\<not> (i < 0 \<or> int (length (devices (gpu_info s))) \<le> i)"
    and c: "agsGetGPUMemoryUsage s = NullFn \<or> callable (agsGetGPUMemoryUsage s) (sys s)"
    by (auto simp: amd_ready_def)
  from c show ?thesis
  proof
    assume "agsGetGPUMemoryUsage s = NullFn"
    with True b show ?thesis by (simp add: amd_details_def Let_def)
  next
    assume "callable (agsGetGPUMemoryUsage s) (sys s)"
    then have "agsGetGPUMemoryUsage s \<noteq> NullFn"
      "call_fptr ''agsGetGPUMemoryUsage'' (agsGetGPUMemoryUsage s) (sys s)
        = Inr (emit (EvCall ''agsGetGPUMemoryUsage'') (sys s))"
      by (auto simp: call_fptr_callable)
    with True b show ?thesis
      by (simp add: amd_details_def Let_def split: prod.splits)
  qed
qed

lemma amd_device_ready:
  assumes "amd_ready s" "0 \<le> i"
    "float_fits (gpuUsagePercent (snd (ans_agsGetGPUMemoryUsage E AtUtilization i)))"
    "float_fits (doubleValue (ans_sample E i))"
  shows "\<not> faults (amd_device E i s)"
proof -
  from amd_memory_ready [OF assms(1), of E i] obtain u s1 where
    m: "amd_get_gpu_memory_usage E i s = Inr (u, s1)"
    by (auto simp: not_faults_iff)
  from amd_ready_only_calls [OF amd_memory_frame [OF m] assms(1)] have r1: "amd_ready s1" .
  from amd_util_ready [OF r1 assms(3,4)] obtain g s2 where
    g: "amd_get_gpu_utilization E i s1 = Inr (g, s2)"
    by (auto simp: not_faults_iff)
  from amd_ready_only_calls [OF amd_util_frame [OF g] r1] have r2: "amd_ready s2" .
  from amd_details_ready [OF r2 assms(2), of E] obtain d s3 where
    d: "amd_details E i s2 = Inr (d, s3)"
    by (auto simp: not_faults_iff)
  from m g d show ?thesis
    by (simp add: amd_device_def split: prod.splits)
qed

lemma amd_loop_ready:
  "amd_ready s \<Longrightarrow> 0 \<le> i \<Longrightarrow>
   (\<forall>j. float_fits (gpuUsagePercent (snd (ans_agsGetGPUMemoryUsage E AtUtilization j)))
        \<and> float_fits (doubleValue (ans_sample E j))) \<Longrightarrow>
   strlen (amd_chars E) buf + 1024 * nat (n - i) + 1 \<le> sz \<Longrightarrow>
   \<not> faults (amd_loop E sz i n buf s)"
proof (induction E sz i n buf s rule: amd_loop.induct)
  case (1 E sz i n buf s)
  show ?case
  proof (cases "i < n")
    case False
    then show ?thesis by (subst amd_loop.simps) simp
  next
    case True
    from "1.prems"(3) have f: "float_fits (gpuUsagePercent
        (snd (ans_agsGetGPUMemoryUsage E AtUtilization i)))"
      "float_fits (doubleValue (ans_sample E i))" by blast+
    from amd_device_ready [OF "1.prems"(1,2) f] obtain ps s1 where
      d: "amd_device E i s = Inr (ps, s1)"
      by (auto simp: not_faults_iff)
    from amd_ready_only_calls [OF amd_device_frame [OF d] "1.prems"(1)] have r1: "amd_ready s1" .
    from "1.prems"(2) have "0 \<le> i + 1" by simp
    from True have k: "nat (n - i) = Suc (nat (n - (i + 1)))" by simp
    from amd_device_length [OF d] "1.prems"(4) k
    have c: "strlen (amd_chars E) buf + strlen (amd_chars E) ps + 1 \<le> sz"
      and c': "strlen (amd_chars E) (buf @ ps) + 1024 * nat (n - (i + 1)) + 1 \<le> sz"
      by simp_all
    from "1.IH" [OF True r1 \<open>0 \<le> i + 1\<close> "1.prems"(3) c']
    have "\<not> faults (amd_loop E sz (i + 1) n (buf @ ps) s1)" .
    with d True strcat_each_fits [OF c] show ?thesis by (subst amd_loop.simps) simp
  qed
qed

lemma amd_record_index [simp]: "index (amd_record i nm g u t tp pw) = i"
  by (simp add: amd_record_def Let_def)

lemma amd_loop_shape:
  "amd_loop E sz i n buf s = Inr (buf', s') \<Longrightarrow> 0 \<le> i \<Longrightarrow> i \<le> n \<Longrightarrow>
   buf = Open # separated rs \<Longrightarrow> map index rs = map int [0..<nat i] \<Longrightarrow>
   \<exists>rs'. buf' = Open # separated rs' \<and> map index rs' = map int [0..<nat n]"
proof (induction E sz i n buf s arbitrary: rs rule: amd_loop.induct)
  case (1 E sz i n buf s)
  show ?case
  proof (cases "i < n")
    case False
    with "1.prems" have "buf' = buf" "i = n" by (subst (asm) amd_loop.simps; simp)+
    with "1.prems" show ?thesis by blast
  next
    case True
    with "1.prems"(1) obtain ps s1 where
      d: "amd_device E i s = Inr (ps, s1)"
      and l: "amd_loop E sz (i + 1) n (buf @ ps) s1 = Inr (buf', s')"
      by (subst (asm) amd_loop.simps) (auto simp: bindF_Inr_iff dest: strcat_each_Inr)
    from amd_device_shape [OF d] obtain nm g u t tp pw where
      ps: "ps = (if i > 0 then [Comma] else []) @ [Rec (amd_record i nm g u t tp pw)]"
      by blast
    let ?r = "amd_record i nm g u t tp pw"
    from "1.prems"(5) have len: "length rs = nat i"
      by (metis length_map length_upt minus_nat.diff_0)
    with "1.prems"(2) have e: "rs = [] \<longleftrightarrow> \<not> i > 0" by auto
    from "1.prems"(4) ps e have b: "buf @ ps = Open # separated (rs @ [?r])"
      by (simp add: separated_snoc)
    from "1.prems"(2) have n: "nat (i + 1) = Suc (nat i)" by simp
    from "1.prems"(2,5) have m: "map index (rs @ [?r]) = map int [0..<nat (i + 1)]"
      by (simp add: n)
    from "1.prems"(2) True have c: "0 \<le> i + 1" "i + 1 \<le> n" by simp_all
    from "1.IH" [OF True l c b m] show ?thesis .
  qed
qed

text \<open>
  \<^verbatim>\<open>1024 + (device_count * 1024)\<close> is computed in \<^verbatim>\<open>int\<close>: up to 2097150 devices it
  does not overflow.
\<close>

lemma amd_json_count:
  assumes "1 \<le> amd_gpu_get_count s" "ans_malloc E" "amd_ready s"
    "\<forall>j. float_fits (gpuUsagePercent (snd (ans_agsGetGPUMemoryUsage E AtUtilization j)))
        \<and> float_fits (doubleValue (ans_sample E j))"
    "amd_gpu_get_count s \<le> 2097150"
  shows "\<exists>d s'. amd_gpu_get_info_json E s = Inr (Some d, s')
           \<and> length (records d) = nat (amd_gpu_get_count s) \<and> well_formed d
           \<and> map index (records d) = map int [0..<nat (amd_gpu_get_count s)]"
proof -
  let ?n = "amd_gpu_get_count s"
  let ?sz = "nat (1024 + ?n * 1024)"
  from assms(1) have sz: "?sz = 1024 + 1024 * nat ?n" by simp
  then have "strlen (amd_chars E) [Open] + 1024 * nat (?n - 0) + 1 \<le> ?sz" by simp
  from amd_loop_ready [OF assms(3) _ assms(4) this] obtain buf s' where
    l: "amd_loop E ?sz 0 ?n [Open] s = Inr (buf, s')"
    by (auto simp: not_faults_iff)
  from assms(1) have "0 \<le> ?n" by simp
  from amd_loop_shape [OF l _ this, of "[]"] obtain rs where
    rs: "buf = Open # separated rs" "map index rs = map int [0..<nat ?n]"
    by auto
  from rs(2) have len: "length rs = nat ?n"
    by (metis length_map length_upt minus_nat.diff_0)
  from amd_loop_length [OF l] sz have "strlen (amd_chars E) buf + 3 \<le> ?sz" by simp
  with l assms(1,2,5) have j: "amd_gpu_get_info_json E s = Inr (Some (buf @ [Close]), s')"
    by (simp add: amd_gpu_get_info_json_def Let_def int_result_def strcat_def)
  from rs(1) have r: "records (buf @ [Close]) = rs" by simp
  with rs(1) have w: "well_formed (buf @ [Close])" by (simp add: well_formed_def)
  from j r w len rs(2) show ?thesis by auto
qed

lemma memory_percent_unused [simp]: "memory_percent 0 t = 0"
  by (simp add: memory_percent_def)

lemma amd_memory_default:
  assumes "\<not> perf_counters_initialized s"
    "fst (ans_agsGetGPUMemoryUsage E AtMemoryUsage i) \<noteq> AGS_SUCCESS"
    "amd_get_gpu_memory_usage E i s = Inr (u, s1)"
  shows "u = 0"
proof (cases "ans_agsGetGPUMemoryUsage E AtMemoryUsage i")
  case (Pair code usage)
  with assms show ?thesis
    by (auto simp: amd_get_gpu_memory_usage_def bindF_Inr_iff perf_counter_unavailable
        split: if_splits)
qed

lemma amd_util_default:
  assumes "\<not> perf_counters_initialized s"
    "fst (ans_agsGetGPUMemoryUsage E AtUtilization i) \<noteq> AGS_SUCCESS"
    "amd_get_gpu_utilization E i s = Inr (g, s2)"
  shows "g = - 1"
proof (cases "ans_agsGetGPUMemoryUsage E AtUtilization i")
  case (Pair code usage)
  with assms show ?thesis
    by (auto simp: amd_get_gpu_utilization_def bindF_Inr_iff perf_counter_unavailable
        split: if_splits)
qed

lemma amd_details_default:
  assumes "fst (ans_agsGetGPUMemoryUsage E AtInfoJson i) \<noteq> AGS_SUCCESS"
    "amd_details E i s = Inr ((nm, t, tp, pw), s')"
  shows "tp = 0 \<and> pw = 0"
proof (cases "ans_agsGetGPUMemoryUsage E AtInfoJson i")
  case (Pair code usage)
  with assms show ?thesis
    by (auto simp: amd_details_def Let_def bindF_Inr_iff split: if_splits)
qed

lemma amd_device_defaults:
  assumes "\<not> perf_counters_initialized s" "stats_fail E i" "amd_device E i s = Inr (ps, s')"
  shows "\<exists>nm t. ps = (if i > 0 then [Comma] else []) @ [Rec (amd_record i nm (- 1) 0 t 0 0)]"
proof -
  from assms(3) obtain u s1 g s2 nm t tp pw where
    m: "amd_get_gpu_memory_usage E i s = Inr (u, s1)"
    and g: "amd_get_gpu_utilization E i s1 = Inr (g, s2)"
    and d: "amd_details E i s2 = Inr ((nm, t, tp, pw), s')"
    and ps: "ps = (if i > 0 then [Comma] else []) @ [Rec (amd_record i nm g u t tp pw)]"
    by (auto simp: amd_device_def bindF_Inr_iff split: prod.splits)
  from assms(2) have f: "fst (ans_agsGetGPUMemoryUsage E AtMemoryUsage i) \<noteq> AGS_SUCCESS"
    "fst (ans_agsGetGPUMemoryUsage E AtUtilization i) \<noteq> AGS_SUCCESS"
    "fst (ans_agsGetGPUMemoryUsage E AtInfoJson i) \<noteq> AGS_SUCCESS"
    by (simp_all add: stats_fail_def)
  from amd_memory_default [OF assms(1) f(1) m] have u: "u = 0" .
  from only_calls_fields(4) [OF amd_memory_frame [OF m]] assms(1)
  have p1: "\<not> perf_counters_initialized s1" by simp
  from amd_util_default [OF p1 f(2) g] have g': "g = - 1" .
  from amd_details_default [OF f(3) d] have "tp = 0" "pw = 0" by simp_all
  with ps u g' show ?thesis by blast
qed

lemma zero_stats_amd_record: "zero_stats (amd_record i nm (- 1) 0 t 0 0)"
  by (simp add: zero_stats_def amd_record_def Let_def)

lemma amd_loop_defaults:
  "\<not> perf_counters_initialized s \<Longrightarrow> amd_loop E sz i n buf s = Inr (buf', s') \<Longrightarrow>
   (\<forall>r\<in>set (records buf). stats_fail E (index r) \<longrightarrow> zero_stats r) \<Longrightarrow>
   (\<forall>r\<in>set (records buf'). stats_fail E (index r) \<longrightarrow> zero_stats r)"
proof (induction E sz i n buf s rule: amd_loop.induct)
  case (1 E sz i n buf s)
  show ?case
  proof (cases "i < n")
    case False
    with "1.prems" have "buf' = buf" by (subst (asm) amd_loop.simps) simp
    with "1.prems" show ?thesis by simp
  next
    case True
    with "1.prems"(2) obtain ps s1 where
      d: "amd_device E i s = Inr (ps, s1)"
      and l: "amd_loop E sz (i + 1) n (buf @ ps) s1 = Inr (buf', s')"
      by (subst (asm) amd_loop.simps) (auto simp: bindF_Inr_iff dest: strcat_each_Inr)
    from only_calls_fields(4) [OF amd_device_frame [OF d]] "1.prems"(1)
    have p1: "\<not> perf_counters_initialized s1" by simp
    from amd_device_shape [OF d] obtain nm g u t tp pw where
      ps: "ps = (if i > 0 then [Comma] else []) @ [Rec (amd_record i nm g u t tp pw)]"
      by blast
    have "\<forall>r\<in>set (records ps). stats_fail E (index r) \<longrightarrow> zero_stats r"
    proof (cases "stats_fail E i")
      case False
      with ps show ?thesis by simp
    next
      case True
      from amd_device_defaults [OF "1.prems"(1) True d] obtain nm' t' where
        "ps = (if i > 0 then [Comma] else []) @ [Rec (amd_record i nm' (- 1) 0 t' 0 0)]"
        by blast
      then show ?thesis by (simp add: zero_stats_amd_record)
    qed
    with "1.prems"(3)
    have "\<forall>r\<in>set (records (buf @ ps)). stats_fail E (index r) \<longrightarrow> zero_stats r"
      by auto
    from "1.IH" [OF True p1 l this] show ?thesis .
  qed
qed

lemma amd_json_defaults:
  assumes "amd_gpu_get_info_json E s = Inr (Some d, s')" "\<not> perf_counters_initialized s"
    "r \<in> set (records d)" "stats_fail E (index r)"
  shows "zero_stats r"
proof -
  from assms(1) obtain sz buf where
    l: "amd_loop E sz 0 (amd_gpu_get_count s) [Open] s = Inr (buf, s')" and d: "d = buf @ [Close]"
    by (auto simp: amd_gpu_get_info_json_def Let_def bindF_Inr_iff strcat_Inr_iff
        split: if_splits)
  from amd_loop_defaults [OF assms(2) l] have
    "\<forall>r\<in>set (records buf). stats_fail E (index r) \<longrightarrow> zero_stats r" by simp
  with assms(3,4) d show ?thesis by simp
qed

subsection \<open>The Intel snapshot returns\<close>

lemma intel_ready_only_calls:
  assumes "only_calls v s s'" "intel_ready s"
  shows "intel_ready s'"
proof -
  from assms(1) obtain evs where "s' = with_trace evs s"
    unfolding only_calls_def by blast
  with assms(2) show ?thesis by (simp add: intel_ready_def)
qed

lemma intel_call_ok:
  assumes "intel_ready s" "igcl_initialized s" "igcl_get_device_stats s \<noteq> NullFn"
  shows "call_fptr nm (igcl_get_device_stats s) (sys s) = Inr (emit (EvCall nm) (sys s))"
  using assms by (auto simp: intel_ready_def call_fptr_callable)

lemma intel_call_ok':
  assumes "intel_ready s" "igcl_initialized s" "igcl_get_device_info s \<noteq> NullFn"
  shows "call_fptr nm (igcl_get_device_info s) (sys s) = Inr (emit (EvCall nm) (sys s))"
  using assms by (auto simp: intel_ready_def call_fptr_callable)

lemma intel_steps_ready:
  assumes "intel_ready s"
  shows "float_fits (doubleValue (ans_sample E 0)) \<Longrightarrow> \<not> faults (intel_get_gpu_utilization E s)"
    "\<not> faults (intel_get_gpu_memory_usage E s)"
    "\<not> faults (intel_get_gpu_total_memory E s)"
    "\<not> faults (intel_name E s)"
    "\<not> faults (intel_extra E s)"
proof -
  show "\<not> faults (intel_get_gpu_utilization E s)" if "float_fits (doubleValue (ans_sample E 0))"
    using intel_call_ok [OF assms]
    by (auto simp: intel_get_gpu_utilization_def perf_util_total [OF that] split: prod.splits)
  show "\<not> faults (intel_get_gpu_memory_usage E s)"
    using intel_call_ok [OF assms]
    by (auto simp: intel_get_gpu_memory_usage_def split: prod.splits)
  show "\<not> faults (intel_get_gpu_total_memory E s)"
    using intel_call_ok' [OF assms]
    by (auto simp: intel_get_gpu_total_memory_def split: prod.splits)
  show "\<not> faults (intel_name E s)"
    using intel_call_ok' [OF assms]
    by (auto simp: intel_name_def split: prod.splits)
  show "\<not> faults (intel_extra E s)"
    using intel_call_ok [OF assms]
    by (auto simp: intel_extra_def split: prod.splits)
qed

lemma intel_json_ready:
  assumes "intel_ready s" "ans_malloc E" "float_fits (doubleValue (ans_sample E 0))"
  shows "\<exists>d s'. intel_gpu_get_info_json E s = Inr (Some d, s')
           \<and> length (records d) = 1 \<and> well_formed d"
proof -
  from intel_steps_ready(1) [OF assms(1,3)] obtain g s1 where
    a: "intel_get_gpu_utilization E s = Inr (g, s1)" by (auto simp: not_faults_iff)
  from intel_ready_only_calls [OF intel_util_frame [OF a] assms(1)] have r1: "intel_ready s1" .
  from intel_steps_ready(2) [OF r1, where E = E] obtain u s2 where
    b: "intel_get_gpu_memory_usage E s1 = Inr (u, s2)" by (auto simp: not_faults_iff)
  from intel_ready_only_calls [OF intel_memory_frame [OF b] r1] have r2: "intel_ready s2" .
  from intel_steps_ready(3) [OF r2, where E = E] obtain t s3 where
    c: "intel_get_gpu_total_memory E s2 = Inr (t, s3)" by (auto simp: not_faults_iff)
  from intel_ready_only_calls [OF intel_total_frame [OF c] r2] have r3: "intel_ready s3" .
  from intel_steps_ready(4) [OF r3, where E = E] obtain nm s4 where
    d: "intel_name E s3 = Inr (nm, s4)" by (auto simp: not_faults_iff)
  from intel_ready_only_calls [OF intel_name_frame [OF d] r3] have r4: "intel_ready s4" .
  from intel_steps_ready(5) [OF r4, where E = E] obtain x s5 where
    e: "intel_extra E s4 = Inr (x, s5)" by (auto simp: not_faults_iff)
  obtain tp pw where x: "x = (tp, pw)" by (cases x)
  from a b c d e x assms(2) have "intel_gpu_get_info_json E s =
      Inr (Some [Open, Rec (intel_record nm g u t tp pw), Close], s5)"
    by (simp add: intel_gpu_get_info_json_def)
  then show ?thesis by (auto simp: well_formed_def)
qed

subsection \<open>The utilization behind a record\<close>

text \<open>
  The value that a utilization query returns does not depend on the calls recorded so far.
\<close>

lemma perf_util_returned:
  fixes s :: "('a) perf_state_scheme" and t :: "('a) perf_state_scheme"
  assumes "query_handle s = query_handle t"
    "perf_counters_initialized s = perf_counters_initialized t"
    "gpu_util_counter s = gpu_util_counter t"
  shows "returned (get_gpu_utilization_perf_counter smp s)
       = returned (get_gpu_utilization_perf_counter smp t)"
proof (cases "float_to_int (doubleValue smp)")
  case (Inl f)
  with assms show ?thesis
    by (auto simp: get_gpu_utilization_perf_counter_def returned_def Let_def
        split: option.splits)
next
  case (Inr v)
  with assms show ?thesis
    by (auto simp: get_gpu_utilization_perf_counter_def returned_def Let_def
        split: option.splits)
qed

lemma amd_util_returned:
  "returned (amd_get_gpu_utilization E i (with_trace evs s))
     = returned (amd_get_gpu_utilization E i s)"
proof (cases "ags_initialized s \<and> agsGetGPUMemoryUsage s \<noteq> NullFn")
  case False
  then show ?thesis
    by (auto simp: amd_get_gpu_utilization_def intro: perf_util_returned)
next
  case True
  obtain code usage where a: "ans_agsGetGPUMemoryUsage E AtUtilization i = (code, usage)"
    by (cases "ans_agsGetGPUMemoryUsage E AtUtilization i")
  show ?thesis
  proof (cases "callable (agsGetGPUMemoryUsage s) (sys s)")
    case False
    with True show ?thesis
      by (auto simp: amd_get_gpu_utilization_def call_fptr_def callable_def returned_def
          split: fptr.splits)
  next
    case c: True
    then have c': "callable (agsGetGPUMemoryUsage s) (sys (with_trace evs s))"
      by (simp add: callable_def split: fptr.splits)
    show ?thesis
    proof (cases "code = AGS_SUCCESS")
      case True
      with \<open>ags_initialized s \<and> agsGetGPUMemoryUsage s \<noteq> NullFn\<close> a c c' show ?thesis
        by (cases "float_to_int (gpuUsagePercent usage)")
          (simp_all add: amd_get_gpu_utilization_def call_fptr_callable returned_def)
    next
      case False
      with \<open>ags_initialized s \<and> agsGetGPUMemoryUsage s \<noteq> NullFn\<close> a c c' show ?thesis
        by (auto simp: amd_get_gpu_utilization_def call_fptr_callable
            intro: perf_util_returned)
    qed
  qed
qed

lemma amd_record_util [simp]: "gpu_utilization (amd_record i nm g u t tp pw) = max g 0"
  by (simp add: amd_record_def Let_def max_def)

lemma intel_record_util [simp]: "gpu_utilization (intel_record nm g u t tp pw) = max g 0"
  by (simp add: intel_record_def Let_def max_def)

lemma amd_device_util:
  assumes "amd_device E i s = Inr (ps, s')"
  shows "\<exists>r g. ps = (if i > 0 then [Comma] else []) @ [Rec r] \<and> index r = i
           \<and> returned (amd_get_gpu_utilization E i s) = Some g \<and> amd_util_source E i g
           \<and> gpu_utilization r = max g 0"
proof -
  from assms obtain u s1 g s2 nm t tp pw where
    m: "amd_get_gpu_memory_usage E i s = Inr (u, s1)"
    and g: "amd_get_gpu_utilization E i s1 = Inr (g, s2)"
    and ps: "ps = (if i > 0 then [Comma] else []) @ [Rec (amd_record i nm g u t tp pw)]"
    by (auto simp: amd_device_def bindF_Inr_iff split: prod.splits)
  from amd_memory_frame [OF m] obtain evs where "s1 = with_trace evs s"
    unfolding only_calls_def by blast
  with g amd_util_returned [of E i evs s]
  have "returned (amd_get_gpu_utilization E i s) = Some g"
    by (simp add: returned_def)
  with amd_util_source [OF g] ps show ?thesis by simp
qed

lemma amd_loop_util:
  "amd_loop E sz i n buf s = Inr (buf', s') \<Longrightarrow> r \<in> set (records buf') \<Longrightarrow>
     r \<in> set (records buf)
     \<or> (\<exists>g. returned (amd_get_gpu_utilization E (index r) s) = Some g
            \<and> amd_util_source E (index r) g \<and> gpu_utilization r = max g 0)"
proof (induction E sz i n buf s rule: amd_loop.induct)
  case (1 E sz i n buf s)
  show ?case
  proof (cases "i < n")
    case False
    with "1.prems" have "buf' = buf" by (subst (asm) amd_loop.simps) simp
    with "1.prems" show ?thesis by simp
  next
    case True
    with "1.prems" obtain ps s1 where
      d: "amd_device E i s = Inr (ps, s1)"
      and l: "amd_loop E sz (i + 1) n (buf @ ps) s1 = Inr (buf', s')"
      by (subst (asm) amd_loop.simps) (auto simp: bindF_Inr_iff dest: strcat_each_Inr)
    from amd_device_frame [OF d] obtain evs where s1: "s1 = with_trace evs s"
      unfolding only_calls_def by blast
    from amd_device_util [OF d] obtain r0 g0 where
      ps: "ps = (if i > 0 then [Comma] else []) @ [Rec r0]" and i0: "index r0 = i"
      and g0: "returned (amd_get_gpu_utilization E i s) = Some g0" "amd_util_source E i g0"
        "gpu_utilization r0 = max g0 0"
      by blast
    from ps have rp: "records ps = [r0]" by simp
    from "1.IH" [OF True l "1.prems"(2)]
    have ih: "r \<in> set (records (buf @ ps))
      \<or> (\<exists>g. returned (amd_get_gpu_utilization E (index r) s1) = Some g
             \<and> amd_util_source E (index r) g \<and> gpu_utilization r = max g 0)" .
    show ?thesis
    proof (cases "r \<in> set (records (buf @ ps))")
      case False
      with ih show ?thesis unfolding s1 amd_util_returned by blast
    next
      case True
      with rp have "r \<in> set (records buf) \<or> r = r0" by auto
      then show ?thesis
      proof
        assume "r \<in> set (records buf)"
        then show ?thesis by simp
      next
        assume "r = r0"
        with i0 g0 show ?thesis by blast
      qed
    qed
  qed
qed

lemma amd_json_util:
  assumes "amd_gpu_get_info_json E s = Inr (Some d, s')" "r \<in> set (records d)"
  shows "\<exists>g. returned (amd_get_gpu_utilization E (index r) s) = Some g
            \<and> amd_util_source E (index r) g \<and> gpu_utilization r = max g 0"
proof -
  from assms(1) obtain sz buf where
    l: "amd_loop E sz 0 (amd_gpu_get_count s) [Open] s = Inr (buf, s')" and d: "d = buf @ [Close]"
    by (auto simp: amd_gpu_get_info_json_def Let_def bindF_Inr_iff strcat_Inr_iff
        split: if_splits)
  from assms(2) d have "r \<in> set (records buf)" by simp
  from amd_loop_util [OF l this] show ?thesis by simp
qed

lemma intel_json_util:
  assumes "intel_gpu_get_info_json E s = Inr (Some d, s')" "r \<in> set (records d)"
  shows "\<exists>g. returned (intel_get_gpu_utilization E s) = Some g
            \<and> intel_util_source E g \<and> gpu_utilization r = max g 0"
proof -
  from assms(1) have m: "ans_malloc E"
    by (auto simp: intel_gpu_get_info_json_def split: if_splits)
  with assms(1) obtain g s1 nm u t tp pw where
    a: "intel_get_gpu_utilization E s = Inr (g, s1)"
    and d: "d = [Open, Rec (intel_record nm g u t tp pw), Close]"
    by (auto simp: intel_gpu_get_info_json_def bindF_Inr_iff split: prod.splits)
  from a have "returned (intel_get_gpu_utilization E s) = Some g"
    by (simp add: returned_def)
  with intel_util_source [OF a] d assms(2) show ?thesis by simp
qed

lemma amd_source_le:
  assumes "amd_util_source E i g"
    "gpuUsagePercent (snd (ans_agsGetGPUMemoryUsage E AtUtilization i)) \<le> 100"
    "doubleValue (ans_sample E i) \<le> 100"
  shows "g \<le> 100"
  using assms by (auto simp: amd_util_source_def dest: float_to_int_le)

lemma intel_source_le:
  assumes "intel_util_source E g"
    "sint (stats_gpu_utilization (snd (ans_igcl_get_device_stats E AtUtilization))) \<le> 100"
    "doubleValue (ans_sample E 0) \<le> 100"
  shows "g \<le> 100"
  using assms by (auto simp: intel_util_source_def dest: float_to_int_le)

lemma max_in_range: "utilization_in_range r \<longleftrightarrow> g \<le> 100" if "gpu_utilization r = max g 0"
  using that by (auto simp: utilization_in_range_def)

text \<open>
  C7, as the code has it. \<open>gpu_utilization\<close> of every record is an integer that is never
  negative, and no monitor clamps it from above. NVIDIA: the field is the unsigned rate
  \<^verbatim>\<open>utilization.gpu\<close> that NVML reports for the device of the record, or 0 when the
  utilization query fails; it lies in 0..100 exactly when the query fails or that rate is
  at most 100. AMD and Intel: the field is \<open>max(v, 0)\<close>, where \<open>v\<close> is the \<^verbatim>\<open>int\<close> that
  \<^verbatim>\<open>get_gpu_utilization\<close> returns for the device of the record: -1 or 0 when nothing could
  be read, else the percentage of the vendor library or the counter value, converted to
  \<^verbatim>\<open>int\<close>. It lies in 0..100 exactly when \<open>v\<close> is at most 100, hence whenever the
  percentage of the vendor library and the counter value for that device are at most 100.
\<close>

theorem gpu_utilization_by_backend:
  "(nv_gpu_get_info_json EN sN = Inr (Some dN, sN') \<and> rN \<in> set (records dN) \<longrightarrow>
      gpu_utilization rN =
          (if fst (ans_nvmlDeviceGetUtilizationRates EN (nv_device_of EN rN)) = NVML_SUCCESS
           then uint (gpu (snd (ans_nvmlDeviceGetUtilizationRates EN (nv_device_of EN rN))))
           else 0)
      \<and> 0 \<le> gpu_utilization rN
      \<and> (utilization_in_range rN \<longleftrightarrow>
           (fst (ans_nvmlDeviceGetUtilizationRates EN (nv_device_of EN rN)) = NVML_SUCCESS \<longrightarrow>
            uint (gpu (snd (ans_nvmlDeviceGetUtilizationRates EN (nv_device_of EN rN))))
              \<le> 100)))
   \<and> (amd_gpu_get_info_json EA sA = Inr (Some dA, sA') \<and> rA \<in> set (records dA) \<longrightarrow>
      (\<exists>v. returned (amd_get_gpu_utilization EA (index rA) sA) = Some v
           \<and> amd_util_source EA (index rA) v
           \<and> gpu_utilization rA = max v 0
           \<and> (utilization_in_range rA \<longleftrightarrow> v \<le> 100))
      \<and> 0 \<le> gpu_utilization rA
      \<and> (gpuUsagePercent (snd (ans_agsGetGPUMemoryUsage EA AtUtilization (index rA))) \<le> 100
            \<and> doubleValue (ans_sample EA (index rA)) \<le> 100 \<longrightarrow>
          utilization_in_range rA))
   \<and> (intel_gpu_get_info_json EI sI = Inr (Some dI, sI') \<and> rI \<in> set (records dI) \<longrightarrow>
      (\<exists>v. returned (intel_get_gpu_utilization EI sI) = Some v
           \<and> intel_util_source EI v
           \<and> gpu_utilization rI = max v 0
           \<and> (utilization_in_range rI \<longleftrightarrow> v \<le> 100))
      \<and> 0 \<le> gpu_utilization rI
      \<and> (sint (stats_gpu_utilization (snd (ans_igcl_get_device_stats EI AtUtilization))) \<le> 100
            \<and> doubleValue (ans_sample EI 0) \<le> 100 \<longrightarrow>
          utilization_in_range rI))"
proof -
  have n: "gpu_utilization rN =
          (if fst (ans_nvmlDeviceGetUtilizationRates EN (nv_device_of EN rN)) = NVML_SUCCESS
           then uint (gpu (snd (ans_nvmlDeviceGetUtilizationRates EN (nv_device_of EN rN))))
           else 0)
      \<and> 0 \<le> gpu_utilization rN
      \<and> (utilization_in_range rN \<longleftrightarrow>
           (fst (ans_nvmlDeviceGetUtilizationRates EN (nv_device_of EN rN)) = NVML_SUCCESS \<longrightarrow>
            uint (gpu (snd (ans_nvmlDeviceGetUtilizationRates EN (nv_device_of EN rN))))
              \<le> 100))"
    if "nv_gpu_get_info_json EN sN = Inr (Some dN, sN')" "rN \<in> set (records dN)"
  proof -
    from nv_json_records [OF that]
    have "gpu_utilization rN =
        gpu_utilization (nv_record EN (nat (index rN)) (nv_device_of EN rN))"
      by (rule arg_cong)
    then have e: "gpu_utilization rN =
          (if fst (ans_nvmlDeviceGetUtilizationRates EN (nv_device_of EN rN)) = NVML_SUCCESS
           then uint (gpu (snd (ans_nvmlDeviceGetUtilizationRates EN (nv_device_of EN rN))))
           else 0)"
      by (simp only: nv_record_fields)
    then have p: "0 \<le> gpu_utilization rN" by simp
    from e have "utilization_in_range rN \<longleftrightarrow>
           (fst (ans_nvmlDeviceGetUtilizationRates EN (nv_device_of EN rN)) = NVML_SUCCESS \<longrightarrow>
            uint (gpu (snd (ans_nvmlDeviceGetUtilizationRates EN (nv_device_of EN rN))))
              \<le> 100)"
      by (simp add: utilization_in_range_def)
    with e p show ?thesis by blast
  qed
  have a: "(\<exists>v. returned (amd_get_gpu_utilization EA (index rA) sA) = Some v
           \<and> amd_util_source EA (index rA) v
           \<and> gpu_utilization rA = max v 0
           \<and> (utilization_in_range rA \<longleftrightarrow> v \<le> 100))
      \<and> 0 \<le> gpu_utilization rA
      \<and> (gpuUsagePercent (snd (ans_agsGetGPUMemoryUsage EA AtUtilization (index rA))) \<le> 100
            \<and> doubleValue (ans_sample EA (index rA)) \<le> 100 \<longrightarrow>
          utilization_in_range rA)"
    if "amd_gpu_get_info_json EA sA = Inr (Some dA, sA')" "rA \<in> set (records dA)"
  proof -
    from amd_json_util [OF that] obtain v where
      v: "returned (amd_get_gpu_utilization EA (index rA) sA) = Some v"
        "amd_util_source EA (index rA) v" "gpu_utilization rA = max v 0"
      by blast
    note r = max_in_range [OF v(3)]
    from v(3) have p: "0 \<le> gpu_utilization rA" by simp
    have "utilization_in_range rA"
      if "gpuUsagePercent (snd (ans_agsGetGPUMemoryUsage EA AtUtilization (index rA))) \<le> 100
            \<and> doubleValue (ans_sample EA (index rA)) \<le> 100"
      using that amd_source_le [OF v(2)] r by blast
    with v r p show ?thesis by blast
  qed
  have i: "(\<exists>v. returned (intel_get_gpu_utilization EI sI) = Some v
           \<and> intel_util_source EI v
           \<and> gpu_utilization rI = max v 0
           \<and> (utilization_in_range rI \<longleftrightarrow> v \<le> 100))
      \<and> 0 \<le> gpu_utilization rI
      \<and> (sint (stats_gpu_utilization (snd (ans_igcl_get_device_stats EI AtUtilization))) \<le> 100
            \<and> doubleValue (ans_sample EI 0) \<le> 100 \<longrightarrow>
          utilization_in_range rI)"
    if "intel_gpu_get_info_json EI sI = Inr (Some dI, sI')" "rI \<in> set (records dI)"
  proof -
    from intel_json_util [OF that] obtain v where
      v: "returned (intel_get_gpu_utilization EI sI) = Some v"
        "intel_util_source EI v" "gpu_utilization rI = max v 0"
      by blast
    note r = max_in_range [OF v(3)]
    from v(3) have p: "0 \<le> gpu_utilization rI" by simp
    have "utilization_in_range rI"
      if "sint (stats_gpu_utilization (snd (ans_igcl_get_device_stats EI AtUtilization))) \<le> 100
            \<and> doubleValue (ans_sample EI 0) \<le> 100"
      using that intel_source_le [OF v(2)] r by blast
    with v r p show ?thesis by blast
  qed
  from n a i show ?thesis by blast
qed

theorem gpu_utilization_by_backend_witness:
  "records_of (nv_gpu_get_info_json nv_idle (nv_after_init nv_idle)) \<noteq> []
   \<and> gpu_utilization (hd (records_of (nv_gpu_get_info_json nv_idle (nv_after_init nv_idle))))
       = 35
   \<and> utilization_in_range (hd (records_of (nv_gpu_get_info_json nv_idle (nv_after_init nv_idle))))
   \<and> records_of (amd_gpu_get_info_json amd_machine (amd_after_init amd_machine)) \<noteq> []
   \<and> returned (amd_get_gpu_utilization amd_machine 0 (amd_after_init amd_machine)) = Some 85
   \<and> gpu_utilization
       (hd (records_of (amd_gpu_get_info_json amd_machine (amd_after_init amd_machine)))) = 85
   \<and> utilization_in_range
       (hd (records_of (amd_gpu_get_info_json amd_machine (amd_after_init amd_machine))))
   \<and> records_of (intel_gpu_get_info_json intel_machine (intel_after_init intel_machine)) \<noteq> []
   \<and> utilization_in_range
       (hd (records_of (intel_gpu_get_info_json intel_machine (intel_after_init intel_machine))))"
proof -
  let ?sn = "nv_after_init nv_idle"
  let ?sa = "amd_after_init amd_machine"
  let ?si = "intel_after_init intel_machine"
  let ?n = "nv_gpu_get_info_json nv_idle ?sn"
  let ?a = "amd_gpu_get_info_json amd_machine ?sa"
  let ?i = "intel_gpu_get_info_json intel_machine ?si"
  have "map index (records_of ?n) = [0, 1]"
    by (simp add: nv_eval nv_idle_def)
  then have nn: "records_of ?n \<noteq> []" by auto
  have ra: "map index (records_of ?a) = [0, 1]"
    by (simp add: amd_eval)
  then have na: "records_of ?a \<noteq> []" by auto
  from ra have ia: "index (hd (records_of ?a)) = 0"
    by (cases "records_of ?a") auto
  have "map index (records_of ?i) = [0]"
    by (simp add: intel_eval)
  then have ni: "records_of ?i \<noteq> []" by auto
  from nn obtain dN where dN: "?n = Inr (Some dN, state_after ?sn ?n)"
    "hd (records_of ?n) \<in> set (records dN)"
    by (rule records_of_nonempty)
  from na obtain dA where dA: "?a = Inr (Some dA, state_after ?sa ?a)"
    "hd (records_of ?a) \<in> set (records dA)"
    by (rule records_of_nonempty)
  from ni obtain dI where dI: "?i = Inr (Some dI, state_after ?si ?i)"
    "hd (records_of ?i) \<in> set (records dI)"
    by (rule records_of_nonempty)
  have hn: "ans_nvmlDeviceGetUtilizationRates nv_idle d = (NVML_SUCCESS, \<lparr>gpu = 35, memory = 20\<rparr>)"
    for d
    by (simp add: nv_idle_def nv_machine_def NVML_SUCCESS_def)
  have ha: "gpuUsagePercent (snd (ans_agsGetGPUMemoryUsage amd_machine AtUtilization
                (index (hd (records_of ?a))))) \<le> 100
          \<and> doubleValue (ans_sample amd_machine (index (hd (records_of ?a)))) \<le> 100"
    by (simp add: amd_machine_def)
  have hi: "sint (stats_gpu_utilization (snd (ans_igcl_get_device_stats intel_machine
      AtUtilization))) \<le> 100 \<and> doubleValue (ans_sample intel_machine 0) \<le> 100"
    by (simp add: intel_machine_def)
  have ua: "returned (amd_get_gpu_utilization amd_machine 0 ?sa) = Some 85"
    by (simp add: amd_eval)
  note t = gpu_utilization_by_backend [where EN = nv_idle and sN = ?sn
      and dN = dN and sN' = "state_after ?sn ?n"
      and rN = "hd (records_of ?n)" and EA = amd_machine
      and sA = ?sa and dA = dA
      and sA' = "state_after ?sa ?a" and rA = "hd (records_of ?a)"
      and EI = intel_machine and sI = ?si and dI = dI
      and sI' = "state_after ?si ?i" and rI = "hd (records_of ?i)"]
  note tn = mp [OF t [THEN conjunct1] conjI [OF dN]]
  note ta = mp [OF t [THEN conjunct2, THEN conjunct1] conjI [OF dA]]
  note ti = mp [OF t [THEN conjunct2, THEN conjunct2] conjI [OF dI]]
  from tn [THEN conjunct1] have c0: "gpu_utilization (hd (records_of ?n)) = 35"
    by (simp add: hn)
  from tn [THEN conjunct2, THEN conjunct2]
  have c1: "utilization_in_range (hd (records_of ?n))"
    by (simp add: hn)
  from ta [THEN conjunct1] obtain v where
    "returned (amd_get_gpu_utilization amd_machine (index (hd (records_of ?a))) ?sa) = Some v"
    "gpu_utilization (hd (records_of ?a)) = max v 0"
    by blast
  with ia ua have c4: "gpu_utilization (hd (records_of ?a)) = 85" by simp
  from mp [OF ta [THEN conjunct2, THEN conjunct2] ha]
  have c2: "utilization_in_range (hd (records_of ?a))" .
  from mp [OF ti [THEN conjunct2, THEN conjunct2] hi]
  have c3: "utilization_in_range (hd (records_of ?i))" .
  from nn c0 c1 na ua c4 c2 ni c3 show ?thesis by (intro conjI)
qed

text \<open>
  C7 as stated fails. On the NVIDIA machine NVML reports a GPU utilization of 150 and both
  records carry 150. On the AMD counter fallback with a utilization counter that reads 250
  the record carries 250.
\<close>

theorem gpu_utilization_counterexample:
  "map gpu_utilization
      (records_of (nv_gpu_get_info_json nv_machine (nv_after_init nv_machine))) = [150, 150]
   \<and> map utilization_in_range
      (records_of (nv_gpu_get_info_json nv_machine (nv_after_init nv_machine)))
       = [False, False]
   \<and> map gpu_utilization (records_of (amd_gpu_get_info_json amd_busy_counters
        (amd_after_init amd_busy_counters))) = [250]
   \<and> map utilization_in_range (records_of (amd_gpu_get_info_json amd_busy_counters
        (amd_after_init amd_busy_counters))) = [False]"
  by (simp add: nv_eval amd_busy_counters_def amd_eval utilization_in_range_def)

lemma index_last: "map index xs = [0, 1] \<Longrightarrow> index (last xs) = 1"
  by (cases xs rule: rev_cases) auto

text \<open>
  C3, as the code has it. NVIDIA: when the seven functions that the snapshot calls are
  resolved in a loaded library (\<^verbatim>\<open>gpu_init\<close> does not require two of them,
  \<^verbatim>\<open>nvmlDeviceGetTemperature\<close> and \<^verbatim>\<open>nvmlDeviceGetPowerUsage\<close>), \<^verbatim>\<open>nvmlDeviceGetCount\<close>
  succeeds with fewer than 8388606 devices, \<^verbatim>\<open>malloc\<close> succeeds and the handle of every
  device can be looked up, the snapshot returns a document with exactly one record for each
  device, in the order of the indices and separated by single commas. A failed utilization
  or memory query, or a temperature or power query that stores nothing, leaves the record
  in place with zeros in the fields concerned. AMD: when the count \<open>N\<close> is at least 1 and
  at most 2097150, \<^verbatim>\<open>malloc\<close> succeeds, the adapter array has \<^verbatim>\<open>numDevices\<close> entries,
  \<^verbatim>\<open>agsGetGPUMemoryUsage\<close> is \<^verbatim>\<open>NULL\<close> or resolved in a loaded library, and the
  percentages convert to \<^verbatim>\<open>int\<close>, the snapshot returns a document with exactly \<open>N\<close>
  records, indexed 0 to \<open>N - 1\<close> and separated by single commas; with a count of 0 or less
  it returns no document. In a document that the AMD snapshot returns, a device whose three
  statistics calls fail while no counter is registered has its record, with 0 for the
  utilizations, the used memory, the temperature and the power. Intel: when the two IGCL
  functions are \<^verbatim>\<open>NULL\<close> or resolved in a loaded library, \<^verbatim>\<open>malloc\<close> succeeds and the
  counter value converts to \<^verbatim>\<open>int\<close>, the snapshot returns a document with exactly one
  record.
\<close>

theorem document_record_count:
  "(nv_ready sN \<and> ans_nvmlDeviceGetCount EN = (NVML_SUCCESS, c) \<and> unat c < 8388606
      \<and> nv_malloc_ok EN
      \<and> (\<forall>i<unat c. fst (ans_nvmlDeviceGetHandleByIndex EN i) = NVML_SUCCESS) \<longrightarrow>
      (\<exists>d s'. nv_gpu_get_info_json EN sN = Inr (Some d, s')
         \<and> records d =
             map (\<lambda>i. nv_record EN i (snd (ans_nvmlDeviceGetHandleByIndex EN i))) [0..<unat c]
         \<and> length (records d) = unat c \<and> well_formed d))
   \<and> (fst (ans_nvmlDeviceGetUtilizationRates EN dev) \<noteq> NVML_SUCCESS \<longrightarrow>
        gpu_utilization (nv_record EN i dev) = 0 \<and> memory_utilization (nv_record EN i dev) = 0)
   \<and> (fst (ans_nvmlDeviceGetMemoryInfo EN dev) \<noteq> NVML_SUCCESS \<longrightarrow>
        memory_total (nv_record EN i dev) = 0 \<and> memory_used (nv_record EN i dev) = 0
        \<and> memory_free (nv_record EN i dev) = 0)
   \<and> (ans_nvmlDeviceGetTemperature EN dev = None \<longrightarrow> temperature (nv_record EN i dev) = 0)
   \<and> (ans_nvmlDeviceGetPowerUsage EN dev = None \<longrightarrow> power_usage (nv_record EN i dev) = 0)
   \<and> (amd_gpu_get_count sZ \<le> 0 \<longrightarrow> amd_gpu_get_info_json EZ sZ = Inr (None, sZ))
   \<and> (1 \<le> amd_gpu_get_count sA \<and> amd_gpu_get_count sA \<le> 2097150 \<and> ans_malloc EA
        \<and> amd_ready sA
        \<and> (\<forall>j. float_fits (gpuUsagePercent (snd (ans_agsGetGPUMemoryUsage EA AtUtilization j)))
               \<and> float_fits (doubleValue (ans_sample EA j))) \<longrightarrow>
      (\<exists>d s'. amd_gpu_get_info_json EA sA = Inr (Some d, s')
         \<and> length (records d) = nat (amd_gpu_get_count sA) \<and> well_formed d
         \<and> map index (records d) = map int [0..<nat (amd_gpu_get_count sA)]))
   \<and> (amd_gpu_get_info_json EA sA = Inr (Some dA, sA') \<and> \<not> perf_counters_initialized sA
        \<and> rA \<in> set (records dA) \<and> stats_fail EA (index rA) \<longrightarrow>
      zero_stats rA)
   \<and> (intel_ready sI \<and> ans_malloc EI \<and> float_fits (doubleValue (ans_sample EI 0)) \<longrightarrow>
      (\<exists>d s'. intel_gpu_get_info_json EI sI = Inr (Some d, s')
         \<and> length (records d) = 1 \<and> well_formed d))"
proof -
  have n: "\<exists>d s'. nv_gpu_get_info_json EN sN = Inr (Some d, s')
         \<and> records d =
             map (\<lambda>i. nv_record EN i (snd (ans_nvmlDeviceGetHandleByIndex EN i))) [0..<unat c]
         \<and> length (records d) = unat c \<and> well_formed d"
    if h: "nv_ready sN" "ans_nvmlDeviceGetCount EN = (NVML_SUCCESS, c)" "nv_malloc_ok EN"
      "unat c < 8388606"
      and a: "\<forall>i<unat c. fst (ans_nvmlDeviceGetHandleByIndex EN i) = NVML_SUCCESS"
  proof -
    let ?rs = "map (\<lambda>i. nv_record EN i (snd (ans_nvmlDeviceGetHandleByIndex EN i)))
      [0..<unat c]"
    let ?d = "[Open] @ concat (map (nv_pieces EN) [0..<unat c]) @ [Close]"
    from nv_json_ready [OF h] obtain s' where
      j: "nv_gpu_get_info_json EN sN = Inr (Some ?d, s')" by blast
    from nv_pieces_all_found [OF a] have d: "?d = Open # separated ?rs @ [Close]" by simp
    then have r: "records ?d = ?rs" by simp
    then have l: "length (records ?d) = unat c" by simp
    from d r have w: "well_formed ?d" by (simp add: well_formed_def)
    from j r l w show ?thesis by blast
  qed
  have z: "amd_gpu_get_info_json EZ sZ = Inr (None, sZ)" if "amd_gpu_get_count sZ \<le> 0"
    using that by (simp add: amd_gpu_get_info_json_def Let_def)
  have f: "gpu_utilization (nv_record EN i dev) = 0 \<and> memory_utilization (nv_record EN i dev) = 0"
    if "fst (ans_nvmlDeviceGetUtilizationRates EN dev) \<noteq> NVML_SUCCESS"
    using that by (simp add: nv_record_fields)
  have g: "memory_total (nv_record EN i dev) = 0 \<and> memory_used (nv_record EN i dev) = 0
        \<and> memory_free (nv_record EN i dev) = 0"
    if "fst (ans_nvmlDeviceGetMemoryInfo EN dev) \<noteq> NVML_SUCCESS"
    using that by (simp add: nv_record_fields)
  have t: "temperature (nv_record EN i dev) = 0" if "ans_nvmlDeviceGetTemperature EN dev = None"
    using that by (simp add: nv_record_fields)
  have p: "power_usage (nv_record EN i dev) = 0" if "ans_nvmlDeviceGetPowerUsage EN dev = None"
    using that by (simp add: nv_record_fields)
  note a = amd_json_count [of sA EA]
  note b = amd_json_defaults [of EA sA dA sA' rA]
  note k = intel_json_ready [of sI EI]
  from n f g t p z a b k show ?thesis by blast
qed

theorem document_record_count_witness:
  "nv_ready (nv_after_init nv_transient)
   \<and> map index (records_of (nv_gpu_get_info_json nv_transient (nv_after_init nv_transient)))
       = [0, 1]
   \<and> zero_stats (last (records_of
        (nv_gpu_get_info_json nv_transient (nv_after_init nv_transient))))
   \<and> amd_gpu_get_count (amd_after_init amd_no_adapter) \<le> 0
   \<and> document (amd_gpu_get_info_json amd_no_adapter (amd_after_init amd_no_adapter)) = None
   \<and> 1 \<le> amd_gpu_get_count (amd_after_init amd_transient)
   \<and> amd_ready (amd_after_init amd_transient)
   \<and> length (records_of (amd_gpu_get_info_json amd_transient (amd_after_init amd_transient)))
       = 2
   \<and> stats_fail amd_transient 1
   \<and> zero_stats (last (records_of
        (amd_gpu_get_info_json amd_transient (amd_after_init amd_transient))))
   \<and> intel_ready (intel_after_init intel_machine)
   \<and> length (records_of (intel_gpu_get_info_json intel_machine (intel_after_init intel_machine)))
       = 1"
proof -
  let ?sn = "nv_after_init nv_transient"
  let ?sa = "amd_after_init amd_transient"
  let ?sz = "amd_after_init amd_no_adapter"
  let ?si = "intel_after_init intel_machine"
  let ?n = "nv_gpu_get_info_json nv_transient ?sn"
  let ?a = "amd_gpu_get_info_json amd_transient ?sa"
  let ?i = "intel_gpu_get_info_json intel_machine ?si"
  have k: "ans_nvmlDeviceGetHandleByIndex nv_transient 0 = (NVML_SUCCESS, 0)"
    "ans_nvmlDeviceGetHandleByIndex nv_transient (Suc 0) = (NVML_SUCCESS, 1)"
    by (simp_all add: nv_transient_def nv_idle_def nv_machine_def NVML_SUCCESS_def)
  have u: "[0..<unat (2 :: 32 word)] = [0, 1]" by (simp add: upt_conv_Cons)
  have r1: "nv_ready ?sn"
    by (simp add: nv_ready_def nv_transient_def nv_idle_def nv_eval)
  have h1: "nv_ready ?sn \<and> ans_nvmlDeviceGetCount nv_transient = (NVML_SUCCESS, 2)
    \<and> unat (2 :: 32 word) < 8388606 \<and> nv_malloc_ok nv_transient
    \<and> (\<forall>i<unat (2 :: 32 word).
          fst (ans_nvmlDeviceGetHandleByIndex nv_transient i) = NVML_SUCCESS)"
    using r1 by (simp add: nv_transient_def nv_idle_def nv_machine_def NVML_SUCCESS_def)
  have h2: "fst (ans_nvmlDeviceGetUtilizationRates nv_transient 1) \<noteq> NVML_SUCCESS"
    "fst (ans_nvmlDeviceGetMemoryInfo nv_transient 1) \<noteq> NVML_SUCCESS"
    "ans_nvmlDeviceGetTemperature nv_transient 1 = None"
    "ans_nvmlDeviceGetPowerUsage nv_transient 1 = None"
    by (simp_all add: nv_transient_def nv_idle_def nv_machine_def NVML_SUCCESS_def)
  have h3: "amd_gpu_get_count ?sz \<le> 0"
    by (simp add: amd_no_adapter_def amd_eval)
  have h4: "1 \<le> amd_gpu_get_count ?sa" "ans_malloc amd_transient" "amd_ready ?sa"
    "\<not> perf_counters_initialized ?sa"
    by (simp_all add: amd_transient_def amd_ready_def amd_eval)
  have f4: "stats_fail amd_transient 1"
    by (simp add: amd_transient_def stats_fail_def AGS_SUCCESS_def)
  have c4: "amd_gpu_get_count ?sa = 2"
    by (simp add: amd_transient_def amd_eval)
  have h5: "\<forall>j. float_fits (gpuUsagePercent
                 (snd (ans_agsGetGPUMemoryUsage amd_transient AtUtilization j)))
               \<and> float_fits (doubleValue (ans_sample amd_transient j))"
    by (simp add: amd_transient_def amd_machine_def float_fits_def float_to_int_def)
  have h6: "intel_ready ?si \<and> ans_malloc intel_machine
    \<and> float_fits (doubleValue (ans_sample intel_machine 0))"
    by (simp add: intel_ready_def float_fits_def intel_eval)
  have ra: "map index (records_of ?a) = [0, 1]"
    by (simp add: amd_transient_def amd_eval)
  then have na: "records_of ?a \<noteq> []" by auto
  from ra have la: "index (last (records_of ?a)) = 1" by (rule index_last)
  from na obtain dA where dA: "?a = Inr (Some dA, state_after ?sa ?a)"
    "records_of ?a = records dA"
    by (rule records_of_nonempty)
  from na dA(2) have ia: "last (records_of ?a) \<in> set (records dA)" by simp
  note t = document_record_count [where sN = ?sn and EN = nv_transient and c = 2
      and dev = 1 and i = 1 and sZ = ?sz and EZ = amd_no_adapter
      and sA = ?sa and EA = amd_transient and dA = dA and sA' = "state_after ?sa ?a"
      and rA = "last (records_of ?a)" and sI = ?si and EI = intel_machine]
  note t1 = mp [OF t [THEN conjunct1] h1]
  note t2 = mp [OF t [THEN conjunct2, THEN conjunct1] h2(1)]
  note t3 = mp [OF t [THEN conjunct2, THEN conjunct2, THEN conjunct1] h2(2)]
  note t4 = mp [OF t [THEN conjunct2, THEN conjunct2, THEN conjunct2, THEN conjunct1] h2(3)]
  note t5 = mp [OF t [THEN conjunct2, THEN conjunct2, THEN conjunct2, THEN conjunct2,
        THEN conjunct1] h2(4)]
  note r = t [THEN conjunct2, THEN conjunct2, THEN conjunct2, THEN conjunct2, THEN conjunct2]
  note t6 = mp [OF r [THEN conjunct1] h3]
  note t7 = r [THEN conjunct2, THEN conjunct1]
  note t8 = r [THEN conjunct2, THEN conjunct2, THEN conjunct1]
  note t9 = mp [OF r [THEN conjunct2, THEN conjunct2, THEN conjunct2] h6]
  from t1 obtain dn sn' where
    n: "?n = Inr (Some dn, sn')" "records dn =
             map (\<lambda>i. nv_record nv_transient i (snd (ans_nvmlDeviceGetHandleByIndex nv_transient i)))
               [0..<unat (2 :: 32 word)]"
    by blast
  from n(2) have rn: "records dn = [nv_record nv_transient 0 0, nv_record nv_transient 1 1]"
    unfolding u by (simp add: k)
  with n(1) have c1: "map index (records_of ?n) = [0, 1]"
    by (simp add: records_of_def document_def nv_record_fields(1))
  from n(1) rn have "last (records_of ?n) = nv_record nv_transient 1 1"
    by (simp add: records_of_def document_def)
  with t2 t3 t4 t5 have c0: "zero_stats (last (records_of ?n))"
    by (simp add: zero_stats_def)
  from t6 have c6: "document (amd_gpu_get_info_json amd_no_adapter ?sz) = None"
    by (simp add: document_def)
  from h4(1,2,3) h5 c4 have "1 \<le> amd_gpu_get_count ?sa \<and> amd_gpu_get_count ?sa \<le> 2097150
        \<and> ans_malloc amd_transient \<and> amd_ready ?sa
        \<and> (\<forall>j. float_fits (gpuUsagePercent
                 (snd (ans_agsGetGPUMemoryUsage amd_transient AtUtilization j)))
               \<and> float_fits (doubleValue (ans_sample amd_transient j)))"
    by simp
  from mp [OF t7 this] obtain da sa' where
    a: "?a = Inr (Some da, sa')" "length (records da) = nat (amd_gpu_get_count ?sa)"
    by blast
  from a(2) have "length (records da) = 2" unfolding c4 by simp
  with a(1) have c2: "length (records_of ?a) = 2"
    by (simp add: records_of_def document_def)
  from la f4 have "stats_fail amd_transient (index (last (records_of ?a)))" by simp
  with dA(1) h4(4) ia have "?a = Inr (Some dA, state_after ?sa ?a)
        \<and> \<not> perf_counters_initialized ?sa
        \<and> last (records_of ?a) \<in> set (records dA)
        \<and> stats_fail amd_transient (index (last (records_of ?a)))"
    by (intro conjI)
  from mp [OF t8 this] have c3: "zero_stats (last (records_of ?a))" .
  from t9 obtain di si' where
    i: "?i = Inr (Some di, si')" "length (records di) = 1"
    by blast
  from i have c5: "length (records_of ?i) = 1"
    by (simp add: records_of_def document_def)
  from h6 have "intel_ready ?si" by (rule conjunct1)
  with r1 c1 c0 h3 c6 h4(1) h4(3) c2 f4 c3 c5 show ?thesis by (intro conjI)
qed

text \<open>
  C3 as stated fails. When AGS initialises and reports no adapter, \<^verbatim>\<open>gpu_init\<close> returns 0
  and the count is 0, but the snapshot returns no document instead of an empty one. When
  NVML counts two devices and the handle of device 0 cannot be looked up, the buffer holds
  the record of device 1 only, after a comma. When NVML counts 8388606 devices the size of
  the buffer wraps around to 0 and \<^verbatim>\<open>strcpy\<close> writes beyond it; when AGS reports 2097151
  adapters the size overflows \<^verbatim>\<open>int\<close>.
\<close>

theorem document_count_counterexample:
  "returned (amd_gpu_init amd_no_adapter (amd_initial fresh_os)) = Some 0
   \<and> amd_backend (amd_after_init amd_no_adapter) = VendorBackend
   \<and> amd_gpu_get_count (amd_after_init amd_no_adapter) = 0
   \<and> document (amd_gpu_get_info_json amd_no_adapter (amd_after_init amd_no_adapter)) = None
   \<and> returned (nv_gpu_init nv_lost_device (nv_initial fresh_os)) = Some 0
   \<and> returned (nv_gpu_get_count nv_lost_device (nv_after_init nv_lost_device)) = Some 2
   \<and> map index (records_of
        (nv_gpu_get_info_json nv_lost_device (nv_after_init nv_lost_device))) = [1]
   \<and> take 2 (the (document
        (nv_gpu_get_info_json nv_lost_device (nv_after_init nv_lost_device)))) = [Open, Comma]
   \<and> returned (nv_gpu_get_count nv_crowded (nv_after_init nv_crowded)) = Some 8388606
   \<and> nv_gpu_get_info_json nv_crowded (nv_after_init nv_crowded) = Inl BufferOverrun
   \<and> amd_gpu_get_count (amd_after_init amd_crowded) = 2097151
   \<and> amd_gpu_get_info_json amd_crowded (amd_after_init amd_crowded) = Inl SignedOverflow"
proof -
  have a: "returned (amd_gpu_init amd_no_adapter (amd_initial fresh_os)) = Some 0
   \<and> amd_backend (amd_after_init amd_no_adapter) = VendorBackend
   \<and> amd_gpu_get_count (amd_after_init amd_no_adapter) = 0
   \<and> document (amd_gpu_get_info_json amd_no_adapter (amd_after_init amd_no_adapter)) = None"
    by (simp add: amd_no_adapter_def amd_backend_def amd_eval)
  have n: "returned (nv_gpu_init nv_lost_device (nv_initial fresh_os)) = Some 0
   \<and> returned (nv_gpu_get_count nv_lost_device (nv_after_init nv_lost_device)) = Some 2
   \<and> map index (records_of
        (nv_gpu_get_info_json nv_lost_device (nv_after_init nv_lost_device))) = [1]
   \<and> take 2 (the (document
        (nv_gpu_get_info_json nv_lost_device (nv_after_init nv_lost_device)))) = [Open, Comma]"
    by (simp add: nv_lost_device_def nv_idle_def nv_eval)
  have c: "returned (nv_gpu_get_count nv_crowded (nv_after_init nv_crowded)) = Some 8388606
   \<and> nv_gpu_get_info_json nv_crowded (nv_after_init nv_crowded) = Inl BufferOverrun"
    by (simp add: nv_crowded_def nv_idle_def nv_eval del: nv_loop.simps)
  have o: "amd_gpu_get_count (amd_after_init amd_crowded) = 2097151
   \<and> amd_gpu_get_info_json amd_crowded (amd_after_init amd_crowded) = Inl SignedOverflow"
    by (simp add: amd_crowded_def amd_eval del: amd_loop.simps)
  from a n c o show ?thesis by (intro conjI) simp_all
qed

end
